theory Spec2Isabelle
  imports Main "HOL-Library.AList"
begin

chapter \<open>The program\<close>

section \<open>Python values\<close>

text \<open>
  The values the three modules handle are JSON data: what \<^verbatim>\<open>json.loads\<close> returns and
  \<^verbatim>\<open>json.dumps\<close> accepts. Numbers are integers. A \<^verbatim>\<open>dict\<close> is an association list in
  insertion order with string keys; \<open>map_of\<close> reads it, \<open>AList.update\<close> is item assignment
  (an existing key keeps its place, a new one goes last) and \<open>AList.delete\<close> removes a key.
  \<open>PObject\<close> stands for an object that is neither JSON data nor a class, and has no length (a
  \<^verbatim>\<open>datetime\<close>): \<^verbatim>\<open>json.dumps\<close> raises \<^verbatim>\<open>TypeError\<close> on it.
\<close>

datatype pyval =
    PNone
  | PBool bool
  | PInt int
  | PStr string
  | PList "pyval list"
  | PDict "(string \<times> pyval) list"
  | PObject

type_synonym pydict = "(string \<times> pyval) list"

text \<open>The exceptions the modelled code can raise.\<close>

datatype error = NameError | TypeError | AttributeError | ValueError | KeyError | OSError

section \<open>models/user\_profile.py\<close>

text \<open>
  A \<^verbatim>\<open>UserProfile\<close> instance is its \<^verbatim>\<open>__dict__\<close>. The constructor reads the clock twice
  (\<open>t1\<close> for \<^verbatim>\<open>created_at\<close>, \<open>t2\<close> for \<^verbatim>\<open>updated_at\<close>).
\<close>

definition field_names :: "string list" where
  "field_names =
     [''user_id'', ''name'', ''nickname'', ''preferred_name'', ''personality_traits'',
      ''interests'', ''notable_facts'', ''relationship_context'', ''conversation_topics'',
      ''created_at'', ''updated_at'']"

definition UserProfile_init :: "string \<Rightarrow> string \<Rightarrow> pyval \<Rightarrow> pydict" where
  "UserProfile_init t1 t2 user_id =
     [(''user_id'', user_id),
      (''name'', PNone),
      (''nickname'', PNone),
      (''preferred_name'', PNone),
      (''personality_traits'', PList []),
      (''interests'', PList []),
      (''notable_facts'', PList []),
      (''relationship_context'', PList []),
      (''conversation_topics'', PList []),
      (''created_at'', PStr t1),
      (''updated_at'', PStr t2)]"

text \<open>The attributes the class body itself defines: its five methods.\<close>

definition class_attrs :: "string list" where
  "class_attrs = [''__init__'', ''update_profile'', ''to_dict'', ''from_dict'', ''get_summary'']"

text \<open>
  \<^verbatim>\<open>hasattr(self, k)\<close> finds an instance attribute, an attribute of the class, or one the
  instance gets from the interpreter (those of \<^verbatim>\<open>object\<close> and of class creation, such as
  \<^verbatim>\<open>__class__\<close>, \<^verbatim>\<open>__dict__\<close>, \<^verbatim>\<open>__doc__\<close>, \<^verbatim>\<open>__eq__\<close>). The last set belongs to the
  interpreter, not to the repository: it is the parameter \<open>oa\<close>.
\<close>

definition hasattr :: "string list \<Rightarrow> pydict \<Rightarrow> string \<Rightarrow> bool" where
  "hasattr oa self k = (k \<in> set (map fst self) \<or> k \<in> set class_attrs \<or> k \<in> set oa)"

text \<open>
  \<^verbatim>\<open>setattr(self, k, v)\<close> stores into the instance dictionary, except for the three data
  descriptors of a plain class: \<^verbatim>\<open>__class__\<close> takes a class only, \<^verbatim>\<open>__weakref__\<close> is not
  writable, and \<^verbatim>\<open>__dict__\<close> replaces the whole instance dictionary and takes a dict only.
\<close>

definition setattr :: "pydict \<Rightarrow> string \<Rightarrow> pyval \<Rightarrow> error + pydict" where
  "setattr self k v =
     (if k = ''__class__'' then Inl TypeError
      else if k = ''__weakref__'' then Inl AttributeError
      else if k = ''__dict__'' then (case v of PDict d \<Rightarrow> Inr d | _ \<Rightarrow> Inl TypeError)
      else Inr (AList.update k v self))"

text \<open>\<^verbatim>\<open>update_profile(self, field, value)\<close>; \<open>now\<close> is the clock reading of line 26.\<close>

definition update_profile ::
  "string list \<Rightarrow> string \<Rightarrow> pydict \<Rightarrow> string \<Rightarrow> pyval \<Rightarrow> error + (bool \<times> pydict)" where
  "update_profile oa now self field v =
     (if hasattr oa self field then
        (case setattr self field v of
           Inl e \<Rightarrow> Inl e
         | Inr self' \<Rightarrow> Inr (True, AList.update ''updated_at'' (PStr now) self'))
      else Inr (False, self))"

text \<open>
  \<^verbatim>\<open>to_dict\<close> copies the instance dictionary. The call \<^verbatim>\<open>profile.to_dict()\<close> looks the name
  up on the instance first, so an instance attribute of that name (a JSON value, not
  callable) makes the call raise \<^verbatim>\<open>TypeError\<close>.
\<close>

definition to_dict :: "pydict \<Rightarrow> pydict" where
  "to_dict self = map (\<lambda>kv. (fst kv, snd kv)) self"

definition call_to_dict :: "pydict \<Rightarrow> error + pydict" where
  "call_to_dict self =
     (if ''to_dict'' \<in> set (map fst self) then Inl TypeError else Inr (to_dict self))"

text \<open>
  \<^verbatim>\<open>from_dict(cls, data)\<close>: \<^verbatim>\<open>data.get\<close> needs a dict; the loop runs over the items in
  order and stops at the first \<^verbatim>\<open>setattr\<close> that raises.
\<close>

fun from_dict_loop :: "string list \<Rightarrow> (string \<times> pyval) list \<Rightarrow> pydict \<Rightarrow> error + pydict" where
  "from_dict_loop oa [] profile = Inr profile"
| "from_dict_loop oa ((k, v) # items) profile =
     (if hasattr oa profile k then
        (case setattr profile k v of
           Inl e \<Rightarrow> Inl e
         | Inr profile' \<Rightarrow> from_dict_loop oa items profile')
      else from_dict_loop oa items profile)"

definition from_dict :: "string list \<Rightarrow> string \<Rightarrow> string \<Rightarrow> pyval \<Rightarrow> error + pydict" where
  "from_dict oa t1 t2 data =
     (case data of
        PDict d \<Rightarrow>
          from_dict_loop oa d
            (UserProfile_init t1 t2 (case map_of d ''user_id'' of None \<Rightarrow> PNone | Some u \<Rightarrow> u))
      | _ \<Rightarrow> Inl AttributeError)"

section \<open>models/managers/conversation.py\<close>

text \<open>
  The manager's four attributes. User ids are integers. \<^verbatim>\<open>conversations\<close> is a
  \<^verbatim>\<open>defaultdict(list)\<close>: reading a missing key yields a fresh empty list. Its values are
  typed as any JSON value because the storage manager assigns whatever
  \<^verbatim>\<open>json.loads\<close> returned.
\<close>

record conversation_manager =
  conversations :: "(int \<times> pyval) list"
  conversation_summaries :: "(int \<times> pyval) list"
  MAX_HISTORY :: int
  user_profiles :: "(int \<times> pydict) list"

definition ConversationManager_init :: conversation_manager where
  "ConversationManager_init =
     \<lparr>conversations = [], conversation_summaries = [], MAX_HISTORY = 10, user_profiles = []\<rparr>"

text \<open>
  The slice \<^verbatim>\<open>xs[i:]\<close>: a negative start counts from the end and is clamped at the
  front, so \<^verbatim>\<open>xs[-n:]\<close> is the last \<open>n\<close> items for \<open>n > 0\<close> and the whole list for
  \<open>n = 0\<close>.
\<close>

definition slice_from :: "int \<Rightarrow> 'a list \<Rightarrow> 'a list" where
  "slice_from i xs = (if i < 0 then drop (nat (int (length xs) + i)) xs else drop (nat i) xs)"

text \<open>The message record of lines 21 to 25; \<open>now\<close> is the clock reading.\<close>

definition message :: "pyval \<Rightarrow> string \<Rightarrow> bool \<Rightarrow> pyval" where
  "message content now is_from_bot =
     PDict [(''content'', content), (''timestamp'', PStr now), (''from_bot'', PBool is_from_bot)]"

text \<open>
  \<^verbatim>\<open>add_message\<close>: \<^verbatim>\<open>.append\<close> exists on a list only, so a history that is not a list
  raises \<^verbatim>\<open>AttributeError\<close> and nothing is stored.
\<close>

definition add_message ::
  "conversation_manager \<Rightarrow> int \<Rightarrow> pyval \<Rightarrow> string \<Rightarrow> bool \<Rightarrow> error + conversation_manager" where
  "add_message self user_id content now is_from_bot =
     (case (case map_of (conversations self) user_id of None \<Rightarrow> PList [] | Some h \<Rightarrow> h) of
        PList xs \<Rightarrow>
          (let ys = xs @ [message content now is_from_bot] in
           Inr (self\<lparr>conversations :=
                  AList.update user_id
                    (PList (if int (length ys) > MAX_HISTORY self
                            then slice_from (- MAX_HISTORY self) ys else ys))
                    (conversations self)\<rparr>))
      | _ \<Rightarrow> Inl AttributeError)"

text \<open>
  A caller that adds the messages \<open>(content, now, is_from_bot)\<close> of a list one after the
  other to one user's history.
\<close>

fun add_messages ::
  "conversation_manager \<Rightarrow> int \<Rightarrow> (pyval \<times> string \<times> bool) list \<Rightarrow> error + conversation_manager" where
  "add_messages self user_id [] = Inr self"
| "add_messages self user_id ((content, now, is_from_bot) # ms) =
     (case add_message self user_id content now is_from_bot of
        Inl e \<Rightarrow> Inl e
      | Inr self' \<Rightarrow> add_messages self' user_id ms)"

section \<open>models/managers/storage.py: the file system and the codec\<close>

text \<open>
  A file path is a directory and a file name; the manager only ever builds paths of the
  form \<^verbatim>\<open>directory / name\<close>. The text of a file is represented by what the code can
  observe of it: \<^verbatim>\<open>read_text\<close> raises (\<open>Unreadable\<close>), \<^verbatim>\<open>strip()\<close> leaves nothing
  (\<open>Blank\<close>), \<^verbatim>\<open>json.loads\<close> raises (\<open>Malformed\<close>), or \<^verbatim>\<open>json.loads\<close> returns a value
  (\<open>Json v\<close>, which is also the text \<^verbatim>\<open>json.dumps(v, indent=2)\<close> writes). The file list is
  in the order a directory scan yields it.
\<close>

type_synonym dirpath = string
type_synonym fpath = "dirpath \<times> string"

datatype ftext = Unreadable | Blank | Malformed | Json pyval

record filesystem =
  dirs :: "dirpath list"
  files :: "(fpath \<times> ftext) list"

text \<open>
  What lies outside the program decides whether an operation of the file system succeeds:
  creating a missing directory, writing a file (the write succeeds, fails before the file
  is opened, or fails part-way and leaves some text behind), renaming onto a path, removing
  a file. The clock and the attribute names every instance inherits from the interpreter
  are given from outside too.
\<close>

datatype write_outcome = Written | Refused | Torn ftext

record env =
  mkdir_ok :: "dirpath \<Rightarrow> bool"
  on_write :: "fpath \<Rightarrow> write_outcome"
  replace_ok :: "fpath \<Rightarrow> bool"
  unlink_ok :: "fpath \<Rightarrow> bool"
  clock :: string
  object_attrs :: "string list"

definition dir_exists :: "filesystem \<Rightarrow> dirpath \<Rightarrow> bool" where
  "dir_exists fs d = (d \<in> set (dirs fs))"

definition file_exists :: "filesystem \<Rightarrow> fpath \<Rightarrow> bool" where
  "file_exists fs p = (p \<in> set (map fst (files fs)))"

text \<open>
  \<^verbatim>\<open>d.mkdir(parents=True, exist_ok=True)\<close>, the way \<^verbatim>\<open>pathlib\<close> runs it. The proper
  ancestors of a path are its prefixes up to a separator, nearest first: those of
  \<^verbatim>\<open>data/users/profiles\<close> are \<^verbatim>\<open>data/users\<close> and \<^verbatim>\<open>data\<close>; the current directory and the root
  always exist and are not listed. \<^verbatim>\<open>os.mkdir\<close> makes one directory, and the environment
  decides for each directory whether it succeeds. A directory that is there already is
  left alone (\<^verbatim>\<open>exist_ok\<close>); otherwise the parent is made in the same way first
  (\<^verbatim>\<open>parents\<close>), which returns at once when the parent exists, and then the directory
  itself. A failure on the way keeps the ancestors made so far. \<open>None\<close> is a normal
  return.
\<close>

definition ancestors :: "dirpath \<Rightarrow> dirpath list" where
  "ancestors d = [take i d. i \<leftarrow> rev [1..<length d], d ! i = CHR ''/'']"

definition os_mkdir :: "env \<Rightarrow> filesystem \<Rightarrow> dirpath \<Rightarrow> error option \<times> filesystem" where
  "os_mkdir e fs d =
     (if mkdir_ok e d then (None, fs\<lparr>dirs := d # dirs fs\<rparr>) else (Some OSError, fs))"

fun mkdir_chain :: "env \<Rightarrow> filesystem \<Rightarrow> dirpath list \<Rightarrow> error option \<times> filesystem" where
  "mkdir_chain e fs [] = (None, fs)"
| "mkdir_chain e fs (d # ps) =
     (if dir_exists fs d then (None, fs)
      else (case mkdir_chain e fs ps of
              (Some err, fs1) \<Rightarrow> (Some err, fs1)
            | (None, fs1) \<Rightarrow> os_mkdir e fs1 d))"

definition mkdir :: "env \<Rightarrow> filesystem \<Rightarrow> dirpath \<Rightarrow> error option \<times> filesystem" where
  "mkdir e fs d = mkdir_chain e fs (d # ancestors d)"

definition write_text :: "env \<Rightarrow> filesystem \<Rightarrow> fpath \<Rightarrow> ftext \<Rightarrow> error option \<times> filesystem" where
  "write_text e fs p t =
     (if \<not> dir_exists fs (fst p) then (Some OSError, fs)
      else (case on_write e p of
              Written \<Rightarrow> (None, fs\<lparr>files := AList.update p t (files fs)\<rparr>)
            | Refused \<Rightarrow> (Some OSError, fs)
            | Torn t' \<Rightarrow> (Some OSError, fs\<lparr>files := AList.update p t' (files fs)\<rparr>)))"

definition read_text :: "filesystem \<Rightarrow> fpath \<Rightarrow> error + ftext" where
  "read_text fs p =
     (case map_of (files fs) p of
        None \<Rightarrow> Inl OSError
      | Some Unreadable \<Rightarrow> Inl OSError
      | Some t \<Rightarrow> Inr t)"

text \<open>\<^verbatim>\<open>src.replace(dst)\<close>: an atomic rename; renaming a path onto itself changes nothing.\<close>

definition replace :: "env \<Rightarrow> filesystem \<Rightarrow> fpath \<Rightarrow> fpath \<Rightarrow> error option \<times> filesystem" where
  "replace e fs src dst =
     (case map_of (files fs) src of
        None \<Rightarrow> (Some OSError, fs)
      | Some t \<Rightarrow>
          if \<not> replace_ok e dst then (Some OSError, fs)
          else if src = dst then (None, fs)
          else (None, fs\<lparr>files := AList.update dst t (AList.delete src (files fs))\<rparr>))"

definition unlink :: "env \<Rightarrow> filesystem \<Rightarrow> fpath \<Rightarrow> error option \<times> filesystem" where
  "unlink e fs p =
     (if file_exists fs p \<and> unlink_ok e p
      then (None, fs\<lparr>files := AList.delete p (files fs)\<rparr>)
      else (Some OSError, fs))"

text \<open>\<^verbatim>\<open>json.dumps\<close> raises \<^verbatim>\<open>TypeError\<close> on a value that holds an object it cannot encode.\<close>

fun serializable :: "pyval \<Rightarrow> bool" where
  "serializable PObject = False"
| "serializable (PList xs) = list_all serializable xs"
| "serializable (PDict d) = list_all (\<lambda>kv. serializable (snd kv)) d"
| "serializable _ = True"

definition json_dumps :: "pyval \<Rightarrow> error + ftext" where
  "json_dumps data = (if serializable data then Inr (Json data) else Inl TypeError)"

definition json_loads :: "ftext \<Rightarrow> error + pyval" where
  "json_loads t = (case t of Json v \<Rightarrow> Inr v | _ \<Rightarrow> Inl ValueError)"

text \<open>
  \<^verbatim>\<open>PurePath.suffix\<close>, \<^verbatim>\<open>stem\<close> and \<^verbatim>\<open>with_suffix\<close> on the file name: the suffix starts at
  the last dot unless that dot is the first or the last character.
\<close>

definition rfind :: "char \<Rightarrow> string \<Rightarrow> int" where
  "rfind c s =
     (if c \<in> set s then int (length s) - 1 - int (length (takeWhile (\<lambda>x. x \<noteq> c) (rev s)))
      else - 1)"

definition path_suffix :: "string \<Rightarrow> string" where
  "path_suffix name =
     (let i = rfind (CHR ''.'') name
      in if 0 < i \<and> i < int (length name) - 1 then drop (nat i) name else [])"

definition stem :: "string \<Rightarrow> string" where
  "stem name = take (length name - length (path_suffix name)) name"

definition with_suffix :: "string \<Rightarrow> string \<Rightarrow> error + string" where
  "with_suffix name sfx = (if name = [] then Inl ValueError else Inr (stem name @ sfx))"

text \<open>
  \<^verbatim>\<open>save_file(path, data)\<close> with the default \<^verbatim>\<open>temp_suffix\<close>. \<open>save_file_run\<close> returns the
  result together with the states the file system passes through, in order: the state at
  the call, the state after the write to the temporary path, the state after the rename.
  An exception anywhere is caught and the result is \<open>False\<close>.
\<close>

definition save_file_run :: "env \<Rightarrow> filesystem \<Rightarrow> fpath \<Rightarrow> pyval \<Rightarrow> bool \<times> filesystem list" where
  "save_file_run e fs path data =
     (case with_suffix (snd path) ''.tmp'' of
        Inl err \<Rightarrow> (False, [fs])
      | Inr temp_name \<Rightarrow>
          (let temp_path = (fst path, temp_name) in
           case json_dumps data of
             Inl err \<Rightarrow> (False, [fs])
           | Inr t \<Rightarrow>
               (case write_text e fs temp_path t of
                  (Some err, fs1) \<Rightarrow> (False, [fs, fs1])
                | (None, fs1) \<Rightarrow>
                    if file_exists fs1 temp_path then
                      (case replace e fs1 temp_path path of
                         (Some err, fs2) \<Rightarrow> (False, [fs, fs1, fs2])
                       | (None, fs2) \<Rightarrow> (True, [fs, fs1, fs2]))
                    else (False, [fs, fs1]))))"

definition save_file :: "env \<Rightarrow> filesystem \<Rightarrow> fpath \<Rightarrow> pyval \<Rightarrow> bool \<times> filesystem" where
  "save_file e fs path data =
     (let r = save_file_run e fs path data in (fst r, last (snd r)))"

section \<open>models/managers/storage.py: the containers and the save path\<close>

text \<open>The paths the constructor receives.\<close>

record storage_manager =
  data_dir :: dirpath
  users_dir :: dirpath
  profiles_dir :: dirpath
  dm_settings_file :: fpath
  user_profiles_dir :: dirpath
  conversations_dir :: dirpath

text \<open>
  The emotion manager is a collaborator outside the three modules; the storage manager
  uses these seven attributes of it. A container is a dict from user id to a value, in
  insertion order. \<^verbatim>\<open>interaction_stats\<close> holds \<^verbatim>\<open>Counter\<close> objects, which are dicts;
  \<^verbatim>\<open>dm_enabled_users\<close> is a set, held as the list of its elements.
\<close>

record emotion_manager =
  user_emotions :: "(int \<times> pyval) list"
  user_memories :: "(int \<times> pyval) list"
  user_events :: "(int \<times> pyval) list"
  user_milestones :: "(int \<times> pyval) list"
  interaction_stats :: "(int \<times> pydict) list"
  relationship_progress :: "(int \<times> pyval) list"
  dm_enabled_users :: "pyval list"

text \<open>\<^verbatim>\<open>str(n)\<close> of an integer, as the f-strings format a user id.\<close>

fun digits :: "nat \<Rightarrow> string" where
  "digits n =
     (if n < 10 then [char_of (48 + n)] else digits (n div 10) @ [char_of (48 + n mod 10)])"

definition str_int :: "int \<Rightarrow> string" where
  "str_int i = (if i < 0 then CHR ''-'' # digits (nat (- i)) else digits (nat i))"

text \<open>Truth value and \<^verbatim>\<open>len\<close> of a value; \<^verbatim>\<open>len\<close> of a number or of \<^verbatim>\<open>None\<close> raises.\<close>

fun truthy :: "pyval \<Rightarrow> bool" where
  "truthy PNone = False"
| "truthy (PBool b) = b"
| "truthy (PInt i) = (i \<noteq> 0)"
| "truthy (PStr s) = (s \<noteq> [])"
| "truthy (PList xs) = (xs \<noteq> [])"
| "truthy (PDict d) = (d \<noteq> [])"
| "truthy PObject = True"

fun py_len :: "pyval \<Rightarrow> error + nat" where
  "py_len (PStr s) = Inr (length s)"
| "py_len (PList xs) = Inr (length xs)"
| "py_len (PDict d) = Inr (length d)"
| "py_len _ = Inl TypeError"

text \<open>
  The block that \<^verbatim>\<open>save_user_profile\<close> repeats for memories, events and milestones (lines
  153--157, 160--164, 167--171): the file is written only if the user has an entry and the
  entry is true; after a successful write the message printed takes \<^verbatim>\<open>len\<close> of the
  entry, which can raise. \<open>Some err\<close> is an exception leaving the block.
\<close>

definition save_if_present ::
  "env \<Rightarrow> filesystem \<Rightarrow> fpath \<Rightarrow> (int \<times> pyval) list \<Rightarrow> int \<Rightarrow> error option \<times> filesystem" where
  "save_if_present e fs path container user_id =
     (case map_of container user_id of
        None \<Rightarrow> (None, fs)
      | Some v \<Rightarrow>
          if truthy v then
            (case save_file e fs path v of
               (True, fs1) \<Rightarrow>
                 (case py_len v of Inl err \<Rightarrow> (Some err, fs1) | Inr n \<Rightarrow> (None, fs1))
             | (False, fs1) \<Rightarrow> (None, fs1))
          else (None, fs))"

text \<open>
  The composite document of lines 144--145: the emotion mapping \<open>d\<close> with the user's entry
  of the relationship container stored under \<^verbatim>\<open>relationship\<close> and a \<^verbatim>\<open>dict\<close> copy of the
  user's counter under \<^verbatim>\<open>interaction_stats\<close>, each defaulting to an empty dict.
\<close>

definition composite_document :: "emotion_manager \<Rightarrow> int \<Rightarrow> pydict \<Rightarrow> pydict" where
  "composite_document em user_id d =
     AList.update ''interaction_stats''
       (PDict (case map_of (interaction_stats em) user_id of None \<Rightarrow> [] | Some c \<Rightarrow> c))
       (AList.update ''relationship''
          (case map_of (relationship_progress em) user_id of None \<Rightarrow> PDict [] | Some r \<Rightarrow> r)
          d)"

text \<open>
  \<^verbatim>\<open>save_user_profile\<close>. \<^verbatim>\<open>data\<close> is the very dict stored in \<^verbatim>\<open>user_emotions\<close> when the
  user has an entry, so the two item assignments show in the container; without an entry
  it is a fresh dict. Item assignment on a value that is not a dict raises
  \<^verbatim>\<open>TypeError\<close>. Every exception ends in the handler, which returns \<open>False\<close>.
\<close>

definition save_user_profile ::
  "env \<Rightarrow> storage_manager \<Rightarrow> filesystem \<Rightarrow> int \<Rightarrow> emotion_manager
     \<Rightarrow> bool \<times> filesystem \<times> emotion_manager" where
  "save_user_profile e sm fs user_id em =
     (case mkdir e fs (profiles_dir sm) of
        (Some err, fs0) \<Rightarrow> (False, fs0, em)
      | (None, fs0) \<Rightarrow>
          (case (case map_of (user_emotions em) user_id of None \<Rightarrow> PDict [] | Some v \<Rightarrow> v) of
             PDict d \<Rightarrow>
               (let data = composite_document em user_id d;
                    em1 = (if user_id \<in> set (map fst (user_emotions em))
                           then em\<lparr>user_emotions :=
                                     AList.update user_id (PDict data) (user_emotions em)\<rparr>
                           else em);
                    fs1 = snd (save_file e fs0 (profiles_dir sm, str_int user_id @ ''.json'') (PDict data))
                in case save_if_present e fs1
                          (profiles_dir sm, str_int user_id @ ''_memories.json'')
                          (user_memories em1) user_id of
                     (Some err, fs2) \<Rightarrow> (False, fs2, em1)
                   | (None, fs2) \<Rightarrow>
                       (case save_if_present e fs2
                               (profiles_dir sm, str_int user_id @ ''_events.json'')
                               (user_events em1) user_id of
                          (Some err, fs3) \<Rightarrow> (False, fs3, em1)
                        | (None, fs3) \<Rightarrow>
                            (case save_if_present e fs3
                                    (profiles_dir sm, str_int user_id @ ''_milestones.json'')
                                    (user_milestones em1) user_id of
                               (Some err, fs4) \<Rightarrow> (False, fs4, em1)
                             | (None, fs4) \<Rightarrow> (True, fs4, em1))))
           | _ \<Rightarrow> (False, fs0, em)))"

text \<open>
  \<^verbatim>\<open>save_conversation\<close> drops the results of both writes; no operation in its body can
  raise on these types, so it returns \<open>True\<close>.
\<close>

definition save_conversation ::
  "env \<Rightarrow> storage_manager \<Rightarrow> filesystem \<Rightarrow> int \<Rightarrow> conversation_manager \<Rightarrow> bool \<times> filesystem" where
  "save_conversation e sm fs user_id cm =
     (let fs1 = (case map_of (conversations cm) user_id of
                   None \<Rightarrow> fs
                 | Some h \<Rightarrow>
                     snd (save_file e fs
                            (conversations_dir sm, str_int user_id @ ''_conversations.json'') h));
          fs2 = (case map_of (conversation_summaries cm) user_id of
                   None \<Rightarrow> fs1
                 | Some s \<Rightarrow>
                     snd (save_file e fs1
                            (conversations_dir sm, str_int user_id @ ''_summary.json'')
                            (PDict [(''summary'', s), (''updated_at'', PStr (clock e))])))
      in (True, fs2))"

text \<open>\<^verbatim>\<open>save_user_profile_data\<close>: only the call \<^verbatim>\<open>profile.to_dict()\<close> can raise.\<close>

definition save_user_profile_data ::
  "env \<Rightarrow> storage_manager \<Rightarrow> filesystem \<Rightarrow> int \<Rightarrow> pydict \<Rightarrow> bool \<times> filesystem" where
  "save_user_profile_data e sm fs user_id profile =
     (case call_to_dict profile of
        Inl err \<Rightarrow> (False, fs)
      | Inr d \<Rightarrow>
          (True, snd (save_file e fs
                        (user_profiles_dir sm, str_int user_id @ ''_profile.json'') (PDict d))))"

definition save_dm_settings ::
  "env \<Rightarrow> storage_manager \<Rightarrow> filesystem \<Rightarrow> pyval list \<Rightarrow> bool \<times> filesystem" where
  "save_dm_settings e sm fs users =
     save_file e fs (dm_settings_file sm) (PDict [(''enabled_users'', PList users)])"

text \<open>
  \<^verbatim>\<open>save_data\<close>: the loop over the keys of \<^verbatim>\<open>user_emotions\<close> (lines 275--288), then the DM
  settings. The conversation manager is optional.
\<close>

fun save_data_loop ::
  "env \<Rightarrow> storage_manager \<Rightarrow> conversation_manager option \<Rightarrow> int list
     \<Rightarrow> bool \<times> filesystem \<times> emotion_manager \<Rightarrow> bool \<times> filesystem \<times> emotion_manager" where
  "save_data_loop e sm cmo [] st = st"
| "save_data_loop e sm cmo (user_id # rest) (success, fs, em) =
     (case save_user_profile e sm fs user_id em of
        (profile_success, fs1, em1) \<Rightarrow>
          (case cmo of
             None \<Rightarrow> save_data_loop e sm cmo rest (success \<and> profile_success, fs1, em1)
           | Some cm \<Rightarrow>
               if user_id \<in> set (map fst (conversations cm)) then
                 (case save_conversation e sm fs1 user_id cm of
                    (conv_success, fs2) \<Rightarrow>
                      (case map_of (user_profiles cm) user_id of
                         None \<Rightarrow>
                           save_data_loop e sm cmo rest
                             ((success \<and> profile_success) \<and> conv_success, fs2, em1)
                       | Some profile \<Rightarrow>
                           (case save_user_profile_data e sm fs2 user_id profile of
                              (profile_success2, fs3) \<Rightarrow>
                                save_data_loop e sm cmo rest
                                  (((success \<and> profile_success) \<and> conv_success)
                                     \<and> profile_success2, fs3, em1))))
               else save_data_loop e sm cmo rest (success \<and> profile_success, fs1, em1)))"

definition save_data ::
  "env \<Rightarrow> storage_manager \<Rightarrow> filesystem \<Rightarrow> emotion_manager \<Rightarrow> conversation_manager option
     \<Rightarrow> bool \<times> filesystem \<times> emotion_manager" where
  "save_data e sm fs em cmo =
     (case save_data_loop e sm cmo (map fst (user_emotions em)) (True, fs, em) of
        (success, fs1, em1) \<Rightarrow>
          (case save_dm_settings e sm fs1 (dm_enabled_users em1) of
             (dm_success, fs2) \<Rightarrow> (success \<and> dm_success, fs2, em1)))"

section \<open>Vocabulary for the effects of a save\<close>

text \<open>
  The temporary sibling \<^verbatim>\<open>save_file\<close> writes to; the four files of the emotional-profiles
  directory that belong to one user; a set of paths together with their temporary
  siblings; two file-system states that agree on every path outside a set; and a
  directory that exists or can be created, that is, one for which \<^verbatim>\<open>mkdir\<close> does not raise.
\<close>

definition temp_of :: "fpath \<Rightarrow> fpath" where
  "temp_of p = (fst p, stem (snd p) @ ''.tmp'')"

definition profile_paths :: "storage_manager \<Rightarrow> int \<Rightarrow> fpath list" where
  "profile_paths sm u =
     [(profiles_dir sm, str_int u @ ''.json''),
      (profiles_dir sm, str_int u @ ''_memories.json''),
      (profiles_dir sm, str_int u @ ''_events.json''),
      (profiles_dir sm, str_int u @ ''_milestones.json'')]"

definition with_temps :: "fpath list \<Rightarrow> fpath set" where
  "with_temps ps = set ps \<union> temp_of ` set ps"

definition unchanged_but :: "fpath set \<Rightarrow> filesystem \<Rightarrow> filesystem \<Rightarrow> bool" where
  "unchanged_but W fs fs' = (\<forall>q. q \<notin> W \<longrightarrow> map_of (files fs') q = map_of (files fs) q)"

definition can_make :: "env \<Rightarrow> filesystem \<Rightarrow> dirpath \<Rightarrow> bool" where
  "can_make e fs d = (fst (mkdir e fs d) = None)"

text \<open>
  The three files of the other two directories that belong to one user, and the relation
  between the emotion manager at the start of a save and the emotion manager later in it:
  only \<^verbatim>\<open>user_emotions\<close> may differ, it has the same keys, and an entry is either as it
  was or the composite document of what it was.
\<close>

definition conversation_paths :: "storage_manager \<Rightarrow> int \<Rightarrow> fpath list" where
  "conversation_paths sm u =
     [(conversations_dir sm, str_int u @ ''_conversations.json''),
      (conversations_dir sm, str_int u @ ''_summary.json''),
      (user_profiles_dir sm, str_int u @ ''_profile.json'')]"

definition composed_from :: "emotion_manager \<Rightarrow> emotion_manager \<Rightarrow> bool" where
  "composed_from em em' =
     (em'\<lparr>user_emotions := user_emotions em\<rparr> = em \<and>
      map fst (user_emotions em') = map fst (user_emotions em) \<and>
      (\<forall>u v. map_of (user_emotions em) u = Some v \<longrightarrow>
         map_of (user_emotions em') u = Some v \<or>
         (\<exists>d. v = PDict d \<and>
              map_of (user_emotions em') u = Some (PDict (composite_document em u d)))))"

definition composed_users :: "emotion_manager \<Rightarrow> emotion_manager \<Rightarrow> int set" where
  "composed_users em em' =
     {u. \<forall>d. map_of (user_emotions em) u = Some (PDict d) \<longrightarrow>
              map_of (user_emotions em') u = Some (PDict (composite_document em u d))}"

text \<open>
  The call \<^verbatim>\<open>profile.to_dict()\<close> of \<^verbatim>\<open>save_user_profile_data\<close> does not raise for user
  \<open>u\<close>: either that call is not reached for \<open>u\<close>, or the profile has no instance
  attribute of that name.
\<close>

definition profile_callable :: "conversation_manager option \<Rightarrow> int \<Rightarrow> bool" where
  "profile_callable cmo u =
     (\<forall>cm profile. cmo = Some cm \<and> u \<in> fst ` set (conversations cm) \<and>
        map_of (user_profiles cm) u = Some profile \<longrightarrow> ''to_dict'' \<notin> fst ` set profile)"

text \<open>
  The three families of per-user files that \<^verbatim>\<open>save_user_profile\<close> writes beside the
  composite document, each with the container it is taken from (lines 152--171);
  \<open>skipped\<close> is the negation of the guard \<^verbatim>\<open>user_id in container and container[user_id]\<close>;
  an entry that is a list or absent never makes \<^verbatim>\<open>len\<close> raise.
\<close>

definition families :: "(string \<times> (emotion_manager \<Rightarrow> (int \<times> pyval) list)) list" where
  "families =
     [(''_memories.json'', user_memories), (''_events.json'', user_events),
      (''_milestones.json'', user_milestones)]"

definition skipped :: "(int \<times> pyval) list \<Rightarrow> int \<Rightarrow> bool" where
  "skipped c u = (case map_of c u of None \<Rightarrow> True | Some v \<Rightarrow> \<not> truthy v)"

definition list_or_absent :: "(int \<times> pyval) list \<Rightarrow> int \<Rightarrow> bool" where
  "list_or_absent c u =
     (case map_of c u of None \<Rightarrow> True | Some v \<Rightarrow> (case v of PList xs \<Rightarrow> True | _ \<Rightarrow> False))"

text \<open>
  What the write of one family file of user \<open>u\<close> needs in order to leave the value \<open>v\<close> on
  disk: the user has an emotion mapping, so that the loop of \<^verbatim>\<open>save_data\<close> visits the user
  and \<^verbatim>\<open>save_user_profile\<close> gets as far as the family files; the user's three entries are
  lists or absent; the entry of this family is \<open>v\<close>, true and serializable; and the
  environment lets the temporary file be written and renamed.
\<close>

definition family_ready ::
  "env \<Rightarrow> storage_manager \<Rightarrow> emotion_manager \<Rightarrow> int
     \<Rightarrow> string \<Rightarrow> (emotion_manager \<Rightarrow> (int \<times> pyval) list) \<Rightarrow> pyval \<Rightarrow> bool" where
  "family_ready e sm em u sfx c v =
     ((sfx, c) \<in> set families \<and>
      (\<exists>d. map_of (user_emotions em) u = Some (PDict d)) \<and>
      list_or_absent (user_memories em) u \<and> list_or_absent (user_events em) u \<and>
      list_or_absent (user_milestones em) u \<and>
      map_of (c em) u = Some v \<and> truthy v \<and> serializable v \<and>
      on_write e (temp_of (profiles_dir sm, str_int u @ sfx)) = Written \<and>
      replace_ok e (profiles_dir sm, str_int u @ sfx))"
section \<open>models/managers/storage.py: the load path\<close>

subsection \<open>Operations of the language the load path uses\<close>

text \<open>
  \<^verbatim>\<open>k in data\<close> is a key test on a dict, an element test on a list, a substring test on a
  string, and raises \<^verbatim>\<open>TypeError\<close> on anything else.
\<close>

definition substring :: "string \<Rightarrow> string \<Rightarrow> bool" where
  "substring k s = list_ex (\<lambda>i. take (length k) (drop i s) = k) [0..<Suc (length s)]"

fun py_contains :: "string \<Rightarrow> pyval \<Rightarrow> error + bool" where
  "py_contains k (PDict d) = Inr (k \<in> set (map fst d))"
| "py_contains k (PList xs) = Inr (PStr k \<in> set xs)"
| "py_contains k (PStr s) = Inr (substring k s)"
| "py_contains k _ = Inl TypeError"

text \<open>\<^verbatim>\<open>data.get(k, default)\<close> exists on a dict only.\<close>

fun py_get :: "pyval \<Rightarrow> string \<Rightarrow> pyval \<Rightarrow> error + pyval" where
  "py_get (PDict d) k dflt = Inr (case map_of d k of None \<Rightarrow> dflt | Some v \<Rightarrow> v)"
| "py_get _ k dflt = Inl AttributeError"

text \<open>
  \<^verbatim>\<open>data.pop(k)\<close> and \<^verbatim>\<open>data.pop(k, default)\<close>: the value and what is left of \<^verbatim>\<open>data\<close>. On a
  list \<^verbatim>\<open>pop\<close> takes an index and raises \<^verbatim>\<open>TypeError\<close> for a string or for two arguments;
  other values have no \<^verbatim>\<open>pop\<close>.
\<close>

fun py_pop :: "pyval \<Rightarrow> string \<Rightarrow> pyval option \<Rightarrow> error + (pyval \<times> pyval)" where
  "py_pop (PDict d) k dflt =
     (case map_of d k of
        Some v \<Rightarrow> Inr (v, PDict (AList.delete k d))
      | None \<Rightarrow> (case dflt of None \<Rightarrow> Inl KeyError | Some v \<Rightarrow> Inr (v, PDict d)))"
| "py_pop (PList xs) k dflt = Inl TypeError"
| "py_pop _ k dflt = Inl AttributeError"

text \<open>
  \<^verbatim>\<open>Counter(x)\<close>: a dict is taken over as it is, \<^verbatim>\<open>None\<close> gives the empty counter, a list
  or a string is counted element by element, anything else is not iterable. A list or a
  dict as an element cannot be hashed. The keys of a dict are strings here, so an element
  that is not a string is entered under the text \<^verbatim>\<open>json.dumps\<close> writes for it as a key.
\<close>

fun key_of :: "pyval \<Rightarrow> string option" where
  "key_of (PStr s) = Some s"
| "key_of PNone = Some ''null''"
| "key_of (PBool b) = Some (if b then ''true'' else ''false'')"
| "key_of (PInt i) = Some (str_int i)"
| "key_of PObject = Some ''object''"
| "key_of (PList xs) = None"
| "key_of (PDict d) = None"

fun count_elements :: "pyval list \<Rightarrow> pydict \<Rightarrow> error + pydict" where
  "count_elements [] c = Inr c"
| "count_elements (x # xs) c =
     (case key_of x of
        None \<Rightarrow> Inl TypeError
      | Some k \<Rightarrow>
          count_elements xs
            (AList.update k (PInt ((case map_of c k of Some (PInt n) \<Rightarrow> n | _ \<Rightarrow> 0) + 1)) c))"

fun py_Counter :: "pyval \<Rightarrow> error + pydict" where
  "py_Counter (PDict d) = Inr d"
| "py_Counter PNone = Inr []"
| "py_Counter (PList xs) = count_elements xs []"
| "py_Counter (PStr s) = count_elements (map (\<lambda>c. PStr [c]) s) []"
| "py_Counter _ = Inl TypeError"

text \<open>
  \<^verbatim>\<open>set(x)\<close>, as the list of its elements: the elements of a list (which must be hashable),
  the characters of a string, the keys of a dict.
\<close>

fun py_set :: "pyval \<Rightarrow> error + pyval list" where
  "py_set (PList xs) = (if list_all (\<lambda>x. key_of x \<noteq> None) xs then Inr (remdups xs) else Inl TypeError)"
| "py_set (PStr s) = Inr (remdups (map (\<lambda>c. PStr [c]) s))"
| "py_set (PDict d) = Inr (remdups (map (\<lambda>kv. PStr (fst kv)) d))"
| "py_set _ = Inl TypeError"

text \<open>
  \<^verbatim>\<open>int(s)\<close> in base ten on ASCII text: surrounding white space is dropped, one sign is
  allowed, and the digits may be grouped by single underscores.
\<close>

definition is_space :: "char \<Rightarrow> bool" where
  "is_space c = (of_char c \<in> {9, 10, 11, 12, 13, 32 :: nat})"

definition is_digit :: "char \<Rightarrow> bool" where
  "is_digit c = (48 \<le> (of_char c :: nat) \<and> (of_char c :: nat) \<le> 57)"

definition strip :: "string \<Rightarrow> string" where
  "strip s = rev (dropWhile is_space (rev (dropWhile is_space s)))"

fun split_on :: "char \<Rightarrow> string \<Rightarrow> string list" where
  "split_on c [] = [[]]"
| "split_on c (x # xs) =
     (if x = c then [] # split_on c xs
      else (case split_on c xs of g # gs \<Rightarrow> (x # g) # gs | [] \<Rightarrow> [[x]]))"

definition digits_value :: "string \<Rightarrow> nat" where
  "digits_value s = foldl (\<lambda>n c. 10 * n + (of_char c - 48)) 0 s"

definition py_int :: "string \<Rightarrow> error + int" where
  "py_int s =
     (let t = strip s;
          neg = (t \<noteq> [] \<and> hd t = CHR ''-'');
          body = (if t \<noteq> [] \<and> (hd t = CHR ''-'' \<or> hd t = CHR ''+'') then tl t else t);
          groups = split_on (CHR ''_'') body
      in if list_all (\<lambda>g. g \<noteq> [] \<and> list_all is_digit g) groups
         then Inr ((if neg then - 1 else 1) * int (digits_value (concat groups)))
         else Inl ValueError)"

text \<open>
  \<^verbatim>\<open>directory.glob("*" + sfx)\<close>: the files of the directory whose name ends with \<open>sfx\<close>, in
  scan order. \<^verbatim>\<open>file.stem.split("_")[0]\<close> is the stem up to its first underscore.
\<close>

definition endswith :: "string \<Rightarrow> string \<Rightarrow> bool" where
  "endswith s sfx = (length sfx \<le> length s \<and> drop (length s - length sfx) s = sfx)"

definition glob :: "filesystem \<Rightarrow> dirpath \<Rightarrow> string \<Rightarrow> fpath list" where
  "glob fs d sfx = filter (\<lambda>p. fst p = d \<and> endswith (snd p) sfx) (map fst (files fs))"

definition stem_head :: "string \<Rightarrow> string" where
  "stem_head name = takeWhile (\<lambda>c. c \<noteq> CHR ''_'') (stem name)"

subsection \<open>verify\_data\_directories\<close>

text \<open>
  Each of the five directories is created if it is missing, then a probe file is written
  to the data directory and removed. Any exception returns \<open>False\<close>. The probe text
  \<^verbatim>\<open>Test write access\<close> is not JSON.
\<close>

definition verify_data_directories ::
  "env \<Rightarrow> storage_manager \<Rightarrow> filesystem \<Rightarrow> bool \<times> filesystem" where
  "verify_data_directories e sm fs =
     (case mkdir e fs (data_dir sm) of
        (Some err, fs1) \<Rightarrow> (False, fs1)
      | (None, fs1) \<Rightarrow>
     (case mkdir e fs1 (users_dir sm) of
        (Some err, fs2) \<Rightarrow> (False, fs2)
      | (None, fs2) \<Rightarrow>
     (case mkdir e fs2 (profiles_dir sm) of
        (Some err, fs3) \<Rightarrow> (False, fs3)
      | (None, fs3) \<Rightarrow>
     (case mkdir e fs3 (user_profiles_dir sm) of
        (Some err, fs4) \<Rightarrow> (False, fs4)
      | (None, fs4) \<Rightarrow>
     (case mkdir e fs4 (conversations_dir sm) of
        (Some err, fs5) \<Rightarrow> (False, fs5)
      | (None, fs5) \<Rightarrow>
     (case write_text e fs5 (data_dir sm, ''write_test.tmp'') Malformed of
        (Some err, fs6) \<Rightarrow> (False, fs6)
      | (None, fs6) \<Rightarrow>
     (case unlink e fs6 (data_dir sm, ''write_test.tmp'') of
        (Some err, fs7) \<Rightarrow> (False, fs7)
      | (None, fs7) \<Rightarrow> (True, fs7))))))))"

subsection \<open>load\_user\_profile\<close>

text \<open>
  The loader of one user's composite document. It returns the emotion mapping and stores
  the two sub-documents in their containers; \<^verbatim>\<open>pop\<close> removes them from the mapping. An
  exception anywhere returns the empty dict, with the containers as they are by then.
\<close>

definition load_user_profile ::
  "storage_manager \<Rightarrow> filesystem \<Rightarrow> int \<Rightarrow> emotion_manager \<Rightarrow> pyval \<times> emotion_manager" where
  "load_user_profile sm fs user_id em =
     (let profile_path = (profiles_dir sm, str_int user_id @ ''.json'') in
      if file_exists fs profile_path then
        (case read_text fs profile_path of
           Inl err \<Rightarrow> (PDict [], em)
         | Inr Blank \<Rightarrow> (PDict [], em)
         | Inr file_content \<Rightarrow>
        (case json_loads file_content of
           Inl err \<Rightarrow> (PDict [], em)
         | Inr data \<Rightarrow>
        (case py_contains ''relationship'' data of
           Inl err \<Rightarrow> (PDict [], em)
         | Inr has_relationship \<Rightarrow>
        (case (if has_relationship
               then (case py_pop data ''relationship'' None of
                       Inl err \<Rightarrow> Inl err
                     | Inr (r, data1) \<Rightarrow>
                         Inr (data1, em\<lparr>relationship_progress :=
                                          AList.update user_id r (relationship_progress em)\<rparr>))
               else Inr (data, em)) of
           Inl err \<Rightarrow> (PDict [], em)
         | Inr (data1, em1) \<Rightarrow>
        (case py_contains ''interaction_stats'' data1 of
           Inl err \<Rightarrow> (PDict [], em1)
         | Inr has_stats \<Rightarrow>
             if has_stats then
               (case py_pop data1 ''interaction_stats'' (Some (PDict [])) of
                  Inl err \<Rightarrow> (PDict [], em1)
                | Inr (s, data2) \<Rightarrow>
                    (case py_Counter s of
                       Inl err \<Rightarrow> (PDict [], em1)
                     | Inr c \<Rightarrow>
                         (data2, em1\<lparr>interaction_stats :=
                                       AList.update user_id c (interaction_stats em1)\<rparr>)))
             else (data1, em1))))))
      else (PDict [], em))"

subsection \<open>load\_data\<close>

text \<open>
  One file of the scan of lines 317--340. The state is the emotion manager with the two
  counters \<^verbatim>\<open>profile_count\<close> and \<^verbatim>\<open>error_count\<close>. The whole decoded document is stored
  under the user id first; the sub-documents are then read with \<^verbatim>\<open>get\<close>, which leaves them
  in the document. An exception counts one error and keeps what was stored before it.
\<close>

definition load_profile_file ::
  "filesystem \<Rightarrow> emotion_manager \<times> nat \<times> nat \<Rightarrow> fpath \<Rightarrow> emotion_manager \<times> nat \<times> nat" where
  "load_profile_file fs st file =
     (case st of (em, profile_count, error_count) \<Rightarrow>
      if CHR ''_'' \<notin> set (stem (snd file)) then
        (case py_int (stem (snd file)) of
           Inl err \<Rightarrow> (em, profile_count, error_count + 1)
         | Inr uid \<Rightarrow>
        (case read_text fs file of
           Inl err \<Rightarrow> (em, profile_count, error_count + 1)
         | Inr Blank \<Rightarrow> (em, profile_count, error_count)
         | Inr file_content \<Rightarrow>
        (case json_loads file_content of
           Inl err \<Rightarrow> (em, profile_count, error_count + 1)
         | Inr data \<Rightarrow>
        (let em1 = em\<lparr>user_emotions := AList.update uid data (user_emotions em)\<rparr> in
         case py_contains ''relationship'' data of
           Inl err \<Rightarrow> (em1, profile_count, error_count + 1)
         | Inr has_relationship \<Rightarrow>
        (case (if has_relationship
               then (case py_get data ''relationship'' (PDict []) of
                       Inl err \<Rightarrow> Inl err
                     | Inr r \<Rightarrow>
                         Inr (em1\<lparr>relationship_progress :=
                                    AList.update uid r (relationship_progress em1)\<rparr>))
               else Inr em1) of
           Inl err \<Rightarrow> (em1, profile_count, error_count + 1)
         | Inr em2 \<Rightarrow>
        (case py_contains ''interaction_stats'' data of
           Inl err \<Rightarrow> (em2, profile_count, error_count + 1)
         | Inr has_stats \<Rightarrow>
             if has_stats then
               (case py_get data ''interaction_stats'' (PDict []) of
                  Inl err \<Rightarrow> (em2, profile_count, error_count + 1)
                | Inr s \<Rightarrow>
                    (case py_Counter s of
                       Inl err \<Rightarrow> (em2, profile_count, error_count + 1)
                     | Inr c \<Rightarrow>
                         (em2\<lparr>interaction_stats :=
                                AList.update uid c (interaction_stats em2)\<rparr>,
                          profile_count + 1, error_count)))
             else (em2, profile_count + 1, error_count)))))))
      else st)"

text \<open>
  One file of a scan for memories, events, milestones or conversation histories (lines
  346--378 and 397--405): the user id and the decoded value, or nothing when the file is
  blank or anything raised. The counters of these scans are only printed.
\<close>

definition decode_family_file :: "filesystem \<Rightarrow> fpath \<Rightarrow> (int \<times> pyval) option" where
  "decode_family_file fs file =
     (case py_int (stem_head (snd file)) of
        Inl err \<Rightarrow> None
      | Inr uid \<Rightarrow>
          (case read_text fs file of
             Inl err \<Rightarrow> None
           | Inr Blank \<Rightarrow> None
           | Inr file_content \<Rightarrow>
               (case json_loads file_content of
                  Inl err \<Rightarrow> None
                | Inr v \<Rightarrow> Some (uid, v))))"

definition load_family ::
  "filesystem \<Rightarrow> dirpath \<Rightarrow> string \<Rightarrow> (int \<times> pyval) list \<Rightarrow> (int \<times> pyval) list" where
  "load_family fs d sfx container =
     foldl (\<lambda>c file. case decode_family_file fs file of
                        None \<Rightarrow> c
                      | Some (uid, v) \<Rightarrow> AList.update uid v c)
       container (glob fs d sfx)"

text \<open>
  One file of the scan for user profiles (lines 382--392). \<^verbatim>\<open>user_profiles\<close> is a plain
  dict, so \<^verbatim>\<open>user_profiles[uid]\<close> raises \<^verbatim>\<open>KeyError\<close> for a user who has no profile in memory
  yet. The state is the conversation manager with the second \<^verbatim>\<open>profile_count\<close>.
\<close>

definition load_user_profile_file ::
  "env \<Rightarrow> filesystem \<Rightarrow> conversation_manager \<times> nat \<Rightarrow> fpath \<Rightarrow> conversation_manager \<times> nat" where
  "load_user_profile_file e fs st file =
     (case st of (cm, profile_count) \<Rightarrow>
      (case decode_family_file fs file of
         None \<Rightarrow> st
       | Some (uid, data) \<Rightarrow>
           (case map_of (user_profiles cm) uid of
              None \<Rightarrow> st
            | Some existing \<Rightarrow>
                (case from_dict (object_attrs e) (clock e) (clock e) data of
                   Inl err \<Rightarrow> st
                 | Inr profile \<Rightarrow>
                     (cm\<lparr>user_profiles := AList.update uid profile (user_profiles cm)\<rparr>,
                      profile_count + 1)))))"

text \<open>One file of the scan for conversation summaries (lines 409--418).\<close>

definition load_summary_file ::
  "filesystem \<Rightarrow> conversation_manager \<Rightarrow> fpath \<Rightarrow> conversation_manager" where
  "load_summary_file fs cm file =
     (case decode_family_file fs file of
        None \<Rightarrow> cm
      | Some (uid, data) \<Rightarrow>
          (case py_get data ''summary'' (PStr []) of
             Inl err \<Rightarrow> cm
           | Inr s \<Rightarrow>
               cm\<lparr>conversation_summaries := AList.update uid s (conversation_summaries cm)\<rparr>))"

text \<open>
  The backfill of lines 425--428, over the keys of \<^verbatim>\<open>user_emotions\<close>. It is outside every
  \<^verbatim>\<open>try\<close>, so an exception leaves \<^verbatim>\<open>load_data\<close>.
\<close>

fun backfill :: "env \<Rightarrow> int list \<Rightarrow> emotion_manager \<Rightarrow> error + emotion_manager" where
  "backfill e [] em = Inr em"
| "backfill e (uid # uids) em =
     (case map_of (user_emotions em) uid of
        None \<Rightarrow> Inl KeyError
      | Some v \<Rightarrow>
          (case py_contains ''first_interaction'' v of
             Inl err \<Rightarrow> Inl err
           | Inr True \<Rightarrow> backfill e uids em
           | Inr False \<Rightarrow>
               (case py_get v ''last_interaction'' (PStr (clock e)) of
                  Inl err \<Rightarrow> Inl err
                | Inr t \<Rightarrow>
                    (case v of
                       PDict d \<Rightarrow>
                         backfill e uids
                           (em\<lparr>user_emotions :=
                                 AList.update uid (PDict (AList.update ''first_interaction'' t d))
                                   (user_emotions em)\<rparr>)
                     | _ \<Rightarrow> Inl TypeError))))"

text \<open>\<^verbatim>\<open>load_dm_settings\<close>: every exception is caught and leaves the empty set.\<close>

definition load_dm_settings :: "storage_manager \<Rightarrow> filesystem \<Rightarrow> pyval list" where
  "load_dm_settings sm fs =
     (if file_exists fs (dm_settings_file sm) then
        (case read_text fs (dm_settings_file sm) of
           Inl err \<Rightarrow> []
         | Inr Blank \<Rightarrow> []
         | Inr file_content \<Rightarrow>
             (case json_loads file_content of
                Inl err \<Rightarrow> []
              | Inr data \<Rightarrow>
                  (case py_get data ''enabled_users'' (PList []) of
                     Inl err \<Rightarrow> []
                   | Inr u \<Rightarrow> (case py_set u of Inl err \<Rightarrow> [] | Inr users \<Rightarrow> users))))
      else [])"

text \<open>
  What a call of \<^verbatim>\<open>load_data\<close> leaves: the value it returns or the exception that leaves
  it, the two counters it prints on line 342, and the file system and the two managers
  afterwards.
\<close>

record load_outcome =
  returned :: "error + bool"
  profiles_loaded :: nat
  profile_errors :: nat
  fs_after :: filesystem
  em_after :: emotion_manager
  cm_after :: conversation_manager

text \<open>
  The names bound in the module when its body has run: those of the import statements of
  lines 4--8 and the class. \<^verbatim>\<open>defaultdict\<close> is not among them (line 7 imports \<^verbatim>\<open>Counter\<close>
  only) and is not a builtin.
\<close>

definition storage_module_names :: "string list" where
  "storage_module_names =
     [''json'', ''asyncio'', ''datetime'', ''timezone'', ''Counter'', ''Path'', ''StorageManager'']"

text \<open>
  \<^verbatim>\<open>load_data\<close> in a module namespace \<open>names\<close>. Line 300 empties \<^verbatim>\<open>user_emotions\<close>; line 301
  looks \<^verbatim>\<open>defaultdict\<close> up and raises \<^verbatim>\<open>NameError\<close> if it is not bound. The value returned on
  line 434 tests \<^verbatim>\<open>profile_count\<close>, which line 381 has set to zero again and the scan for
  user profiles has counted since.
\<close>

definition load_data_in ::
  "string list \<Rightarrow> env \<Rightarrow> storage_manager \<Rightarrow> filesystem \<Rightarrow> emotion_manager
     \<Rightarrow> conversation_manager \<Rightarrow> load_outcome" where
  "load_data_in names e sm fs em cm =
     (let em0 = em\<lparr>user_emotions := []\<rparr> in
      if ''defaultdict'' \<notin> set names then
        \<lparr>returned = Inl NameError, profiles_loaded = 0, profile_errors = 0,
         fs_after = fs, em_after = em0, cm_after = cm\<rparr>
      else
        (let em1 = em0\<lparr>user_memories := [], user_events := [], user_milestones := [],
                       interaction_stats := [], relationship_progress := []\<rparr> in
         case verify_data_directories e sm fs of
           (False, fs1) \<Rightarrow>
             \<lparr>returned = Inr False, profiles_loaded = 0, profile_errors = 0,
              fs_after = fs1, em_after = em1, cm_after = cm\<rparr>
         | (True, fs1) \<Rightarrow>
             (case foldl (load_profile_file fs1) (em1, 0, 0) (glob fs1 (profiles_dir sm) ''.json'') of
                (em2, profile_count, error_count) \<Rightarrow>
             (let em3 = em2\<lparr>user_memories :=
                              load_family fs1 (profiles_dir sm) ''_memories.json'' (user_memories em2)\<rparr>;
                  em4 = em3\<lparr>user_events :=
                              load_family fs1 (profiles_dir sm) ''_events.json'' (user_events em3)\<rparr>;
                  em5 = em4\<lparr>user_milestones :=
                              load_family fs1 (profiles_dir sm) ''_milestones.json'' (user_milestones em4)\<rparr>
              in
              case foldl (load_user_profile_file e fs1) (cm, 0)
                     (glob fs1 (user_profiles_dir sm) ''_profile.json'') of
                (cm1, profile_count2) \<Rightarrow>
             (let cm2 = cm1\<lparr>conversations :=
                              load_family fs1 (conversations_dir sm) ''_conversations.json''
                                (conversations cm1)\<rparr>;
                  cm3 = foldl (load_summary_file fs1) cm2
                          (glob fs1 (conversations_dir sm) ''_summary.json'')
              in
              case backfill e (map fst (user_emotions em5)) em5 of
                Inl err \<Rightarrow>
                  \<lparr>returned = Inl err, profiles_loaded = profile_count,
                   profile_errors = error_count,
                   fs_after = fs1, em_after = em5, cm_after = cm3\<rparr>
              | Inr em6 \<Rightarrow>
                  \<lparr>returned = Inr (profile_count2 > 0), profiles_loaded = profile_count,
                   profile_errors = error_count, fs_after = fs1,
                   em_after = em6\<lparr>dm_enabled_users := load_dm_settings sm fs1\<rparr>,
                   cm_after = cm3\<rparr>)))))"

text \<open>\<^verbatim>\<open>load_data\<close> as the module has it.\<close>

definition load_data ::
  "env \<Rightarrow> storage_manager \<Rightarrow> filesystem \<Rightarrow> emotion_manager \<Rightarrow> conversation_manager
     \<Rightarrow> load_outcome" where
  "load_data e sm fs em cm = load_data_in storage_module_names e sm fs em cm"

text \<open>The characters of a formatted user id: digits and the minus sign.\<close>

definition id_chars :: "char set" where
  "id_chars = {c. is_digit c \<or> c = CHR ''-''}"

section \<open>Scenarios\<close>

text \<open>
  Concrete inputs for the closed theorems: an environment in which every operation of the
  file system succeeds, a storage manager with the usual directory layout, an emotion
  manager with empty containers, and directory states.
\<close>

definition reliable :: env where
  "reliable =
     \<lparr>mkdir_ok = (\<lambda>d. True), on_write = (\<lambda>p. Written), replace_ok = (\<lambda>p. True),
      unlink_ok = (\<lambda>p. True), clock = ''now'', object_attrs = []\<rparr>"

definition sm0 :: storage_manager where
  "sm0 =
     \<lparr>data_dir = ''data'', users_dir = ''data/users'', profiles_dir = ''data/users/profiles'',
      dm_settings_file = (''data'', ''dm_settings.json''),
      user_profiles_dir = ''data/users/user_profiles'',
      conversations_dir = ''data/users/conversations''\<rparr>"

definition em_empty :: emotion_manager where
  "em_empty =
     \<lparr>user_emotions = [], user_memories = [], user_events = [], user_milestones = [],
      interaction_stats = [], relationship_progress = [], dm_enabled_users = []\<rparr>"

definition all_dirs :: "dirpath list" where
  "all_dirs =
     [''data'', ''data/users'', ''data/users/profiles'', ''data/users/user_profiles'',
      ''data/users/conversations'']"

text \<open>The composite document of the spec's concrete scenario, as \<^verbatim>\<open>42.json\<close>.\<close>

definition doc42 :: pydict where
  "doc42 =
     [(''mood'', PStr ''happy''),
      (''relationship'', PDict [(''trust'', PInt 5)]),
      (''interaction_stats'', PDict [(''greet'', PInt 3)])]"

definition fs42 :: filesystem where
  "fs42 = \<lparr>dirs = all_dirs, files = [((''data/users/profiles'', ''42.json''), Json (PDict doc42))]\<rparr>"

text \<open>Three composite profile files, the second one not JSON.\<close>

definition fs_three :: filesystem where
  "fs_three =
     \<lparr>dirs = all_dirs,
      files = [((''data/users/profiles'', ''1.json''), Json (PDict [(''mood'', PStr ''calm'')])),
               ((''data/users/profiles'', ''2.json''), Malformed),
               ((''data/users/profiles'', ''3.json''), Json (PDict [(''mood'', PStr ''wary'')]))]\<rparr>"

text \<open>
  The directories without any file, and an emotion manager that holds user 42 with the
  emotion mapping, the relationship and the counts of the scenario in their three
  containers.
\<close>

definition fs_empty :: filesystem where
  "fs_empty = \<lparr>dirs = all_dirs, files = []\<rparr>"

definition em42 :: emotion_manager where
  "em42 =
     \<lparr>user_emotions = [(42, PDict [(''mood'', PStr ''happy'')])],
      user_memories = [], user_events = [], user_milestones = [],
      interaction_stats = [(42, [(''greet'', PInt 3)])],
      relationship_progress = [(42, PDict [(''trust'', PInt 5)])],
      dm_enabled_users = []\<rparr>"

text \<open>
  An environment in which every write outside the data directory itself is refused, and
  the same emotion manager with one memory for user 42.
\<close>

definition only_data_dir_writable :: env where
  "only_data_dir_writable =
     \<lparr>mkdir_ok = (\<lambda>d. True),
      on_write = (\<lambda>p. if fst p = ''data'' then Written else Refused),
      replace_ok = (\<lambda>p. True), unlink_ok = (\<lambda>p. True), clock = ''now'', object_attrs = []\<rparr>"

definition em42_memory :: emotion_manager where
  "em42_memory = em42\<lparr>user_memories := [(42, PList [PStr ''first meeting''])]\<rparr>"

text \<open>An emotion manager in which user 7 has one memory and no emotional state.\<close>

definition em_memory_only :: emotion_manager where
  "em_memory_only = em_empty\<lparr>user_memories := [(7, PList [PStr ''first meeting''])]\<rparr>"

text \<open>
  A tree without any directory, and an environment in which no directory can be made.
\<close>

definition fs_bare :: filesystem where
  "fs_bare = \<lparr>dirs = [], files = []\<rparr>"

definition no_new_directories :: env where
  "no_new_directories = reliable\<lparr>mkdir_ok := (\<lambda>d. False)\<rparr>"
chapter \<open>Properties\<close>

section \<open>The profile entity\<close>

lemma field_names_not_descriptor:
  "k \<in> set field_names \<Longrightarrow> k \<noteq> ''__class__'' \<and> k \<noteq> ''__weakref__'' \<and> k \<noteq> ''__dict__''"
  by (auto simp: field_names_def)

lemma to_dict_id: "to_dict P = P"
  by (simp add: to_dict_def)

lemma init_keys: "map fst (UserProfile_init t1 t2 u) = field_names"
  by (simp add: UserProfile_init_def field_names_def)

lemma map_add_same_dom: "dom m1 = dom m2 \<Longrightarrow> m1 ++ m2 = m2"
proof (rule ext)
  fix x assume d: "dom m1 = dom m2"
  show "(m1 ++ m2) x = m2 x"
  proof (cases "m2 x")
    case None
    then have "x \<notin> dom m1" using d by (simp add: domIff)
    then have "m1 x = None" by (simp add: domIff)
    with None show ?thesis by (simp add: map_add_def)
  next
    case (Some y)
    then show ?thesis by (simp add: map_add_def)
  qed
qed

text \<open>
  The loop of \<^verbatim>\<open>from_dict\<close> over a document whose keys are all attributes of the
  profile already, none of them a data descriptor: every item is stored, no key is added.
\<close>

lemma from_dict_loop_overwrite:
  "distinct (map fst d) \<Longrightarrow> fst ` set d \<subseteq> fst ` set P \<Longrightarrow>
   \<forall>k \<in> fst ` set d. k \<noteq> ''__class__'' \<and> k \<noteq> ''__weakref__'' \<and> k \<noteq> ''__dict__'' \<Longrightarrow>
   \<exists>P'. from_dict_loop oa d P = Inr P' \<and> map fst P' = map fst P \<and> map_of P' = map_of P ++ map_of d"
proof (induction d arbitrary: P)
  case Nil
  then show ?case by simp
next
  case (Cons kv items)
  obtain k v where kv: "kv = (k, v)" by (cases kv)
  from Cons.prems kv have nd: "k \<noteq> ''__class__''" "k \<noteq> ''__weakref__''" "k \<noteq> ''__dict__''"
    by auto
  from Cons.prems kv have kin: "k \<in> fst ` set P" by auto
  then have ha: "hasattr oa P k" by (simp add: hasattr_def)
  have keys: "map fst (AList.update k v P) = map fst P"
    using kin by (simp add: AList.update_keys)
  have a: "distinct (map fst items)" using Cons.prems by simp
  have b: "fst ` set items \<subseteq> fst ` set (AList.update k v P)"
  proof -
    have "fst ` set items \<subseteq> fst ` set P" using Cons.prems(2) by auto
    moreover have "set (map fst (AList.update k v P)) = set (map fst P)"
      using keys by simp
    ultimately show ?thesis by simp
  qed
  have c: "\<forall>k \<in> fst ` set items. k \<noteq> ''__class__'' \<and> k \<noteq> ''__weakref__'' \<and> k \<noteq> ''__dict__''"
    using Cons.prems(3) by auto
  from Cons.IH [OF a b c]
  obtain P' where p: "from_dict_loop oa items (AList.update k v P) = Inr P'"
     "map fst P' = map fst (AList.update k v P)"
     "map_of P' = map_of (AList.update k v P) ++ map_of items"
    by blast
  have 1: "from_dict_loop oa (kv # items) P = Inr P'"
    using ha nd p(1) kv by (simp add: setattr_def)
  have knot: "map_of items k = None"
    using Cons.prems(1) kv by (simp add: map_of_eq_None_iff)
  have 2: "map_of P' = map_of P ++ map_of (kv # items)"
  proof (rule ext)
    fix x
    show "map_of P' x = (map_of P ++ map_of (kv # items)) x"
    proof (cases "x = k")
      case True
      then show ?thesis using knot p(3) kv by (simp add: map_add_def AList.update_conv')
    next
      case False
      then show ?thesis using p(3) kv
        by (simp add: map_add_def AList.update_conv' split: option.splits)
    qed
  qed
  have 3: "map fst P' = map fst P" using p(2) keys by simp
  from 1 2 3 show ?case by blast
qed

text \<open>
  The same loop over any document without data-descriptor keys: it returns, the keys it
  adds are exactly the document's keys that name an attribute of the class or of the
  interpreter, and a key the document does not have keeps its value.
\<close>

lemma from_dict_loop_keys:
  "\<forall>k \<in> fst ` set d. k \<noteq> ''__class__'' \<and> k \<noteq> ''__weakref__'' \<and> k \<noteq> ''__dict__'' \<Longrightarrow>
   \<exists>P'. from_dict_loop oa d P = Inr P' \<and>
        set (map fst P') = set (map fst P) \<union> {k \<in> fst ` set d. k \<in> set class_attrs \<union> set oa} \<and>
        (\<forall>k. k \<notin> fst ` set d \<longrightarrow> map_of P' k = map_of P k)"
proof (induction d arbitrary: P)
  case Nil
  then show ?case by simp
next
  case (Cons kv items)
  obtain k v where kv: "kv = (k, v)" by (cases kv)
  from Cons.prems kv have nd: "k \<noteq> ''__class__''" "k \<noteq> ''__weakref__''" "k \<noteq> ''__dict__''"
    by auto
  from Cons.prems have rest: "\<forall>k \<in> fst ` set items. k \<noteq> ''__class__'' \<and> k \<noteq> ''__weakref__'' \<and> k \<noteq> ''__dict__''"
    by auto
  show ?case
  proof (cases "hasattr oa P k")
    case True
    from Cons.IH [OF rest, of "AList.update k v P"]
    obtain P' where p: "from_dict_loop oa items (AList.update k v P) = Inr P'"
      "set (map fst P') = set (map fst (AList.update k v P)) \<union> {k \<in> fst ` set items. k \<in> set class_attrs \<union> set oa}"
      "\<forall>k'. k' \<notin> fst ` set items \<longrightarrow> map_of P' k' = map_of (AList.update k v P) k'"
      by blast
    have 1: "from_dict_loop oa (kv # items) P = Inr P'"
      using True nd p(1) kv by (simp add: setattr_def)
    have 2: "set (map fst (AList.update k v P)) = insert k (set (map fst P))"
      by (auto simp: AList.update_keys)
    have 3: "k \<in> set (map fst P) \<or> k \<in> set class_attrs \<union> set oa"
      using True by (auto simp: hasattr_def)
    have 4: "set (map fst P') = set (map fst P) \<union> {k \<in> fst ` set (kv # items). k \<in> set class_attrs \<union> set oa}"
      using p(2) 2 3 kv by auto
    have 5: "\<forall>k'. k' \<notin> fst ` set (kv # items) \<longrightarrow> map_of P' k' = map_of P k'"
      using p(3) kv by (auto simp: AList.update_conv')
    from 1 4 5 show ?thesis by blast
  next
    case False
    from Cons.IH [OF rest, of P]
    obtain P' where p: "from_dict_loop oa items P = Inr P'"
      "set (map fst P') = set (map fst P) \<union> {k \<in> fst ` set items. k \<in> set class_attrs \<union> set oa}"
      "\<forall>k'. k' \<notin> fst ` set items \<longrightarrow> map_of P' k' = map_of P k'"
      by blast
    have 1: "from_dict_loop oa (kv # items) P = Inr P'"
      using False p(1) kv by simp
    have 3: "k \<notin> set class_attrs \<union> set oa"
      using False by (auto simp: hasattr_def)
    have 4: "set (map fst P') = set (map fst P) \<union> {k \<in> fst ` set (kv # items). k \<in> set class_attrs \<union> set oa}"
      using p(2) 3 kv by auto
    have 5: "\<forall>k'. k' \<notin> fst ` set (kv # items) \<longrightarrow> map_of P' k' = map_of P k'"
      using p(3) kv by auto
    from 1 4 5 show ?thesis by blast
  qed
qed

subsection \<open>C5: update\_profile\<close>

text \<open>
  C5 as the spec states it fails twice on a freshly constructed profile.
  \<^verbatim>\<open>get_summary\<close> is not one of the eleven fields, yet \<^verbatim>\<open>hasattr\<close> finds the method of that
  name, so the update is applied and creates an instance attribute (even with no attribute
  inherited from the interpreter, \<open>oa = []\<close>). And for the recognized field
  \<^verbatim>\<open>updated_at\<close> the value written is at once replaced by the clock reading.
\<close>

theorem update_profile_method_name_counterexample:
  "''get_summary'' \<notin> set field_names \<and>
   update_profile [] ''t3'' (UserProfile_init ''t1'' ''t2'' (PInt 1)) ''get_summary'' (PInt 0)
     = Inr (True, UserProfile_init ''t1'' ''t3'' (PInt 1) @ [(''get_summary'', PInt 0)]) \<and>
   ''updated_at'' \<in> set field_names \<and>
   update_profile [] ''t3'' (UserProfile_init ''t1'' ''t2'' (PInt 1)) ''updated_at'' (PStr ''v'')
     = Inr (True, UserProfile_init ''t1'' ''t3'' (PInt 1))"
  by (simp add: field_names_def update_profile_def hasattr_def class_attrs_def setattr_def
      UserProfile_init_def)

text \<open>
  C5, amended. For every profile \<open>P\<close> and every name \<open>k\<close> that \<^verbatim>\<open>hasattr\<close> does not find
  (no instance attribute, no method of the class, no attribute from the interpreter),
  \<^verbatim>\<open>update_profile\<close> returns \<open>False\<close> and leaves \<open>P\<close> unchanged. For every profile that
  has the eleven fields and every recognized field \<open>k\<close>, it returns \<open>True\<close>, creates no
  attribute, sets \<^verbatim>\<open>updated_at\<close> to the clock reading, sets \<open>k\<close> to the value unless
  \<open>k\<close> is \<^verbatim>\<open>updated_at\<close> itself, and changes no other attribute.
\<close>

theorem update_profile_applies_by_hasattr:
  "(\<not> hasattr oa P k \<longrightarrow> update_profile oa now P k v = Inr (False, P)) \<and>
   (set field_names \<subseteq> set (map fst P) \<and> k \<in> set field_names \<longrightarrow>
      (\<exists>P'. update_profile oa now P k v = Inr (True, P') \<and>
        map fst P' = map fst P \<and>
        map_of P' ''updated_at'' = Some (PStr now) \<and>
        (k \<noteq> ''updated_at'' \<longrightarrow> map_of P' k = Some v) \<and>
        (\<forall>k'. k' \<noteq> k \<and> k' \<noteq> ''updated_at'' \<longrightarrow> map_of P' k' = map_of P k')))"
proof (intro conjI impI)
  assume "\<not> hasattr oa P k"
  then show "update_profile oa now P k v = Inr (False, P)"
    by (simp add: update_profile_def)
next
  assume h: "set field_names \<subseteq> set (map fst P) \<and> k \<in> set field_names"
  then have nd: "k \<noteq> ''__class__''" "k \<noteq> ''__weakref__''" "k \<noteq> ''__dict__''"
    using field_names_not_descriptor by blast+
  from h have kin: "k \<in> fst ` set P" by auto
  have "''updated_at'' \<in> set field_names" by (simp add: field_names_def)
  with h have uin: "''updated_at'' \<in> fst ` set P" by auto
  from kin have ha: "hasattr oa P k" by (simp add: hasattr_def)
  let ?P' = "AList.update ''updated_at'' (PStr now) (AList.update k v P)"
  have 1: "update_profile oa now P k v = Inr (True, ?P')"
    using ha nd by (simp add: update_profile_def setattr_def)
  have 2: "map fst ?P' = map fst P"
    using kin uin by (simp add: AList.update_keys)
  have 3: "map_of ?P' ''updated_at'' = Some (PStr now)"
    by (simp add: AList.update_conv')
  have 4: "k \<noteq> ''updated_at'' \<longrightarrow> map_of ?P' k = Some v"
    by (simp add: AList.update_conv')
  have 5: "\<forall>k'. k' \<noteq> k \<and> k' \<noteq> ''updated_at'' \<longrightarrow> map_of ?P' k' = map_of P k'"
    by (simp add: AList.update_conv')
  from 1 2 3 4 5 show "\<exists>P'. update_profile oa now P k v = Inr (True, P') \<and>
        map fst P' = map fst P \<and>
        map_of P' ''updated_at'' = Some (PStr now) \<and>
        (k \<noteq> ''updated_at'' \<longrightarrow> map_of P' k = Some v) \<and>
        (\<forall>k'. k' \<noteq> k \<and> k' \<noteq> ''updated_at'' \<longrightarrow> map_of P' k' = map_of P k')"
    by blast
qed

text \<open>
  The theorem at a fresh profile: the unknown name \<^verbatim>\<open>mood\<close> is rejected, the field
  \<^verbatim>\<open>nickname\<close> is set and \<^verbatim>\<open>updated_at\<close> moves while \<^verbatim>\<open>created_at\<close> stays.
\<close>

theorem update_profile_applies_by_hasattr_witness:
  "update_profile [] ''t3'' (UserProfile_init ''t1'' ''t2'' (PInt 1)) ''mood'' (PInt 0)
     = Inr (False, UserProfile_init ''t1'' ''t2'' (PInt 1)) \<and>
   (\<exists>P'. update_profile [] ''t3'' (UserProfile_init ''t1'' ''t2'' (PInt 1)) ''nickname'' (PStr ''Two B'')
            = Inr (True, P') \<and>
      map_of P' ''nickname'' = Some (PStr ''Two B'') \<and>
      map_of P' ''updated_at'' = Some (PStr ''t3'') \<and>
      map_of P' ''created_at'' = Some (PStr ''t1''))"
proof -
  let ?P = "UserProfile_init ''t1'' ''t2'' (PInt 1)"
  have a: "\<not> hasattr [] ?P ''mood''"
    by (simp add: hasattr_def UserProfile_init_def class_attrs_def)
  have b: "set field_names \<subseteq> set (map fst ?P) \<and> ''nickname'' \<in> set field_names"
    by (simp add: field_names_def UserProfile_init_def)
  have c: "map_of ?P ''created_at'' = Some (PStr ''t1'')"
    by (simp add: UserProfile_init_def)
  from a update_profile_applies_by_hasattr [of "[]" ?P "''mood''" "''t3''" "PInt 0"]
  have 1: "update_profile [] ''t3'' ?P ''mood'' (PInt 0) = Inr (False, ?P)" by blast
  from b update_profile_applies_by_hasattr [of "[]" ?P "''nickname''" "''t3''" "PStr ''Two B''"]
  obtain P' where p: "update_profile [] ''t3'' ?P ''nickname'' (PStr ''Two B'') = Inr (True, P')"
      "map_of P' ''updated_at'' = Some (PStr ''t3'')"
      "map_of P' ''nickname'' = Some (PStr ''Two B'')"
      "map_of P' ''created_at'' = map_of ?P ''created_at''"
    by auto
  with 1 c show ?thesis by auto
qed

subsection \<open>C6: to\_dict and from\_dict\<close>

text \<open>
  C6 as the spec states it fails at a document with the key \<^verbatim>\<open>get_summary\<close>: the key is
  not a recognized field, and \<^verbatim>\<open>from_dict\<close> stores it as an instance attribute.
\<close>

theorem from_dict_method_key_counterexample:
  "''get_summary'' \<notin> set field_names \<and>
   from_dict [] ''t1'' ''t2'' (PDict [(''user_id'', PInt 1), (''get_summary'', PStr ''x'')])
     = Inr (UserProfile_init ''t1'' ''t2'' (PInt 1) @ [(''get_summary'', PStr ''x'')])"
  by (simp add: field_names_def from_dict_def hasattr_def class_attrs_def setattr_def
      UserProfile_init_def)

text \<open>
  C6, amended. For every profile \<open>P\<close> whose attributes are the eleven fields,
  \<^verbatim>\<open>P.to_dict()\<close> returns its dictionary and \<^verbatim>\<open>from_dict\<close> of that document is a profile
  with the eleven fields in constructor order, equal to \<open>P\<close> field for field. For every
  document with no key among \<^verbatim>\<open>__class__\<close>, \<^verbatim>\<open>__weakref__\<close>, \<^verbatim>\<open>__dict__\<close>,
  \<^verbatim>\<open>from_dict\<close> returns a profile whose attributes are the eleven fields and those keys of
  the document that name a method of the class or an attribute from the interpreter: a key
  that names neither a field nor such an attribute is ignored. A field the document does
  not have is at its constructor default (\<^verbatim>\<open>None\<close> for \<^verbatim>\<open>user_id\<close>).
\<close>

theorem from_dict_round_trip_and_hydration:
  "(distinct (map fst P) \<and> set (map fst P) = set field_names \<longrightarrow>
      (\<exists>P'. call_to_dict P = Inr P \<and> from_dict oa t1 t2 (PDict P) = Inr P' \<and>
            map fst P' = field_names \<and> map_of P' = map_of P)) \<and>
   ((\<forall>k \<in> fst ` set d. k \<noteq> ''__class__'' \<and> k \<noteq> ''__weakref__'' \<and> k \<noteq> ''__dict__'') \<longrightarrow>
      (\<exists>P'. from_dict oa t1 t2 (PDict d) = Inr P' \<and>
            set (map fst P') =
              set field_names \<union> {k \<in> fst ` set d. k \<in> set class_attrs \<union> set oa} \<and>
            (\<forall>k. k \<in> set field_names \<and> k \<notin> fst ` set d \<longrightarrow>
                 map_of P' k = map_of (UserProfile_init t1 t2 PNone) k)))"
proof (intro conjI impI)
  assume h: "distinct (map fst P) \<and> set (map fst P) = set field_names"
  let ?u = "case map_of P ''user_id'' of None \<Rightarrow> PNone | Some u \<Rightarrow> u"
  let ?I = "UserProfile_init t1 t2 ?u"
  have nt: "''to_dict'' \<notin> set (map fst P)" using h by (simp add: field_names_def)
  then have 1: "call_to_dict P = Inr P" by (simp add: call_to_dict_def to_dict_id)
  have "set (map fst ?I) = set field_names" by (simp only: init_keys)
  then have ik: "fst ` set ?I = set field_names" by simp
  have pk: "fst ` set P = set field_names" using h by simp
  have sub: "fst ` set P \<subseteq> fst ` set ?I" using ik pk by simp
  have nd: "\<forall>k \<in> fst ` set P. k \<noteq> ''__class__'' \<and> k \<noteq> ''__weakref__'' \<and> k \<noteq> ''__dict__''"
    using pk field_names_not_descriptor by blast
  from h have dist: "distinct (map fst P)" by simp
  from from_dict_loop_overwrite [OF dist sub nd, of oa]
  obtain P' where p: "from_dict_loop oa P ?I = Inr P'" "map fst P' = map fst ?I"
      "map_of P' = map_of ?I ++ map_of P"
    by blast
  have 2: "from_dict oa t1 t2 (PDict P) = Inr P'" using p(1) by (simp add: from_dict_def)
  have "dom (map_of ?I) = dom (map_of P)"
    using ik pk by (simp only: dom_map_of_conv_image_fst)
  then have "map_of ?I ++ map_of P = map_of P"
    by (rule map_add_same_dom)
  with p(3) have 3: "map_of P' = map_of P" by simp
  have 4: "map fst P' = field_names" using p(2) by (simp only: init_keys)
  from 1 2 3 4 show "\<exists>P'. call_to_dict P = Inr P \<and> from_dict oa t1 t2 (PDict P) = Inr P' \<and>
            map fst P' = field_names \<and> map_of P' = map_of P" by blast
next
  assume nd: "\<forall>k \<in> fst ` set d. k \<noteq> ''__class__'' \<and> k \<noteq> ''__weakref__'' \<and> k \<noteq> ''__dict__''"
  let ?u = "case map_of d ''user_id'' of None \<Rightarrow> PNone | Some u \<Rightarrow> u"
  let ?I = "UserProfile_init t1 t2 ?u"
  from from_dict_loop_keys [OF nd, of oa ?I]
  obtain P' where p: "from_dict_loop oa d ?I = Inr P'"
      "set (map fst P') = set (map fst ?I) \<union> {k \<in> fst ` set d. k \<in> set class_attrs \<union> set oa}"
      "\<forall>k. k \<notin> fst ` set d \<longrightarrow> map_of P' k = map_of ?I k"
    by blast
  have 1: "from_dict oa t1 t2 (PDict d) = Inr P'" using p(1) by (simp add: from_dict_def)
  have 2: "set (map fst P') = set field_names \<union> {k \<in> fst ` set d. k \<in> set class_attrs \<union> set oa}"
    using p(2) by (simp only: init_keys)
  have 3: "\<forall>k. k \<in> set field_names \<and> k \<notin> fst ` set d \<longrightarrow>
                 map_of P' k = map_of (UserProfile_init t1 t2 PNone) k"
  proof (intro allI impI)
    fix k assume k: "k \<in> set field_names \<and> k \<notin> fst ` set d"
    then have a: "map_of P' k = map_of ?I k" using p(3) by blast
    show "map_of P' k = map_of (UserProfile_init t1 t2 PNone) k"
    proof (cases "k = ''user_id''")
      case True
      with k have "map_of d ''user_id'' = None"
        by (simp add: map_of_eq_None_iff)
      then show ?thesis using a True by (simp add: UserProfile_init_def)
    next
      case False
      then show ?thesis using a by (simp add: UserProfile_init_def)
    qed
  qed
  from 1 2 3 show "\<exists>P'. from_dict oa t1 t2 (PDict d) = Inr P' \<and>
            set (map fst P') =
              set field_names \<union> {k \<in> fst ` set d. k \<in> set class_attrs \<union> set oa} \<and>
            (\<forall>k. k \<in> set field_names \<and> k \<notin> fst ` set d \<longrightarrow>
                 map_of P' k = map_of (UserProfile_init t1 t2 PNone) k)" by blast
qed

text \<open>
  The theorem at a constructed profile, and at the document
  \<^verbatim>\<open>{"name": "Nines", "legacy": 0}\<close>: the legacy key is dropped, the missing identity is
  \<^verbatim>\<open>None\<close> and \<^verbatim>\<open>created_at\<close> is the constructor's clock reading.
\<close>

theorem from_dict_round_trip_and_hydration_witness:
  "(\<exists>P'. from_dict [] ''t3'' ''t4'' (PDict (UserProfile_init ''t1'' ''t2'' (PInt 1))) = Inr P' \<and>
         map_of P' = map_of (UserProfile_init ''t1'' ''t2'' (PInt 1))) \<and>
   (\<exists>P'. from_dict [] ''t3'' ''t4'' (PDict [(''name'', PStr ''Nines''), (''legacy'', PInt 0)]) = Inr P' \<and>
         set (map fst P') = set field_names \<and>
         map_of P' ''user_id'' = Some PNone \<and>
         map_of P' ''created_at'' = Some (PStr ''t3''))"
proof -
  let ?P = "UserProfile_init ''t1'' ''t2'' (PInt 1)"
  let ?d = "[(''name'', PStr ''Nines''), (''legacy'', PInt 0)]"
  have a: "distinct (map fst ?P) \<and> set (map fst ?P) = set field_names"
    by (simp add: UserProfile_init_def field_names_def)
  have b: "\<forall>k \<in> fst ` set ?d. k \<noteq> ''__class__'' \<and> k \<noteq> ''__weakref__'' \<and> k \<noteq> ''__dict__''"
    by simp
  have c: "{k \<in> fst ` set ?d. k \<in> set class_attrs \<union> set []} = {}"
    by (auto simp: class_attrs_def)
  have d: "''user_id'' \<in> set field_names \<and> ''user_id'' \<notin> fst ` set ?d"
          "''created_at'' \<in> set field_names \<and> ''created_at'' \<notin> fst ` set ?d"
    by (simp_all add: field_names_def)
  have e: "map_of (UserProfile_init ''t3'' ''t4'' PNone) ''user_id'' = Some PNone"
          "map_of (UserProfile_init ''t3'' ''t4'' PNone) ''created_at'' = Some (PStr ''t3'')"
    by (simp_all add: UserProfile_init_def)
  note inst = from_dict_round_trip_and_hydration [of ?P "[]" "''t3''" "''t4''" ?d]
  from inst a obtain P1 where 1: "from_dict [] ''t3'' ''t4'' (PDict ?P) = Inr P1" "map_of P1 = map_of ?P"
    by blast
  from inst b obtain P2 where 2: "from_dict [] ''t3'' ''t4'' (PDict ?d) = Inr P2"
      "set (map fst P2) = set field_names \<union> {k \<in> fst ` set ?d. k \<in> set class_attrs \<union> set []}"
      "\<forall>k. k \<in> set field_names \<and> k \<notin> fst ` set ?d \<longrightarrow>
                 map_of P2 k = map_of (UserProfile_init ''t3'' ''t4'' PNone) k"
    by blast
  from 2(2) have 3: "set (map fst P2) = set field_names" by (simp only: c Un_empty_right)
  from 2(3) d e have 4: "map_of P2 ''user_id'' = Some PNone" "map_of P2 ''created_at'' = Some (PStr ''t3'')"
    by auto
  from 1 2(1) 3 4 show ?thesis by blast
qed

section \<open>The conversation history\<close>

lemma slice_last_ten:
  "(if int (length ys) > 10 then slice_from (- 10) ys else ys) = drop (length ys - 10) ys"
  by (auto simp: slice_from_def nat_diff_distrib)

lemma add_message_list:
  assumes m: "MAX_HISTORY cm = 10"
    and h: "(case map_of (conversations cm) uid of None \<Rightarrow> PList [] | Some h \<Rightarrow> h) = PList xs"
  shows "\<exists>cm'. add_message cm uid c now b = Inr cm' \<and> MAX_HISTORY cm' = 10 \<and>
     map_of (conversations cm') uid =
       Some (PList (drop (length (xs @ [message c now b]) - 10) (xs @ [message c now b])))"
proof -
  define ys where "ys = xs @ [message c now b]"
  have "add_message cm uid c now b =
      Inr (cm\<lparr>conversations := AList.update uid
             (PList (if int (length ys) > 10 then slice_from (- 10) ys else ys)) (conversations cm)\<rparr>)"
    unfolding add_message_def h m ys_def by (simp add: Let_def)
  then have "add_message cm uid c now b =
      Inr (cm\<lparr>conversations := AList.update uid (PList (drop (length ys - 10) ys)) (conversations cm)\<rparr>)"
    by (simp only: slice_last_ten)
  then show ?thesis
    using m unfolding ys_def by (simp add: AList.update_conv')
qed

lemma drop_last_ten_step:
  "drop (length (drop (length l - 10) l @ [x]) - 10) (drop (length l - 10) l @ [x])
     = drop (length (l @ [x]) - 10) (l @ [x])"
proof (cases "length l < 10")
  case True
  then show ?thesis by simp
next
  case False
  then have "Suc (length l - 10) = length l - 9" by arith
  with False show ?thesis by simp
qed

lemma add_messages_list:
  "MAX_HISTORY cm = 10 \<Longrightarrow>
   (case map_of (conversations cm) uid of None \<Rightarrow> PList [] | Some h \<Rightarrow> h)
      = PList (drop (length l - 10) l) \<Longrightarrow>
   ms \<noteq> [] \<Longrightarrow>
   \<exists>cm'. add_messages cm uid ms = Inr cm' \<and> MAX_HISTORY cm' = 10 \<and>
     map_of (conversations cm') uid =
       Some (PList (drop (length (l @ map (\<lambda>(c, t, b). message c t b) ms) - 10)
                      (l @ map (\<lambda>(c, t, b). message c t b) ms)))"
proof (induction ms arbitrary: cm l)
  case Nil
  then show ?case by simp
next
  case (Cons m ms)
  obtain c t b where m: "m = (c, t, b)" by (cases m)
  from add_message_list [OF Cons.prems(1) Cons.prems(2), of c t b]
  obtain cm1 where 1: "add_message cm uid c t b = Inr cm1" "MAX_HISTORY cm1 = 10"
    "map_of (conversations cm1) uid =
       Some (PList (drop (length (l @ [message c t b]) - 10) (l @ [message c t b])))"
    by (auto simp only: drop_last_ten_step)
  show ?case
  proof (cases "ms = []")
    case True
    then show ?thesis using 1 m by simp
  next
    case False
    have h: "(case map_of (conversations cm1) uid of None \<Rightarrow> PList [] | Some h \<Rightarrow> h)
      = PList (drop (length (l @ [message c t b]) - 10) (l @ [message c t b]))"
      using 1(3) by simp
    from Cons.IH [OF 1(2) h False]
    show ?thesis using 1(1) m by simp
  qed
qed


subsection \<open>C8: bounded history\<close>

text \<open>
  C8. In a manager whose \<^verbatim>\<open>MAX_HISTORY\<close> is the constructor's 10, every call of
  \<^verbatim>\<open>add_message\<close> that returns leaves that user's history a list of at most 10 messages,
  whatever its length was before (the eviction is part of the append), and the call does
  return when the history is absent or a list. Adding 15 messages to a new manager leaves
  the last 10 of them, in the order they were added.
\<close>

theorem add_message_bounded_history:
  "(MAX_HISTORY cm = 10 \<longrightarrow>
      (\<forall>cm'. add_message cm uid c now b = Inr cm' \<longrightarrow>
         (\<exists>xs. map_of (conversations cm') uid = Some (PList xs) \<and> length xs \<le> 10)) \<and>
      ((map_of (conversations cm) uid = None \<or>
        (\<exists>xs. map_of (conversations cm) uid = Some (PList xs))) \<longrightarrow>
         (\<exists>cm'. add_message cm uid c now b = Inr cm'))) \<and>
   (length ms = 15 \<longrightarrow>
      (\<exists>cm'. add_messages ConversationManager_init uid ms = Inr cm' \<and>
         map_of (conversations cm') uid =
           Some (PList (map (\<lambda>(c, t, b). message c t b) (drop 5 ms)))))"
proof (intro conjI impI allI)
  fix cm'
  assume m: "MAX_HISTORY cm = 10" and r: "add_message cm uid c now b = Inr cm'"
  from r obtain xs where
    h: "(case map_of (conversations cm) uid of None \<Rightarrow> PList [] | Some h \<Rightarrow> h) = PList xs"
    by (auto simp: add_message_def split: pyval.splits)
  from add_message_list [OF m h, of c now b] r
  have "map_of (conversations cm') uid =
       Some (PList (drop (length (xs @ [message c now b]) - 10) (xs @ [message c now b])))"
    by auto
  moreover have "length (drop (length (xs @ [message c now b]) - 10) (xs @ [message c now b])) \<le> 10"
    by simp
  ultimately show "\<exists>xs. map_of (conversations cm') uid = Some (PList xs) \<and> length xs \<le> 10"
    by blast
next
  assume m: "MAX_HISTORY cm = 10"
    and "map_of (conversations cm) uid = None \<or>
        (\<exists>xs. map_of (conversations cm) uid = Some (PList xs))"
  then obtain xs where
    h: "(case map_of (conversations cm) uid of None \<Rightarrow> PList [] | Some h \<Rightarrow> h) = PList xs"
    by auto
  from add_message_list [OF m h, of c now b]
  show "\<exists>cm'. add_message cm uid c now b = Inr cm'" by blast
next
  assume l: "length ms = 15"
  then have ne: "ms \<noteq> []" by auto
  have m: "MAX_HISTORY ConversationManager_init = 10"
    by (simp add: ConversationManager_init_def)
  have h: "(case map_of (conversations ConversationManager_init) uid of None \<Rightarrow> PList [] | Some h \<Rightarrow> h)
      = PList (drop (length ([] :: pyval list) - 10) [])"
    by (simp add: ConversationManager_init_def)
  from add_messages_list [OF m h ne]
  obtain cm' where 1: "add_messages ConversationManager_init uid ms = Inr cm'"
    "map_of (conversations cm') uid =
       Some (PList (drop (length ([] @ map (\<lambda>(c, t, b). message c t b) ms) - 10)
                      ([] @ map (\<lambda>(c, t, b). message c t b) ms)))"
    by blast
  have "drop (length ([] @ map (\<lambda>(c, t, b). message c t b) ms) - 10)
                      ([] @ map (\<lambda>(c, t, b). message c t b) ms)
        = map (\<lambda>(c, t, b). message c t b) (drop 5 ms)"
    using l by (simp add: drop_map)
  with 1 show "\<exists>cm'. add_messages ConversationManager_init uid ms = Inr cm' \<and>
         map_of (conversations cm') uid =
           Some (PList (map (\<lambda>(c, t, b). message c t b) (drop 5 ms)))"
    by auto
qed

text \<open>
  The theorem at a new manager, and at fifteen messages numbered 1 to 15: numbers 6 to 15
  remain.
\<close>

theorem add_message_bounded_history_witness:
  "(\<exists>cm'. add_message ConversationManager_init 7 (PStr ''hello'') ''t'' False = Inr cm' \<and>
      (\<exists>xs. map_of (conversations cm') 7 = Some (PList xs) \<and> length xs \<le> 10)) \<and>
   (\<exists>cm'. add_messages ConversationManager_init 7 (map (\<lambda>i. (PInt i, ''t'', False)) [1..15]) = Inr cm' \<and>
      map_of (conversations cm') 7 = Some (PList (map (\<lambda>i. message (PInt i) ''t'' False) [6..15])))"
proof -
  have m: "MAX_HISTORY ConversationManager_init = 10"
    by (simp add: ConversationManager_init_def)
  have n: "map_of (conversations ConversationManager_init) 7 = None"
    by (simp add: ConversationManager_init_def)
  have l: "length (map (\<lambda>i. (PInt i, ''t'', False)) [1..15]) = 15" by simp
  have d: "map (\<lambda>(c, t, b). message c t b) (drop 5 (map (\<lambda>i. (PInt i, ''t'', False)) [1..15]))
      = map (\<lambda>i. message (PInt i) ''t'' False) [6..15]"
    by code_simp
  note inst = add_message_bounded_history
    [of ConversationManager_init 7 "PStr ''hello''" "''t''" False "map (\<lambda>i. (PInt i, ''t'', False)) [1..15]"]
  from inst m n obtain cm1 where 1: "add_message ConversationManager_init 7 (PStr ''hello'') ''t'' False = Inr cm1"
    by blast
  with inst m have 2: "\<exists>xs. map_of (conversations cm1) 7 = Some (PList xs) \<and> length xs \<le> 10"
    by blast
  from inst l obtain cm2 where 3:
    "add_messages ConversationManager_init 7 (map (\<lambda>i. (PInt i, ''t'', False)) [1..15]) = Inr cm2"
    "map_of (conversations cm2) 7 =
       Some (PList (map (\<lambda>(c, t, b). message c t b) (drop 5 (map (\<lambda>i. (PInt i, ''t'', False)) [1..15]))))"
    by blast
  from 3(2) have 4: "map_of (conversations cm2) 7 = Some (PList (map (\<lambda>i. message (PInt i) ''t'' False) [6..15]))"
    by (simp only: d)
  from 1 2 3(1) 4 show ?thesis by blast
qed

section \<open>The codec: save\_file\<close>

lemma with_suffix_differs:
  assumes ns: "path_suffix name \<noteq> ''.tmp''" and w: "with_suffix name ''.tmp'' = Inr tn"
  shows "tn \<noteq> name"
proof
  assume eq: "tn = name"
  from w have tn: "tn = stem name @ ''.tmp''"
    by (auto simp: with_suffix_def split: if_splits)
  let ?k = "length name - length (path_suffix name)"
  have n: "name = take ?k name @ ''.tmp''" using tn eq by (simp add: stem_def)
  have sl: "length (path_suffix name) \<le> length name"
    by (simp add: path_suffix_def Let_def)
  have "length name = length (take ?k name) + 4"
    using arg_cong [OF n, of length] by simp
  then have l4: "length (path_suffix name) = 4" using sl by simp
  then have "path_suffix name \<noteq> []" by auto
  then have "path_suffix name = drop (nat (rfind (CHR ''.'') name)) name"
    by (simp add: path_suffix_def Let_def split: if_splits)
  moreover from this l4 have "nat (rfind (CHR ''.'') name) = ?k" by simp
  ultimately have "path_suffix name = drop ?k name" by simp
  also have "\<dots> = drop ?k (take ?k name @ ''.tmp'')" using n by simp
  also have "\<dots> = ''.tmp''" using sl by simp
  finally show False using ns by simp
qed

lemma write_text_other:
  "q \<noteq> p \<Longrightarrow> map_of (files (snd (write_text e fs p t))) q = map_of (files fs) q"
  by (simp add: write_text_def AList.update_conv' split: write_outcome.splits)

lemma write_text_ok:
  "write_text e fs p t = (None, fs1) \<Longrightarrow> map_of (files fs1) p = Some t"
  by (auto simp: write_text_def AList.update_conv' split: write_outcome.splits if_splits)

lemma replace_ok_result:
  "replace e fs1 src dst = (None, fs2) \<Longrightarrow> map_of (files fs1) src = Some t \<Longrightarrow>
   map_of (files fs2) dst = Some t"
  by (auto simp: replace_def AList.update_conv' split: option.splits if_splits)

lemma replace_fail_result:
  "replace e fs1 src dst = (Some err, fs2) \<Longrightarrow> fs2 = fs1"
  by (auto simp: replace_def split: option.splits if_splits)


lemma save_file_run_spec:
  assumes ns: "path_suffix (snd path) \<noteq> ''.tmp''"
  shows "(\<forall>s \<in> set (snd (save_file_run e fs path data)).
            map_of (files s) path = map_of (files fs) path \<or>
            map_of (files s) path = Some (Json data)) \<and>
         (fst (save_file_run e fs path data) \<longrightarrow>
            map_of (files (last (snd (save_file_run e fs path data)))) path = Some (Json data)) \<and>
         (\<not> fst (save_file_run e fs path data) \<longrightarrow>
            map_of (files (last (snd (save_file_run e fs path data)))) path = map_of (files fs) path)"
proof (cases "with_suffix (snd path) ''.tmp''")
  case (Inl err)
  then show ?thesis by (simp add: save_file_run_def)
next
  case (Inr tn)
  let ?temp = "(fst path, tn)"
  have ne: "path \<noteq> ?temp"
    using with_suffix_differs [OF ns Inr] by (cases path) auto
  show ?thesis
  proof (cases "json_dumps data")
    case (Inl err)
    then show ?thesis using Inr by (simp add: save_file_run_def)
  next
    case d: (Inr t)
    then have t: "t = Json data" by (auto simp: json_dumps_def split: if_splits)
    obtain r fs1 where w: "write_text e fs ?temp t = (r, fs1)" by (cases "write_text e fs ?temp t")
    have keep1: "map_of (files fs1) path = map_of (files fs) path"
      using write_text_other [OF ne, of e fs t] w by simp
    show ?thesis
    proof (cases r)
      case (Some err)
      then show ?thesis using Inr d w keep1 by (simp add: save_file_run_def)
    next
      case None
      with w have w1: "write_text e fs ?temp t = (None, fs1)" by simp
      have c1: "map_of (files fs1) ?temp = Some t" by (rule write_text_ok [OF w1])
      show ?thesis
      proof (cases "file_exists fs1 ?temp")
        case False
        then show ?thesis using Inr d w1 keep1 by (simp add: save_file_run_def)
      next
        case True
        obtain r2 fs2 where rp: "replace e fs1 ?temp path = (r2, fs2)"
          by (cases "replace e fs1 ?temp path")
        show ?thesis
        proof (cases r2)
          case (Some err)
          with rp have "fs2 = fs1" using replace_fail_result by blast
          then show ?thesis using Inr d w1 True rp Some keep1 by (simp add: save_file_run_def)
        next
          case None
          with rp c1 have "map_of (files fs2) path = Some t"
            using replace_ok_result by blast
          then show ?thesis using Inr d w1 True rp None keep1 t by (simp add: save_file_run_def)
        qed
      qed
    qed
  qed
qed


subsection \<open>C7: the atomic write\<close>

text \<open>
  C7 as the spec states it, for every path, fails at a path whose suffix is already
  \<^verbatim>\<open>.tmp\<close>: \<^verbatim>\<open>with_suffix\<close> then returns the path itself, the new text is written in place,
  and a write that fails part-way returns \<open>False\<close> with the old content gone.
\<close>

theorem save_file_in_place_counterexample:
  "save_file
     \<lparr>mkdir_ok = (\<lambda>d. True), on_write = (\<lambda>p. Torn Blank), replace_ok = (\<lambda>p. True),
      unlink_ok = (\<lambda>p. True), clock = ''t'', object_attrs = []\<rparr>
     \<lparr>dirs = [''data''], files = [((''data'', ''dm_settings.tmp''), Json (PInt 1))]\<rparr>
     (''data'', ''dm_settings.tmp'') (PInt 2)
   = (False, \<lparr>dirs = [''data''], files = [((''data'', ''dm_settings.tmp''), Blank)]\<rparr>)"
  by (simp add: save_file_def save_file_run_def with_suffix_def stem_def path_suffix_def rfind_def
      json_dumps_def write_text_def dir_exists_def Let_def)

text \<open>
  C7, amended. For every path whose suffix is not \<^verbatim>\<open>.tmp\<close>, every record and every
  behaviour of the file system: in each state the file system passes through during
  \<^verbatim>\<open>save_file\<close> the final path holds either its content from before the call or the full
  serialization of the record; when \<^verbatim>\<open>save_file\<close> returns \<open>True\<close> it holds the
  serialization; when it returns \<open>False\<close> it holds what it held before; and a record that
  cannot be serialized gives \<open>False\<close>.
\<close>

theorem save_file_atomic:
  "path_suffix (snd path) \<noteq> ''.tmp'' \<longrightarrow>
     (\<forall>s \<in> set (snd (save_file_run e fs path data)).
         map_of (files s) path = map_of (files fs) path \<or>
         map_of (files s) path = Some (Json data)) \<and>
     (fst (save_file e fs path data) \<longrightarrow>
         map_of (files (snd (save_file e fs path data))) path = Some (Json data)) \<and>
     (\<not> fst (save_file e fs path data) \<longrightarrow>
         map_of (files (snd (save_file e fs path data))) path = map_of (files fs) path) \<and>
     (\<not> serializable data \<longrightarrow> \<not> fst (save_file e fs path data))"
proof
  assume ns: "path_suffix (snd path) \<noteq> ''.tmp''"
  have 1: "\<not> serializable data \<longrightarrow> \<not> fst (save_file e fs path data)"
    by (simp add: save_file_def save_file_run_def json_dumps_def Let_def split: sum.splits)
  from save_file_run_spec [OF ns, of e fs data] 1
  show "(\<forall>s \<in> set (snd (save_file_run e fs path data)).
         map_of (files s) path = map_of (files fs) path \<or>
         map_of (files s) path = Some (Json data)) \<and>
     (fst (save_file e fs path data) \<longrightarrow>
         map_of (files (snd (save_file e fs path data))) path = Some (Json data)) \<and>
     (\<not> fst (save_file e fs path data) \<longrightarrow>
         map_of (files (snd (save_file e fs path data))) path = map_of (files fs) path) \<and>
     (\<not> serializable data \<longrightarrow> \<not> fst (save_file e fs path data))"
    by (simp add: save_file_def Let_def)
qed

lemma suffix_json: "path_suffix ''42.json'' = ''.json''"
  by (simp add: path_suffix_def rfind_def Let_def)

text \<open>
  The theorem at \<^verbatim>\<open>42.json\<close>: with a working file system the file holds the new record,
  with a write that tears it still holds the old one.
\<close>

theorem save_file_atomic_witness:
  "fst (save_file
     \<lparr>mkdir_ok = (\<lambda>d. True), on_write = (\<lambda>p. Written), replace_ok = (\<lambda>p. True),
      unlink_ok = (\<lambda>p. True), clock = ''t'', object_attrs = []\<rparr>
     \<lparr>dirs = [''p''], files = [((''p'', ''42.json''), Json (PInt 1))]\<rparr>
     (''p'', ''42.json'') (PInt 2)) \<and>
   map_of (files (snd (save_file
     \<lparr>mkdir_ok = (\<lambda>d. True), on_write = (\<lambda>p. Written), replace_ok = (\<lambda>p. True),
      unlink_ok = (\<lambda>p. True), clock = ''t'', object_attrs = []\<rparr>
     \<lparr>dirs = [''p''], files = [((''p'', ''42.json''), Json (PInt 1))]\<rparr>
     (''p'', ''42.json'') (PInt 2)))) (''p'', ''42.json'') = Some (Json (PInt 2)) \<and>
   \<not> fst (save_file
     \<lparr>mkdir_ok = (\<lambda>d. True), on_write = (\<lambda>p. Torn Blank), replace_ok = (\<lambda>p. True),
      unlink_ok = (\<lambda>p. True), clock = ''t'', object_attrs = []\<rparr>
     \<lparr>dirs = [''p''], files = [((''p'', ''42.json''), Json (PInt 1))]\<rparr>
     (''p'', ''42.json'') (PInt 2)) \<and>
   map_of (files (snd (save_file
     \<lparr>mkdir_ok = (\<lambda>d. True), on_write = (\<lambda>p. Torn Blank), replace_ok = (\<lambda>p. True),
      unlink_ok = (\<lambda>p. True), clock = ''t'', object_attrs = []\<rparr>
     \<lparr>dirs = [''p''], files = [((''p'', ''42.json''), Json (PInt 1))]\<rparr>
     (''p'', ''42.json'') (PInt 2)))) (''p'', ''42.json'') = Some (Json (PInt 1))"
proof -
  let ?ok = "\<lparr>mkdir_ok = (\<lambda>d. True), on_write = (\<lambda>p. Written), replace_ok = (\<lambda>p. True),
      unlink_ok = (\<lambda>p. True), clock = ''t'', object_attrs = []\<rparr>"
  let ?torn = "\<lparr>mkdir_ok = (\<lambda>d. True), on_write = (\<lambda>p. Torn Blank), replace_ok = (\<lambda>p. True),
      unlink_ok = (\<lambda>p. True), clock = ''t'', object_attrs = []\<rparr>"
  let ?fs = "\<lparr>dirs = [''p''], files = [((''p'', ''42.json''), Json (PInt 1))]\<rparr>"
  let ?p = "(''p'', ''42.json'')"
  have ns: "path_suffix (snd ?p) \<noteq> ''.tmp''" by (simp add: suffix_json)
  have a: "fst (save_file ?ok ?fs ?p (PInt 2))"
    by (simp add: save_file_def save_file_run_def with_suffix_def stem_def suffix_json
      json_dumps_def write_text_def dir_exists_def file_exists_def replace_def Let_def)
  have b: "\<not> fst (save_file ?torn ?fs ?p (PInt 2))"
    by (simp add: save_file_def save_file_run_def with_suffix_def stem_def suffix_json
      json_dumps_def write_text_def dir_exists_def Let_def)
  have c: "map_of (files ?fs) ?p = Some (Json (PInt 1))" by simp
  from save_file_atomic [of ?p ?ok ?fs "PInt 2"] ns a
  have 1: "map_of (files (snd (save_file ?ok ?fs ?p (PInt 2)))) ?p = Some (Json (PInt 2))"
    by blast
  from save_file_atomic [of ?p ?torn ?fs "PInt 2"] ns b
  have "map_of (files (snd (save_file ?torn ?fs ?p (PInt 2)))) ?p = map_of (files ?fs) ?p"
    by blast
  with c have 2: "map_of (files (snd (save_file ?torn ?fs ?p (PInt 2)))) ?p = Some (Json (PInt 1))"
    by simp
  from a b 1 2 show ?thesis by blast
qed

section \<open>Loading\<close>

lemma py_pop_dict:
  "py_pop data k dflt = Inr (v, PDict d1) \<Longrightarrow>
   k \<notin> set (map fst d1) \<and> (\<exists>d. data = PDict d \<and> set (map fst d1) \<subseteq> set (map fst d))"
proof (cases data)
  case (PDict d)
  assume p: "py_pop data k dflt = Inr (v, PDict d1)"
  show ?thesis
  proof (cases "map_of d k")
    case None
    then have "k \<notin> set (map fst d)" by (simp add: map_of_eq_None_iff)
    moreover from p PDict None have "d1 = d" by (auto split: option.splits)
    ultimately show ?thesis using PDict by simp
  next
    case (Some w)
    with p PDict have d1: "d1 = AList.delete k d" by simp
    have "k \<notin> fst ` set (AList.delete k d)" by (rule AList.delete_notin_dom)
    moreover have "set (map fst (AList.delete k d)) \<subseteq> set (map fst d)"
      by (simp only: AList.delete_keys) auto
    then have "fst ` set (AList.delete k d) \<subseteq> fst ` set d" by simp
    ultimately show ?thesis using PDict d1 by simp
  qed
qed simp_all

lemma py_contains_dict_False:
  "py_contains k (PDict d) = Inr False \<Longrightarrow> k \<notin> set (map fst d)"
  by simp

lemma load_user_profile_no_subdocument_keys:
  assumes r: "fst (load_user_profile sm fs uid em) = PDict d'"
  shows "''relationship'' \<notin> set (map fst d') \<and> ''interaction_stats'' \<notin> set (map fst d')"
proof -
  let ?p = "(profiles_dir sm, str_int uid @ ''.json'')"
  show ?thesis
  proof (cases "file_exists fs ?p")
    case False
    with r show ?thesis by (simp add: load_user_profile_def)
  next
    case ex: True
    show ?thesis
    proof (cases "read_text fs ?p")
      case (Inl err)
      with r ex show ?thesis by (simp add: load_user_profile_def)
    next
      case rd: (Inr t)
      show ?thesis
      proof (cases "json_loads t")
        case (Inl err)
        with r ex rd show ?thesis
          by (cases t) (auto simp: load_user_profile_def json_loads_def)
      next
        case ld: (Inr data)
        then have t: "t = Json data" by (cases t) (auto simp: json_loads_def)
        show ?thesis
        proof (cases "py_contains ''relationship'' data")
          case (Inl err)
          with r ex rd ld t show ?thesis by (simp add: load_user_profile_def)
        next
          case c1: (Inr has_rel)
          define step1 where "step1 =
            (if has_rel
               then (case py_pop data ''relationship'' None of
                       Inl err \<Rightarrow> Inl err
                     | Inr (r, data1) \<Rightarrow>
                         Inr (data1, em\<lparr>relationship_progress :=
                                          AList.update uid r (relationship_progress em)\<rparr>))
               else Inr (data, em))"
          show ?thesis
          proof (cases step1)
            case (Inl err)
            with r ex rd ld t c1 show ?thesis
              by (simp add: load_user_profile_def step1_def)
          next
            case s1: (Inr pr)
            obtain data1 em1 where pr: "pr = (data1, em1)" by (cases pr)
            have norel: "\<And>d1. data1 = PDict d1 \<Longrightarrow> ''relationship'' \<notin> set (map fst d1)"
            proof -
              fix d1 assume d1: "data1 = PDict d1"
              show "''relationship'' \<notin> set (map fst d1)"
              proof (cases has_rel)
                case True
                with s1 pr d1 obtain v where "py_pop data ''relationship'' None = Inr (v, PDict d1)"
                  by (auto simp: step1_def split: sum.splits)
                then show ?thesis using py_pop_dict by blast
              next
                case False
                with s1 pr d1 have "data = PDict d1" by (simp add: step1_def)
                with c1 False show ?thesis by simp
              qed
            qed
            show ?thesis
            proof (cases "py_contains ''interaction_stats'' data1")
              case (Inl err)
              with r ex rd ld t c1 s1 pr show ?thesis
                by (simp add: load_user_profile_def step1_def [symmetric])
            next
              case c2: (Inr has_stats)
              show ?thesis
              proof (cases has_stats)
                case False
                with r ex rd ld t c1 s1 pr c2 have "data1 = PDict d'"
                  by (simp add: load_user_profile_def step1_def [symmetric])
                with norel c2 False show ?thesis by auto
              next
                case True
                show ?thesis
                proof (cases "py_pop data1 ''interaction_stats'' (Some (PDict []))")
                  case (Inl err)
                  with r ex rd ld t c1 s1 pr c2 True show ?thesis
                    by (simp add: load_user_profile_def step1_def [symmetric])
                next
                  case p2: (Inr q)
                  obtain s data2 where q: "q = (s, data2)" by (cases q)
                  show ?thesis
                  proof (cases "py_Counter s")
                    case (Inl err)
                    with r ex rd ld t c1 s1 pr c2 True p2 q show ?thesis
                      by (simp add: load_user_profile_def step1_def [symmetric])
                  next
                    case (Inr c)
                    with r ex rd ld t c1 s1 pr c2 True p2 q have "data2 = PDict d'"
                      by (simp add: load_user_profile_def step1_def [symmetric])
                    with p2 q have pp: "py_pop data1 ''interaction_stats'' (Some (PDict [])) = Inr (s, PDict d')"
                      by simp
                    from py_pop_dict [OF pp] obtain d1 where
                      a: "''interaction_stats'' \<notin> set (map fst d')" "data1 = PDict d1"
                         "set (map fst d') \<subseteq> set (map fst d1)"
                      by blast
                    from norel [OF a(2)] a(3) have "''relationship'' \<notin> set (map fst d')" by blast
                    with a(1) show ?thesis by simp
                  qed
                qed
              qed
            qed
          qed
        qed
      qed
    qed
  qed
qed


lemma map_of_Some_key: "map_of xs k = Some v \<Longrightarrow> k \<in> fst ` set xs"
  using dom_map_of_conv_image_fst [of xs] by (auto simp: dom_def)

lemma load_user_profile_of_document:
  assumes f: "map_of (files fs) (profiles_dir sm, str_int uid @ ''.json'') = Some (Json (PDict d))"
    and r: "map_of d ''relationship'' = Some r"
    and s: "map_of d ''interaction_stats'' = Some (PDict c)"
  shows "load_user_profile sm fs uid em =
           (PDict (AList.delete ''interaction_stats'' (AList.delete ''relationship'' d)),
            em\<lparr>relationship_progress := AList.update uid r (relationship_progress em),
               interaction_stats := AList.update uid c (interaction_stats em)\<rparr>)"
proof -
  let ?p = "(profiles_dir sm, str_int uid @ ''.json'')"
  from f have "?p \<in> fst ` set (files fs)" by (rule map_of_Some_key)
  then have ex: "file_exists fs ?p" by (simp add: file_exists_def)
  have rd: "read_text fs ?p = Inr (Json (PDict d))" using f by (simp add: read_text_def)
  have ld: "json_loads (Json (PDict d)) = Inr (PDict d)" by (simp add: json_loads_def)
  have "''relationship'' \<in> fst ` set d" using r by (rule map_of_Some_key)
  then have c1: "py_contains ''relationship'' (PDict d) = Inr True" by simp
  have p1: "py_pop (PDict d) ''relationship'' None = Inr (r, PDict (AList.delete ''relationship'' d))"
    using r by simp
  have s': "map_of (AList.delete ''relationship'' d) ''interaction_stats'' = Some (PDict c)"
    using s by (simp add: AList.delete_conv')
  then have "''interaction_stats'' \<in> fst ` set (AList.delete ''relationship'' d)"
    by (rule map_of_Some_key)
  then have c2: "py_contains ''interaction_stats'' (PDict (AList.delete ''relationship'' d)) = Inr True"
    by simp
  have p2: "py_pop (PDict (AList.delete ''relationship'' d)) ''interaction_stats'' (Some (PDict []))
      = Inr (PDict c, PDict (AList.delete ''interaction_stats'' (AList.delete ''relationship'' d)))"
    using s' by simp
  show ?thesis
    unfolding load_user_profile_def Let_def
    by (simp add: ex rd ld c1 p1 c2 p2 del: py_contains.simps py_pop.simps)
qed

text \<open>
  The loader of one user's composite document, \<^verbatim>\<open>load_user_profile\<close> (lines 103--130), which
  \<^verbatim>\<open>load_data\<close> does not call, never returns a mapping that holds the key \<^verbatim>\<open>relationship\<close>
  or \<^verbatim>\<open>interaction_stats\<close>. For every directory state in which \<^verbatim>\<open><user_id>.json\<close> is a JSON
  object with a \<^verbatim>\<open>relationship\<close> member \<open>r\<close> and an \<^verbatim>\<open>interaction_stats\<close> object \<open>c\<close>, it
  returns that object without the two members, stores \<open>r\<close> as the user's entry of the
  relationship container and \<open>c\<close> as the user's entry of the interaction-stats container,
  and changes nothing else; it does not store what it returns.
\<close>

theorem load_user_profile_splits_document:
  "(\<forall>d'. fst (load_user_profile sm fs uid em) = PDict d' \<longrightarrow>
       ''relationship'' \<notin> set (map fst d') \<and> ''interaction_stats'' \<notin> set (map fst d')) \<and>
   (map_of (files fs) (profiles_dir sm, str_int uid @ ''.json'') = Some (Json (PDict d)) \<and>
    map_of d ''relationship'' = Some r \<and> map_of d ''interaction_stats'' = Some (PDict c) \<longrightarrow>
       load_user_profile sm fs uid em =
         (PDict (AList.delete ''interaction_stats'' (AList.delete ''relationship'' d)),
          em\<lparr>relationship_progress := AList.update uid r (relationship_progress em),
             interaction_stats := AList.update uid c (interaction_stats em)\<rparr>))"
  using load_user_profile_no_subdocument_keys load_user_profile_of_document by blast

lemma str_int_42: "str_int 42 = ''42''"
  by code_simp

text \<open>
  \<^verbatim>\<open>load_user_profile\<close> at the document \<^verbatim>\<open>42.json\<close> of the scenario: the emotion mapping
  \<^verbatim>\<open>{"mood": "happy"}\<close>, the relationship \<^verbatim>\<open>{"trust": 5}\<close> and the counts \<^verbatim>\<open>{"greet": 3}\<close>.
\<close>

theorem load_user_profile_splits_document_witness:
  "load_user_profile sm0 fs42 42 em_empty =
     (PDict [(''mood'', PStr ''happy'')],
      em_empty\<lparr>relationship_progress := [(42, PDict [(''trust'', PInt 5)])],
               interaction_stats := [(42, [(''greet'', PInt 3)])]\<rparr>)"
proof -
  have a: "map_of (files fs42) (profiles_dir sm0, str_int 42 @ ''.json'') = Some (Json (PDict doc42))"
    by (simp add: fs42_def sm0_def str_int_42)
  have b: "map_of doc42 ''relationship'' = Some (PDict [(''trust'', PInt 5)])"
          "map_of doc42 ''interaction_stats'' = Some (PDict [(''greet'', PInt 3)])"
    by (simp_all add: doc42_def)
  have c: "AList.delete ''interaction_stats'' (AList.delete ''relationship'' doc42)
      = [(''mood'', PStr ''happy'')]"
    by (simp add: doc42_def)
  have d: "AList.update 42 r (relationship_progress em_empty) = [(42, r)]"
          "AList.update 42 s (interaction_stats em_empty) = [(42, s)]" for r s
    by (simp_all add: em_empty_def)
  from load_user_profile_splits_document
    [of sm0 fs42 42 em_empty doc42 "PDict [(''trust'', PInt 5)]" "[(''greet'', PInt 3)]"] a b
  have "load_user_profile sm0 fs42 42 em_empty =
         (PDict (AList.delete ''interaction_stats'' (AList.delete ''relationship'' doc42)),
          em_empty\<lparr>relationship_progress :=
                      AList.update 42 (PDict [(''trust'', PInt 5)]) (relationship_progress em_empty),
             interaction_stats := AList.update 42 [(''greet'', PInt 3)] (interaction_stats em_empty)\<rparr>)"
    by blast
  then show ?thesis by (simp only: c d)
qed

text \<open>
  C4 at three profile files of which the second is malformed: \<^verbatim>\<open>load_data\<close> does not
  complete. Line 301 raises \<^verbatim>\<open>NameError\<close> before any file is read, and the emotion
  container is left empty.
\<close>

theorem load_data_three_files_name_error:
  "returned (load_data reliable sm0 fs_three em_empty ConversationManager_init) = Inl NameError \<and>
   user_emotions (em_after (load_data reliable sm0 fs_three em_empty ConversationManager_init)) = []"
  by (simp add: load_data_def load_data_in_def storage_module_names_def)

text \<open>
  In the module as it is, every call of \<^verbatim>\<open>load_data\<close> ends in that \<^verbatim>\<open>NameError\<close>: only
  \<^verbatim>\<open>user_emotions\<close> has been emptied, nothing has been read.
\<close>

theorem load_data_raises_name_error:
  "returned (load_data e sm fs em cm) = Inl NameError \<and>
   em_after (load_data e sm fs em cm) = em\<lparr>user_emotions := []\<rparr> \<and>
   cm_after (load_data e sm fs em cm) = cm \<and>
   fs_after (load_data e sm fs em cm) = fs"
  by (simp add: load_data_def load_data_in_def storage_module_names_def)

text \<open>
  The body of \<^verbatim>\<open>load_data\<close> in a namespace that binds \<^verbatim>\<open>defaultdict\<close>, at the same three
  files: the scan goes past the malformed file, loads the two others and counts one
  error. The value returned is \<open>False\<close> all the same.
\<close>

theorem load_scan_isolates_malformed_file:
  "returned (load_data_in (''defaultdict'' # storage_module_names) reliable sm0 fs_three em_empty
      ConversationManager_init) = Inr False \<and>
   profiles_loaded (load_data_in (''defaultdict'' # storage_module_names) reliable sm0 fs_three em_empty
      ConversationManager_init) = 2 \<and>
   profile_errors (load_data_in (''defaultdict'' # storage_module_names) reliable sm0 fs_three em_empty
      ConversationManager_init) = 1 \<and>
   user_emotions (em_after (load_data_in (''defaultdict'' # storage_module_names) reliable sm0 fs_three
      em_empty ConversationManager_init)) =
     [(1, PDict [(''mood'', PStr ''calm''), (''first_interaction'', PStr ''now'')]),
      (3, PDict [(''mood'', PStr ''wary''), (''first_interaction'', PStr ''now'')])]"
  by code_simp

text \<open>
  C3 at a directory that holds the one valid composite document \<^verbatim>\<open>42.json\<close> and nothing
  else: \<^verbatim>\<open>load_data\<close> raises \<^verbatim>\<open>NameError\<close> instead of returning success. In a namespace that
  binds \<^verbatim>\<open>defaultdict\<close> it returns \<open>False\<close> although one composite document was decoded,
  because the \<^verbatim>\<open>profile_count\<close> it tests has been reset for the scan of user profiles.
\<close>

theorem load_data_single_profile_no_success:
  "returned (load_data reliable sm0 fs42 em_empty ConversationManager_init) = Inl NameError \<and>
   returned (load_data_in (''defaultdict'' # storage_module_names) reliable sm0 fs42 em_empty
      ConversationManager_init) = Inr False \<and>
   profiles_loaded (load_data_in (''defaultdict'' # storage_module_names) reliable sm0 fs42 em_empty
      ConversationManager_init) = 1"
  by code_simp

text \<open>
  C1 at the spec's own scenario, the single composite document \<^verbatim>\<open>42.json\<close>. In the module
  as it is, \<^verbatim>\<open>load_data\<close> raises at line 301 and user 42 has no emotion entry. In a
  namespace that binds \<^verbatim>\<open>defaultdict\<close>, the entry is the whole document: line 327 stores
  it, and lines 331 and 335 read the two sub-documents with \<^verbatim>\<open>get\<close>, where
  \<^verbatim>\<open>load_user_profile\<close> takes them out with \<^verbatim>\<open>pop\<close>; so \<^verbatim>\<open>relationship\<close> and
  \<^verbatim>\<open>interaction_stats\<close> remain in the emotion mapping, beside the backfilled
  \<^verbatim>\<open>first_interaction\<close>. The relationship and the counts do reach their containers.
\<close>

theorem load_data_does_not_split_document:
  "map_of (user_emotions (em_after (load_data reliable sm0 fs42 em_empty ConversationManager_init))) 42
     = None \<and>
   map_of (user_emotions (em_after (load_data_in (''defaultdict'' # storage_module_names) reliable sm0
      fs42 em_empty ConversationManager_init))) 42
     = Some (PDict [(''mood'', PStr ''happy''),
                    (''relationship'', PDict [(''trust'', PInt 5)]),
                    (''interaction_stats'', PDict [(''greet'', PInt 3)]),
                    (''first_interaction'', PStr ''now'')]) \<and>
   map_of (relationship_progress (em_after (load_data_in (''defaultdict'' # storage_module_names)
      reliable sm0 fs42 em_empty ConversationManager_init))) 42
     = Some (PDict [(''trust'', PInt 5)]) \<and>
   map_of (interaction_stats (em_after (load_data_in (''defaultdict'' # storage_module_names)
      reliable sm0 fs42 em_empty ConversationManager_init))) 42
     = Some [(''greet'', PInt 3)]"
  by code_simp
section \<open>Saving\<close>

lemma write_text_dirs: "dirs (snd (write_text e fs p t)) = dirs fs"
  by (simp add: write_text_def split: write_outcome.splits)

lemma replace_dirs: "dirs (snd (replace e fs a b)) = dirs fs"
  by (simp add: replace_def split: option.splits)

lemma replace_other:
  "q \<noteq> a \<Longrightarrow> q \<noteq> b \<Longrightarrow> map_of (files (snd (replace e fs a b))) q = map_of (files fs) q"
  by (simp add: replace_def AList.update_conv' AList.delete_conv' split: option.splits)

lemma unchanged_but_refl: "unchanged_but W fs fs"
  by (simp add: unchanged_but_def)

lemma unchanged_but_trans:
  "unchanged_but W fs fs1 \<Longrightarrow> unchanged_but W' fs1 fs2 \<Longrightarrow> unchanged_but (W \<union> W') fs fs2"
  by (simp add: unchanged_but_def)

lemma unchanged_but_mono: "unchanged_but W fs fs' \<Longrightarrow> W \<subseteq> W' \<Longrightarrow> unchanged_but W' fs fs'"
  by (auto simp: unchanged_but_def)

lemma save_file_run_frame:
  "\<forall>s \<in> set (snd (save_file_run e fs p v)).
      unchanged_but {p, temp_of p} fs s \<and> dirs s = dirs fs"
proof (cases "with_suffix (snd p) ''.tmp''")
  case (Inl err)
  then show ?thesis by (simp add: save_file_run_def unchanged_but_refl)
next
  case (Inr tn)
  then have tn: "tn = stem (snd p) @ ''.tmp''"
    by (auto simp: with_suffix_def split: if_splits)
  let ?temp = "(fst p, tn)"
  let ?W = "{p, ?temp}"
  show ?thesis
  proof (cases "json_dumps v")
    case (Inl err)
    then show ?thesis using Inr by (simp add: save_file_run_def unchanged_but_refl)
  next
    case d: (Inr t)
    obtain r fs1 where w: "write_text e fs ?temp t = (r, fs1)" by (cases "write_text e fs ?temp t")
    have d1: "dirs fs1 = dirs fs" using write_text_dirs [of e fs ?temp t] w by simp
    have d2: "dirs fs2 = dirs fs" if "replace e fs1 ?temp p = (r2, fs2)" for r2 fs2
      using replace_dirs [of e fs1 ?temp p] that d1 by simp
    have u1: "unchanged_but ?W fs fs1"
      using write_text_other [of _ ?temp e fs t] w
      by (simp add: unchanged_but_def)
    obtain r2 fs2 where rp: "replace e fs1 ?temp p = (r2, fs2)" by (cases "replace e fs1 ?temp p")
    have "unchanged_but ?W fs1 fs2"
      using replace_other [of _ ?temp p e fs1] rp
      by (simp add: unchanged_but_def)
    with u1 have u2: "unchanged_but ?W fs fs2"
      using unchanged_but_trans [of ?W fs fs1 ?W fs2] by simp
    have "set (snd (save_file_run e fs p v)) \<subseteq> {fs, fs1, fs2}"
      using Inr d w rp
      by (cases r; cases r2; cases "file_exists fs1 ?temp") (simp_all add: save_file_run_def Let_def)
    then show ?thesis using u1 u2 unchanged_but_refl [of ?W fs] tn d1 d2 [OF rp]
      by (auto simp: temp_of_def)
  qed
qed

lemma save_file_run_nonempty: "snd (save_file_run e fs p v) \<noteq> []"
  by (auto simp: save_file_run_def Let_def split: sum.splits prod.splits option.splits)

lemma save_file_frame:
  "unchanged_but {p, temp_of p} fs (snd (save_file e fs p v)) \<and>
   dirs (snd (save_file e fs p v)) = dirs fs"
proof -
  have "last (snd (save_file_run e fs p v)) \<in> set (snd (save_file_run e fs p v))"
    using save_file_run_nonempty by simp
  then show ?thesis using save_file_run_frame by (simp add: save_file_def Let_def)
qed


lemma save_if_present_frame:
  "unchanged_but {p, temp_of p} fs (snd (save_if_present e fs p c u)) \<and>
   dirs (snd (save_if_present e fs p c u)) = dirs fs"
proof (cases "map_of c u")
  case None
  then show ?thesis by (simp add: save_if_present_def unchanged_but_refl)
next
  case (Some v)
  show ?thesis
  proof (cases "truthy v")
    case False
    with Some show ?thesis by (simp add: save_if_present_def unchanged_but_refl)
  next
    case True
    obtain b fs1 where sf: "save_file e fs p v = (b, fs1)" by (cases "save_file e fs p v")
    with save_file_frame [of p fs e v]
    have f: "unchanged_but {p, temp_of p} fs fs1 \<and> dirs fs1 = dirs fs" by simp
    have "snd (save_if_present e fs p c u) = fs1"
      using Some True sf by (cases b; cases "py_len v") (simp_all add: save_if_present_def)
    with f show ?thesis by simp
  qed
qed

lemma mkdir_chain_fs:
  "files (snd (mkdir_chain e fs l)) = files fs \<and>
   set (dirs fs) \<subseteq> set (dirs (snd (mkdir_chain e fs l)))"
  by (induction l) (auto simp: os_mkdir_def split: prod.splits option.splits)

lemma mkdir_chain_made:
  "fst (mkdir_chain e fs (d # ps)) = None \<Longrightarrow> dir_exists (snd (mkdir_chain e fs (d # ps))) d"
  by (auto simp: os_mkdir_def dir_exists_def split: prod.splits option.splits if_splits)

lemma mkdir_chain_mono:
  "fst (mkdir_chain e fs l) = None \<Longrightarrow> set (dirs fs) \<subseteq> set (dirs fs') \<Longrightarrow>
   fst (mkdir_chain e fs' l) = None"
proof (induction l)
  case Nil
  then show ?case by simp
next
  case (Cons d ps)
  show ?case
  proof (cases "dir_exists fs' d")
    case True
    then show ?thesis by simp
  next
    case False
    with Cons.prems(2) have nd: "\<not> dir_exists fs d" by (auto simp: dir_exists_def)
    with Cons.prems(1) have a: "fst (mkdir_chain e fs ps) = None" and b: "mkdir_ok e d"
      by (auto simp: os_mkdir_def split: prod.splits option.splits if_splits)
    from Cons.IH [OF a Cons.prems(2)] have "fst (mkdir_chain e fs' ps) = None" .
    with False b show ?thesis
      by (auto simp: os_mkdir_def split: prod.splits option.splits)
  qed
qed

lemma mkdir_succeeds:
  "can_make e fs d \<Longrightarrow> mkdir e fs d = (None, snd (mkdir e fs d))"
  by (cases "mkdir e fs d") (simp add: can_make_def)

lemma mkdir_fails:
  "\<not> can_make e fs d \<Longrightarrow> \<exists>err. mkdir e fs d = (Some err, snd (mkdir e fs d))"
  by (cases "mkdir e fs d") (auto simp: can_make_def)

lemma mkdir_fs:
  "unchanged_but W fs (snd (mkdir e fs d)) \<and> set (dirs fs) \<subseteq> set (dirs (snd (mkdir e fs d))) \<and>
   (can_make e fs d \<longrightarrow> dir_exists (snd (mkdir e fs d)) d)"
  using mkdir_chain_fs [of e fs "d # ancestors d"] mkdir_chain_made [of e fs d "ancestors d"]
  by (simp add: mkdir_def unchanged_but_def can_make_def)


text \<open>
  On a tree without any directory, making the emotional-profiles directory makes its
  ancestors too, so the DM settings can then be written into the data directory; when
  the second directory on the way is refused, the first one stays.
\<close>

lemma mkdir_makes_parents:
  "mkdir reliable fs_bare ''data/users/profiles'' =
     (None, \<lparr>dirs = [''data/users/profiles'', ''data/users'', ''data''], files = []\<rparr>) \<and>
   fst (save_data reliable sm0 fs_bare em42 None) \<and>
   mkdir (reliable\<lparr>mkdir_ok := (\<lambda>d. d = ''data'')\<rparr>) fs_bare ''data/users/profiles'' =
     (Some OSError, \<lparr>dirs = [''data''], files = []\<rparr>)"
  by code_simp

lemma save_if_present_error:
  "save_if_present e fs p c u = (Some err, fs') \<Longrightarrow>
   \<exists>v. map_of c u = Some v \<and> truthy v \<and> py_len v = Inl err"
  by (auto simp: save_if_present_def split: option.splits if_splits prod.splits bool.splits sum.splits)

lemma save_user_profile_fails:
  "\<not> can_make e fs (profiles_dir sm) \<or>
   (\<forall>d. (case map_of (user_emotions em) u of None \<Rightarrow> PDict [] | Some v \<Rightarrow> v) \<noteq> PDict d) \<Longrightarrow>
   save_user_profile e sm fs u em = (False, snd (mkdir e fs (profiles_dir sm)), em)"
proof (cases "can_make e fs (profiles_dir sm)")
  case False
  from mkdir_fails [OF False] obtain err where
    m: "mkdir e fs (profiles_dir sm) = (Some err, snd (mkdir e fs (profiles_dir sm)))" by blast
  show ?thesis
    unfolding save_user_profile_def
    apply (subst m)
    apply simp
    done
next
  case True
  assume "\<not> can_make e fs (profiles_dir sm) \<or>
   (\<forall>d. (case map_of (user_emotions em) u of None \<Rightarrow> PDict [] | Some v \<Rightarrow> v) \<noteq> PDict d)"
  with True have nd: "\<forall>d. (case map_of (user_emotions em) u of None \<Rightarrow> PDict [] | Some v \<Rightarrow> v) \<noteq> PDict d"
    by simp
  have m: "mkdir e fs (profiles_dir sm) = (None, snd (mkdir e fs (profiles_dir sm)))"
    using True by (rule mkdir_succeeds)
  show ?thesis
    unfolding save_user_profile_def
    apply (subst m)
    using nd by (cases "(case map_of (user_emotions em) u of None \<Rightarrow> PDict [] | Some v \<Rightarrow> v)") simp_all
qed

lemma save_user_profile_dict:
  assumes c: "can_make e fs (profiles_dir sm)"
    and d: "(case map_of (user_emotions em) u of None \<Rightarrow> PDict [] | Some v \<Rightarrow> v) = PDict d"
  shows "\<exists>b fs'. save_user_profile e sm fs u em =
           (b, fs',
            if u \<in> set (map fst (user_emotions em))
            then em\<lparr>user_emotions :=
                     AList.update u (PDict (composite_document em u d)) (user_emotions em)\<rparr>
            else em) \<and>
          unchanged_but (with_temps (profile_paths sm u)) fs fs' \<and>
          set (dirs fs) \<subseteq> set (dirs fs') \<and> dir_exists fs' (profiles_dir sm) \<and>
          dirs fs' = dirs (snd (mkdir e fs (profiles_dir sm))) \<and>
          (\<not> b \<longrightarrow> (\<exists>v. (map_of (user_memories em) u = Some v \<or> map_of (user_events em) u = Some v \<or>
                          map_of (user_milestones em) u = Some v) \<and> truthy v \<and> py_len v = Inl TypeError))"
proof -
  let ?pd = "profiles_dir sm"
  define fs0 where "fs0 = snd (mkdir e fs ?pd)"
  define em1 where "em1 = (if u \<in> set (map fst (user_emotions em))
            then em\<lparr>user_emotions :=
                     AList.update u (PDict (composite_document em u d)) (user_emotions em)\<rparr>
            else em)"
  let ?p1 = "(?pd, str_int u @ ''.json'')"
  let ?p2 = "(?pd, str_int u @ ''_memories.json'')"
  let ?p3 = "(?pd, str_int u @ ''_events.json'')"
  let ?p4 = "(?pd, str_int u @ ''_milestones.json'')"
  let ?W = "with_temps (profile_paths sm u)"
  define fs1 where "fs1 = snd (save_file e fs0 ?p1 (PDict (composite_document em u d)))"
  obtain r2 fs2 where s2: "save_if_present e fs1 ?p2 (user_memories em1) u = (r2, fs2)"
    by (cases "save_if_present e fs1 ?p2 (user_memories em1) u")
  obtain r3 fs3 where s3: "save_if_present e fs2 ?p3 (user_events em1) u = (r3, fs3)"
    by (cases "save_if_present e fs2 ?p3 (user_events em1) u")
  obtain r4 fs4 where s4: "save_if_present e fs3 ?p4 (user_milestones em1) u = (r4, fs4)"
    by (cases "save_if_present e fs3 ?p4 (user_milestones em1) u")
  have m: "mkdir e fs ?pd = (None, fs0)"
    unfolding fs0_def using c by (rule mkdir_succeeds)
  have eq: "save_user_profile e sm fs u em =
      (case r2 of Some err \<Rightarrow> (False, fs2, em1)
       | None \<Rightarrow> (case r3 of Some err \<Rightarrow> (False, fs3, em1)
                  | None \<Rightarrow> (case r4 of Some err \<Rightarrow> (False, fs4, em1) | None \<Rightarrow> (True, fs4, em1))))"
    unfolding save_user_profile_def Let_def
    apply (simp only: m d prod.case option.case pyval.case)
    apply (simp only: em1_def [symmetric])
    apply (simp only: fs1_def [symmetric])
    apply (simp only: s2 s3 s4 prod.case)
    done
  have sub: "{p, temp_of p} \<subseteq> ?W" if "p \<in> set (profile_paths sm u)" for p
    using that by (auto simp: with_temps_def)
  have in1: "?p1 \<in> set (profile_paths sm u)" "?p2 \<in> set (profile_paths sm u)"
    "?p3 \<in> set (profile_paths sm u)" "?p4 \<in> set (profile_paths sm u)"
    by (simp_all add: profile_paths_def)
  have f0: "unchanged_but ?W fs fs0" "set (dirs fs) \<subseteq> set (dirs fs0)" "dir_exists fs0 ?pd"
    using mkdir_fs [of ?W fs e ?pd] c by (simp_all add: fs0_def)
  have f1: "unchanged_but ?W fs0 fs1" "dirs fs1 = dirs fs0"
    using save_file_frame [of ?p1 fs0 e] unchanged_but_mono [OF _ sub [OF in1(1)]]
    by (auto simp: fs1_def)
  have f2: "unchanged_but ?W fs1 fs2" "dirs fs2 = dirs fs1"
    using save_if_present_frame [of ?p2 fs1 e "user_memories em1" u] s2
      unchanged_but_mono [OF _ sub [OF in1(2)]] by auto
  have f3: "unchanged_but ?W fs2 fs3" "dirs fs3 = dirs fs2"
    using save_if_present_frame [of ?p3 fs2 e "user_events em1" u] s3
      unchanged_but_mono [OF _ sub [OF in1(3)]] by auto
  have f4: "unchanged_but ?W fs3 fs4" "dirs fs4 = dirs fs3"
    using save_if_present_frame [of ?p4 fs3 e "user_milestones em1" u] s4
      unchanged_but_mono [OF _ sub [OF in1(4)]] by auto
  have u2: "unchanged_but ?W fs fs2"
    using f0(1) f1(1) f2(1) by (simp add: unchanged_but_def)
  have u3: "unchanged_but ?W fs fs3" using u2 f3(1) by (simp add: unchanged_but_def)
  have u4: "unchanged_but ?W fs fs4" using u3 f4(1) by (simp add: unchanged_but_def)
  have dd: "dirs fs2 = dirs fs0" "dirs fs3 = dirs fs0" "dirs fs4 = dirs fs0"
    using f1(2) f2(2) f3(2) f4(2) by simp_all
  have cont: "user_memories em1 = user_memories em" "user_events em1 = user_events em"
    "user_milestones em1 = user_milestones em"
    by (simp_all add: em1_def)
  have e2: "r2 = Some err \<Longrightarrow> \<exists>v. map_of (user_memories em) u = Some v \<and> truthy v \<and> py_len v = Inl err" for err
    using save_if_present_error [of e fs1 ?p2 "user_memories em1" u err fs2] s2 cont by simp
  have e3: "r3 = Some err \<Longrightarrow> \<exists>v. map_of (user_events em) u = Some v \<and> truthy v \<and> py_len v = Inl err" for err
    using save_if_present_error [of e fs2 ?p3 "user_events em1" u err fs3] s3 cont by simp
  have e4: "r4 = Some err \<Longrightarrow> \<exists>v. map_of (user_milestones em) u = Some v \<and> truthy v \<and> py_len v = Inl err" for err
    using save_if_present_error [of e fs3 ?p4 "user_milestones em1" u err fs4] s4 cont by simp
  have te: "py_len v = Inl err \<Longrightarrow> err = TypeError" for v err
    by (cases v) auto
  show ?thesis
  proof (cases r2)
    case (Some err)
    with eq have "save_user_profile e sm fs u em = (False, fs2, em1)" by simp
    moreover from e2 [OF Some] te obtain v where
      "map_of (user_memories em) u = Some v" "truthy v" "py_len v = Inl TypeError" by blast
    ultimately show ?thesis using u2 f0 dd by (auto simp: em1_def dir_exists_def fs0_def)
  next
    case n2: None
    show ?thesis
    proof (cases r3)
      case (Some err)
      with eq n2 have "save_user_profile e sm fs u em = (False, fs3, em1)" by simp
      moreover from e3 [OF Some] te obtain v where
        "map_of (user_events em) u = Some v" "truthy v" "py_len v = Inl TypeError" by blast
      ultimately show ?thesis using u3 f0 dd by (auto simp: em1_def dir_exists_def fs0_def)
    next
      case n3: None
      show ?thesis
      proof (cases r4)
        case (Some err)
        with eq n2 n3 have "save_user_profile e sm fs u em = (False, fs4, em1)" by simp
        moreover from e4 [OF Some] te obtain v where
          "map_of (user_milestones em) u = Some v" "truthy v" "py_len v = Inl TypeError" by blast
        ultimately show ?thesis using u4 f0 dd by (auto simp: em1_def dir_exists_def fs0_def)
      next
        case None
        with eq n2 n3 have "save_user_profile e sm fs u em = (True, fs4, em1)" by simp
        then show ?thesis using u4 f0 dd by (auto simp: em1_def dir_exists_def fs0_def)
      qed
    qed
  qed
qed

lemma composite_lookup:
  "map_of (composite_document em u d) ''relationship'' =
     Some (case map_of (relationship_progress em) u of None \<Rightarrow> PDict [] | Some r \<Rightarrow> r)"
  "map_of (composite_document em u d) ''interaction_stats'' =
     Some (PDict (case map_of (interaction_stats em) u of None \<Rightarrow> [] | Some c \<Rightarrow> c))"
  "k \<noteq> ''relationship'' \<Longrightarrow> k \<noteq> ''interaction_stats'' \<Longrightarrow>
     map_of (composite_document em u d) k = map_of d k"
  by (simp_all add: composite_document_def AList.update_conv')

lemma composite_idem:
  "composite_document em u (composite_document em u d) = composite_document em u d"
proof -
  let ?r = "case map_of (relationship_progress em) u of None \<Rightarrow> PDict [] | Some r \<Rightarrow> r"
  let ?s = "PDict (case map_of (interaction_stats em) u of None \<Rightarrow> [] | Some c \<Rightarrow> c)"
  let ?c = "composite_document em u d"
  have 1: "AList.update ''relationship'' ?r ?c = ?c"
    by (rule AList.update_triv) (rule composite_lookup(1))
  have 2: "AList.update ''interaction_stats'' ?s ?c = ?c"
    by (rule AList.update_triv) (rule composite_lookup(2))
  have "composite_document em u ?c =
      AList.update ''interaction_stats'' ?s (AList.update ''relationship'' ?r ?c)"
    by (simp only: composite_document_def)
  then show ?thesis by (simp only: 1 2)
qed

lemma composed_from_refl: "composed_from em em"
  by (simp add: composed_from_def)

lemma composed_from_containers:
  "composed_from em em' \<Longrightarrow>
   relationship_progress em' = relationship_progress em \<and>
   interaction_stats em' = interaction_stats em \<and>
   user_memories em' = user_memories em \<and> user_events em' = user_events em \<and>
   user_milestones em' = user_milestones em \<and> dm_enabled_users em' = dm_enabled_users em"
proof -
  assume "composed_from em em'"
  then have e: "em'\<lparr>user_emotions := user_emotions em\<rparr> = em" by (simp add: composed_from_def)
  show ?thesis
    using arg_cong [OF e, of relationship_progress] arg_cong [OF e, of interaction_stats]
      arg_cong [OF e, of user_memories] arg_cong [OF e, of user_events]
      arg_cong [OF e, of user_milestones] arg_cong [OF e, of dm_enabled_users]
    by simp
qed

lemma composite_cong:
  "composed_from em em' \<Longrightarrow> composite_document em' u d = composite_document em u d"
  using composed_from_containers [of em em'] by (simp add: composite_document_def)


lemma update_keys_present:
  "k \<in> fst ` set al \<Longrightarrow> map fst (AList.update k v al) = map fst al"
  by (simp add: AList.update_keys)

lemma save_user_profile_dict_em:
  assumes c: "can_make e fs (profiles_dir sm)"
    and d: "(case map_of (user_emotions em) u of None \<Rightarrow> PDict [] | Some v \<Rightarrow> v) = PDict d"
  shows "snd (snd (save_user_profile e sm fs u em)) =
           (if u \<in> fst ` set (user_emotions em)
            then em\<lparr>user_emotions :=
                     AList.update u (PDict (composite_document em u d)) (user_emotions em)\<rparr>
            else em)"
proof -
  from save_user_profile_dict [OF c d] obtain b fs' where
    "save_user_profile e sm fs u em =
           (b, fs',
            if u \<in> set (map fst (user_emotions em))
            then em\<lparr>user_emotions :=
                     AList.update u (PDict (composite_document em u d)) (user_emotions em)\<rparr>
            else em)"
    by blast
  then show ?thesis by simp
qed

lemma save_user_profile_em_cases:
  "snd (snd (save_user_profile e sm fs u em')) = em' \<or>
   (can_make e fs (profiles_dir sm) \<and>
    (\<exists>d. map_of (user_emotions em') u = Some (PDict d) \<and>
         snd (snd (save_user_profile e sm fs u em')) =
           em'\<lparr>user_emotions :=
                 AList.update u (PDict (composite_document em' u d)) (user_emotions em')\<rparr>))"
proof (cases "can_make e fs (profiles_dir sm) \<and>
    (\<exists>d. (case map_of (user_emotions em') u of None \<Rightarrow> PDict [] | Some v \<Rightarrow> v) = PDict d)")
  case False
  then have "save_user_profile e sm fs u em' = (False, snd (mkdir e fs (profiles_dir sm)), em')"
    using save_user_profile_fails [of e fs sm em' u] by blast
  then show ?thesis by simp
next
  case True
  then obtain d where c: "can_make e fs (profiles_dir sm)"
    and d: "(case map_of (user_emotions em') u of None \<Rightarrow> PDict [] | Some v \<Rightarrow> v) = PDict d"
    by blast
  note r = save_user_profile_dict_em [OF c d]
  show ?thesis
  proof (cases "map_of (user_emotions em') u")
    case None
    then have "u \<notin> fst ` set (user_emotions em')" by (simp add: map_of_eq_None_iff)
    with r show ?thesis by simp
  next
    case (Some v)
    with d have v: "v = PDict d" by simp
    from Some have "u \<in> fst ` set (user_emotions em')" by (rule map_of_Some_key)
    with r Some v c show ?thesis by simp
  qed
qed

lemma save_user_profile_em_dict:
  assumes c: "can_make e fs (profiles_dir sm)"
    and d: "map_of (user_emotions em') u = Some (PDict d)"
  shows "snd (snd (save_user_profile e sm fs u em')) =
           em'\<lparr>user_emotions :=
                 AList.update u (PDict (composite_document em' u d)) (user_emotions em')\<rparr>"
proof -
  from d have d': "(case map_of (user_emotions em') u of None \<Rightarrow> PDict [] | Some v \<Rightarrow> v) = PDict d"
    by simp
  from d have "u \<in> fst ` set (user_emotions em')" by (rule map_of_Some_key)
  with save_user_profile_dict_em [OF c d'] show ?thesis by simp
qed

lemma composed_from_step:
  assumes cf: "composed_from em em'"
  shows "composed_from em (snd (snd (save_user_profile e sm fs u em'))) \<and>
         composed_users em em' \<subseteq> composed_users em (snd (snd (save_user_profile e sm fs u em'))) \<and>
         (can_make e fs (profiles_dir sm) \<longrightarrow>
            u \<in> composed_users em (snd (snd (save_user_profile e sm fs u em'))))"
proof -
  let ?em'' = "snd (snd (save_user_profile e sm fs u em'))"
  have same: "em'\<lparr>user_emotions := user_emotions em\<rparr> = em"
    and keys: "map fst (user_emotions em') = map fst (user_emotions em)"
    and alt: "\<And>w v. map_of (user_emotions em) w = Some v \<Longrightarrow>
         map_of (user_emotions em') w = Some v \<or>
         (\<exists>d. v = PDict d \<and> map_of (user_emotions em') w = Some (PDict (composite_document em w d)))"
    using cf by (auto simp: composed_from_def)
  have cur: "\<And>w d. map_of (user_emotions em) w = Some (PDict d) \<Longrightarrow>
       \<exists>d'. map_of (user_emotions em') w = Some (PDict d') \<and>
            composite_document em w d' = composite_document em w d"
    using alt composite_idem by blast
  have upd: "\<And>d'. map_of (user_emotions em') u = Some (PDict d') \<Longrightarrow>
       can_make e fs (profiles_dir sm) \<Longrightarrow>
       ?em'' = em'\<lparr>user_emotions :=
                 AList.update u (PDict (composite_document em u d')) (user_emotions em')\<rparr>"
    using save_user_profile_em_dict [of e fs sm em' u] composite_cong [OF cf] by simp
  show ?thesis
  proof (cases "?em'' = em'")
    case True
    have "can_make e fs (profiles_dir sm) \<longrightarrow> u \<in> composed_users em em'"
    proof
      assume c: "can_make e fs (profiles_dir sm)"
      show "u \<in> composed_users em em'"
        unfolding composed_users_def
      proof (intro CollectI allI impI)
        fix d assume o: "map_of (user_emotions em) u = Some (PDict d)"
        from cur [OF o] obtain d' where d': "map_of (user_emotions em') u = Some (PDict d')"
          "composite_document em u d' = composite_document em u d" by blast
        from upd [OF d'(1) c] True have "map_of (user_emotions em') u =
            Some (PDict (composite_document em u d'))"
          by (metis AList.update_conv' emotion_manager.select_convs(1)
              emotion_manager.surjective emotion_manager.update_convs(1) fun_upd_same)
        with d'(2) show "map_of (user_emotions em') u = Some (PDict (composite_document em u d))"
          by simp
      qed
    qed
    with True cf show ?thesis by simp
  next
    case False
    with save_user_profile_em_cases [of e sm fs u em'] obtain d' where
      c: "can_make e fs (profiles_dir sm)" and
      d': "map_of (user_emotions em') u = Some (PDict d')" and
      e'': "?em'' = em'\<lparr>user_emotions :=
                 AList.update u (PDict (composite_document em' u d')) (user_emotions em')\<rparr>"
      by blast
    have e2: "?em'' = em'\<lparr>user_emotions :=
                 AList.update u (PDict (composite_document em u d')) (user_emotions em')\<rparr>"
      using e'' composite_cong [OF cf] by simp
    have look: "map_of (user_emotions ?em'') w =
        (if w = u then Some (PDict (composite_document em u d')) else map_of (user_emotions em') w)" for w
      by (simp add: e2 AList.update_conv')
    have uin: "u \<in> fst ` set (user_emotions em')" using d' by (rule map_of_Some_key)
    have k2: "map fst (user_emotions ?em'') = map fst (user_emotions em)"
      using keys update_keys_present [OF uin] by (simp add: e2)
    have s2: "?em''\<lparr>user_emotions := user_emotions em\<rparr> = em"
      using same by (simp add: e2)
    have orig: "\<And>d. map_of (user_emotions em) u = Some (PDict d) \<Longrightarrow>
        composite_document em u d' = composite_document em u d"
      using cur d' by fastforce
    have a2: "\<And>w v. map_of (user_emotions em) w = Some v \<Longrightarrow>
         map_of (user_emotions ?em'') w = Some v \<or>
         (\<exists>d. v = PDict d \<and> map_of (user_emotions ?em'') w = Some (PDict (composite_document em w d)))"
    proof -
      fix w v assume o: "map_of (user_emotions em) w = Some v"
      show "map_of (user_emotions ?em'') w = Some v \<or>
         (\<exists>d. v = PDict d \<and> map_of (user_emotions ?em'') w = Some (PDict (composite_document em w d)))"
      proof (cases "w = u")
        case False
        then show ?thesis using alt [OF o] look by simp
      next
        case True
        from alt [OF o] True d' obtain d where v: "v = PDict d" by auto
        with o True orig have "composite_document em u d' = composite_document em u d" by simp
        with True v look show ?thesis by simp
      qed
    qed
    have cf2: "composed_from em ?em''"
      unfolding composed_from_def using s2 k2 a2 by blast
    have mono: "composed_users em em' \<subseteq> composed_users em ?em''"
    proof
      fix w assume w: "w \<in> composed_users em em'"
      show "w \<in> composed_users em ?em''"
        unfolding composed_users_def
      proof (intro CollectI allI impI)
        fix d assume o: "map_of (user_emotions em) w = Some (PDict d)"
        show "map_of (user_emotions ?em'') w = Some (PDict (composite_document em w d))"
        proof (cases "w = u")
          case True
          with o orig look show ?thesis by simp
        next
          case False
          with w o look show ?thesis by (simp add: composed_users_def)
        qed
      qed
    qed
    have uc: "u \<in> composed_users em ?em''"
      unfolding composed_users_def using orig look by simp
    from cf2 mono uc show ?thesis by simp
  qed
qed


lemma unchanged_butD:
  "unchanged_but W fs fs' \<Longrightarrow> q \<notin> W \<Longrightarrow> map_of (files fs') q = map_of (files fs) q"
  by (simp add: unchanged_but_def del: split_paired_All)

lemma unchanged_but_step:
  "unchanged_but W fs fs1 \<Longrightarrow> unchanged_but W' fs1 fs2 \<Longrightarrow> W \<subseteq> V \<Longrightarrow> W' \<subseteq> V \<Longrightarrow>
   unchanged_but V fs fs2"
proof -
  assume a: "unchanged_but W fs fs1" and b: "unchanged_but W' fs1 fs2" and c: "W \<subseteq> V" "W' \<subseteq> V"
  show ?thesis
    unfolding unchanged_but_def
  proof (intro allI impI)
    fix q assume "q \<notin> V"
    with c have "q \<notin> W" "q \<notin> W'" by auto
    with a b show "map_of (files fs2) q = map_of (files fs) q"
      by (simp add: unchanged_butD)
  qed
qed

lemma save_conversation_effect:
  "fst (save_conversation e sm fs u cm) \<and>
   dirs (snd (save_conversation e sm fs u cm)) = dirs fs \<and>
   unchanged_but (with_temps (conversation_paths sm u)) fs (snd (save_conversation e sm fs u cm))"
proof -
  let ?p1 = "(conversations_dir sm, str_int u @ ''_conversations.json'')"
  let ?p2 = "(conversations_dir sm, str_int u @ ''_summary.json'')"
  let ?V = "with_temps (conversation_paths sm u)"
  define fs1 where "fs1 = (case map_of (conversations cm) u of
                   None \<Rightarrow> fs
                 | Some h \<Rightarrow> snd (save_file e fs ?p1 h))"
  define fs2 where "fs2 = (case map_of (conversation_summaries cm) u of
                   None \<Rightarrow> fs1
                 | Some s \<Rightarrow>
                     snd (save_file e fs1 ?p2
                            (PDict [(''summary'', s), (''updated_at'', PStr (clock e))])))"
  have r: "save_conversation e sm fs u cm = (True, fs2)"
    unfolding save_conversation_def Let_def fs2_def fs1_def by (rule refl)
  have sub: "{?p1, temp_of ?p1} \<subseteq> ?V" "{?p2, temp_of ?p2} \<subseteq> ?V"
    by (simp_all add: with_temps_def conversation_paths_def)
  have a: "unchanged_but ?V fs fs1 \<and> dirs fs1 = dirs fs"
  proof (cases "map_of (conversations cm) u")
    case None
    then show ?thesis by (simp add: fs1_def unchanged_but_refl)
  next
    case (Some h)
    then have "fs1 = snd (save_file e fs ?p1 h)" by (simp add: fs1_def)
    then show ?thesis
      using save_file_frame [of ?p1 fs e h] unchanged_but_mono [OF _ sub(1)] by blast
  qed
  have b: "unchanged_but ?V fs1 fs2 \<and> dirs fs2 = dirs fs1"
  proof (cases "map_of (conversation_summaries cm) u")
    case None
    then show ?thesis by (simp add: fs2_def unchanged_but_refl)
  next
    case (Some x)
    then have "fs2 = snd (save_file e fs1 ?p2 (PDict [(''summary'', x), (''updated_at'', PStr (clock e))]))"
      by (simp add: fs2_def)
    then show ?thesis
      using save_file_frame [of ?p2 fs1 e] unchanged_but_mono [OF _ sub(2)] by blast
  qed
  from a b have "unchanged_but ?V fs fs2"
    using unchanged_but_step [of ?V fs fs1 ?V fs2 ?V] by simp
  with a b r show ?thesis by simp
qed

lemma save_user_profile_data_effect:
  "(fst (save_user_profile_data e sm fs u profile) \<longleftrightarrow> ''to_dict'' \<notin> fst ` set profile) \<and>
   dirs (snd (save_user_profile_data e sm fs u profile)) = dirs fs \<and>
   unchanged_but (with_temps (conversation_paths sm u)) fs
     (snd (save_user_profile_data e sm fs u profile))"
proof -
  let ?p = "(user_profiles_dir sm, str_int u @ ''_profile.json'')"
  let ?V = "with_temps (conversation_paths sm u)"
  have sub: "{?p, temp_of ?p} \<subseteq> ?V"
    by (auto simp: with_temps_def conversation_paths_def)
  show ?thesis
  proof (cases "''to_dict'' \<in> fst ` set profile")
    case True
    then show ?thesis
      by (simp add: save_user_profile_data_def call_to_dict_def unchanged_but_refl)
  next
    case False
    then have "save_user_profile_data e sm fs u profile =
        (True, snd (save_file e fs ?p (PDict (to_dict profile))))"
      by (simp add: save_user_profile_data_def call_to_dict_def)
    then show ?thesis
      using False save_file_frame [of ?p fs e "PDict (to_dict profile)"]
        unchanged_but_mono [OF _ sub] by simp
  qed
qed

lemma save_data_loop_Cons:
  "\<exists>s1 fs1. save_data_loop e sm cmo (u # rest) (s, fs, em) =
       save_data_loop e sm cmo rest (s1, fs1, snd (snd (save_user_profile e sm fs u em))) \<and>
     dirs fs1 = dirs (fst (snd (save_user_profile e sm fs u em))) \<and>
     unchanged_but (with_temps (conversation_paths sm u))
       (fst (snd (save_user_profile e sm fs u em))) fs1 \<and>
     (s1 \<longleftrightarrow> s \<and> fst (save_user_profile e sm fs u em) \<and> profile_callable cmo u)"
proof -
  obtain b fsA em1 where sup: "save_user_profile e sm fs u em = (b, fsA, em1)"
    by (cases "save_user_profile e sm fs u em") auto
  let ?V = "with_temps (conversation_paths sm u)"
  show ?thesis
  proof (cases cmo)
    case None
    then show ?thesis using sup
      by (intro exI [of _ "s \<and> b"] exI [of _ fsA]) (simp add: profile_callable_def unchanged_but_refl)
  next
    case (Some cm)
    show ?thesis
    proof (cases "u \<in> fst ` set (conversations cm)")
      case False
      then show ?thesis using sup Some
        by (intro exI [of _ "s \<and> b"] exI [of _ fsA]) (simp add: profile_callable_def unchanged_but_refl)
    next
      case True
      obtain cs fs2 where sc: "save_conversation e sm fsA u cm = (cs, fs2)"
        by (cases "save_conversation e sm fsA u cm")
      with save_conversation_effect [of e sm fsA u cm]
      have c: "cs" "dirs fs2 = dirs fsA" "unchanged_but ?V fsA fs2" by simp_all
      show ?thesis
      proof (cases "map_of (user_profiles cm) u")
        case None
        then show ?thesis using sup Some True sc c
          by (intro exI [of _ "(s \<and> b) \<and> cs"] exI [of _ fs2]) (simp add: profile_callable_def)
      next
        case pr: (Some profile)
        obtain ps fs3 where sd: "save_user_profile_data e sm fs2 u profile = (ps, fs3)"
          by (cases "save_user_profile_data e sm fs2 u profile")
        with save_user_profile_data_effect [of e sm fs2 u profile]
        have d: "ps \<longleftrightarrow> ''to_dict'' \<notin> fst ` set profile" "dirs fs3 = dirs fs2"
          "unchanged_but ?V fs2 fs3" by simp_all
        have "unchanged_but ?V fsA fs3"
          using unchanged_but_step [OF c(3) d(3), of ?V] by simp
        then show ?thesis using sup Some True sc c pr sd d
          by (intro exI [of _ "((s \<and> b) \<and> cs) \<and> ps"] exI [of _ fs3]) (simp add: profile_callable_def)
      qed
    qed
  qed
qed

lemma can_make_mono:
  "can_make e fs d \<Longrightarrow> set (dirs fs) \<subseteq> set (dirs fs') \<Longrightarrow> can_make e fs' d"
  unfolding can_make_def mkdir_def by (rule mkdir_chain_mono)

lemma save_user_profile_dirs:
  "set (dirs fs) \<subseteq> set (dirs (fst (snd (save_user_profile e sm fs u em))))"
proof (cases "can_make e fs (profiles_dir sm) \<and>
    (\<exists>d. (case map_of (user_emotions em) u of None \<Rightarrow> PDict [] | Some v \<Rightarrow> v) = PDict d)")
  case False
  then have "save_user_profile e sm fs u em = (False, snd (mkdir e fs (profiles_dir sm)), em)"
    using save_user_profile_fails [of e fs sm em u] by blast
  then show ?thesis using mkdir_fs [of "{}" fs e "profiles_dir sm"] by simp
next
  case True
  then obtain d where c: "can_make e fs (profiles_dir sm)"
    and d: "(case map_of (user_emotions em) u of None \<Rightarrow> PDict [] | Some v \<Rightarrow> v) = PDict d"
    by blast
  from save_user_profile_dict [OF c d] obtain b fs' em1 where
    "save_user_profile e sm fs u em = (b, fs', em1)" "set (dirs fs) \<subseteq> set (dirs fs')"
    by blast
  then show ?thesis by simp
qed

lemma save_data_loop_composed:
  "composed_from em em' \<Longrightarrow> can_make e fs (profiles_dir sm) \<Longrightarrow>
   composed_from em (snd (snd (save_data_loop e sm cmo us (s, fs, em')))) \<and>
   set us \<union> composed_users em em'
     \<subseteq> composed_users em (snd (snd (save_data_loop e sm cmo us (s, fs, em'))))"
proof (induction us arbitrary: s fs em')
  case Nil
  then show ?case by simp
next
  case (Cons u rest)
  let ?fsA = "fst (snd (save_user_profile e sm fs u em'))"
  let ?em1 = "snd (snd (save_user_profile e sm fs u em'))"
  from save_data_loop_Cons [of e sm cmo u rest s fs em'] obtain s1 fs1 where
    eq: "save_data_loop e sm cmo (u # rest) (s, fs, em') = save_data_loop e sm cmo rest (s1, fs1, ?em1)"
    and dd: "dirs fs1 = dirs ?fsA"
    by blast
  have cm: "can_make e fs1 (profiles_dir sm)"
    using can_make_mono [OF Cons.prems(2), of fs1] save_user_profile_dirs [of fs e sm u em'] dd
    by simp
  from composed_from_step [OF Cons.prems(1), of e sm fs u] Cons.prems(2)
  have st: "composed_from em ?em1" "composed_users em em' \<subseteq> composed_users em ?em1"
    "u \<in> composed_users em ?em1"
    by simp_all
  from Cons.IH [OF st(1) cm, of s1]
  have ih: "composed_from em (snd (snd (save_data_loop e sm cmo rest (s1, fs1, ?em1))))"
    "set rest \<union> composed_users em ?em1
       \<subseteq> composed_users em (snd (snd (save_data_loop e sm cmo rest (s1, fs1, ?em1))))"
    by simp_all
  from ih st show ?case by (simp only: eq) auto
qed

subsection \<open>C10: the save writes into the emotion mapping\<close>

text \<open>
  C10 as stated, for every user present in the container, fails when the
  emotional-profiles directory is missing and cannot be made: the \<^verbatim>\<open>mkdir\<close> of line 136
  raises, the handler returns \<open>False\<close>, and the user's mapping is what it was, after
  \<^verbatim>\<open>save_user_profile\<close> and after \<^verbatim>\<open>save_data\<close>.
\<close>

theorem save_user_profile_mkdir_fails_counterexample:
  "\<not> fst (save_user_profile no_new_directories sm0 fs_bare 42 em42) \<and>
   map_of (user_emotions (snd (snd (save_user_profile no_new_directories sm0 fs_bare 42 em42)))) 42
     = Some (PDict [(''mood'', PStr ''happy'')]) \<and>
   map_of (user_emotions (snd (snd (save_data no_new_directories sm0 fs_bare em42 None)))) 42
     = Some (PDict [(''mood'', PStr ''happy'')])"
  by code_simp

text \<open>
  C10, amended. For every user whose entry in the emotion container is a mapping \<open>d\<close>, when
  the emotional-profiles directory exists or can be created (otherwise \<^verbatim>\<open>save_user_profile\<close>
  leaves through its handler before it touches the mapping): after \<^verbatim>\<open>save_user_profile\<close>,
  and after \<^verbatim>\<open>save_data\<close>, the user's entry is \<open>d\<close> with the key \<^verbatim>\<open>relationship\<close> holding
  the user's entry of the relationship container and the key \<^verbatim>\<open>interaction_stats\<close>
  holding the user's counts, each an empty dict when the container has no entry. The two
  containers themselves are unchanged.
\<close>

theorem save_user_profile_writes_into_emotions:
  "map_of (user_emotions em) u = Some (PDict d) \<and> can_make e fs (profiles_dir sm) \<longrightarrow>
     map_of (user_emotions (snd (snd (save_user_profile e sm fs u em)))) u
       = Some (PDict (composite_document em u d)) \<and>
     map_of (user_emotions (snd (snd (save_data e sm fs em cmo)))) u
       = Some (PDict (composite_document em u d)) \<and>
     map_of (composite_document em u d) ''relationship''
       = Some (case map_of (relationship_progress em) u of None \<Rightarrow> PDict [] | Some r \<Rightarrow> r) \<and>
     map_of (composite_document em u d) ''interaction_stats''
       = Some (PDict (case map_of (interaction_stats em) u of None \<Rightarrow> [] | Some c \<Rightarrow> c)) \<and>
     relationship_progress (snd (snd (save_data e sm fs em cmo))) = relationship_progress em \<and>
     interaction_stats (snd (snd (save_data e sm fs em cmo))) = interaction_stats em"
proof
  assume h: "map_of (user_emotions em) u = Some (PDict d) \<and> can_make e fs (profiles_dir sm)"
  then have d: "map_of (user_emotions em) u = Some (PDict d)"
    and c: "can_make e fs (profiles_dir sm)" by simp_all
  have 1: "map_of (user_emotions (snd (snd (save_user_profile e sm fs u em)))) u
       = Some (PDict (composite_document em u d))"
    by (simp add: save_user_profile_em_dict [OF c d] AList.update_conv')
  let ?us = "map fst (user_emotions em)"
  let ?st = "save_data_loop e sm cmo ?us (True, fs, em)"
  have em_eq: "snd (snd (save_data e sm fs em cmo)) = snd (snd ?st)"
    by (simp add: save_data_def split: prod.splits)
  from save_data_loop_composed [OF composed_from_refl c, of em cmo ?us True]
  have cf: "composed_from em (snd (snd ?st))"
    and cu: "set ?us \<subseteq> composed_users em (snd (snd ?st))"
    by simp_all
  from d have "u \<in> fst ` set (user_emotions em)" by (rule map_of_Some_key)
  then have "u \<in> set ?us" by simp
  with cu have "u \<in> composed_users em (snd (snd ?st))" by blast
  with d have 2: "map_of (user_emotions (snd (snd (save_data e sm fs em cmo)))) u
       = Some (PDict (composite_document em u d))"
    by (simp add: composed_users_def em_eq)
  from composed_from_containers [OF cf]
  have 3: "relationship_progress (snd (snd (save_data e sm fs em cmo))) = relationship_progress em"
    "interaction_stats (snd (snd (save_data e sm fs em cmo))) = interaction_stats em"
    by (simp_all add: em_eq)
  from 1 2 3 composite_lookup(1) [of em u d] composite_lookup(2) [of em u d]
  show "map_of (user_emotions (snd (snd (save_user_profile e sm fs u em)))) u
       = Some (PDict (composite_document em u d)) \<and>
     map_of (user_emotions (snd (snd (save_data e sm fs em cmo)))) u
       = Some (PDict (composite_document em u d)) \<and>
     map_of (composite_document em u d) ''relationship''
       = Some (case map_of (relationship_progress em) u of None \<Rightarrow> PDict [] | Some r \<Rightarrow> r) \<and>
     map_of (composite_document em u d) ''interaction_stats''
       = Some (PDict (case map_of (interaction_stats em) u of None \<Rightarrow> [] | Some c \<Rightarrow> c)) \<and>
     relationship_progress (snd (snd (save_data e sm fs em cmo))) = relationship_progress em \<and>
     interaction_stats (snd (snd (save_data e sm fs em cmo))) = interaction_stats em"
    by simp
qed

text \<open>
  The theorem at user 42 of the scenario: after the save the emotion mapping is the whole
  composite document.
\<close>

theorem save_user_profile_writes_into_emotions_witness:
  "map_of (user_emotions (snd (snd (save_user_profile reliable sm0 fs_empty 42 em42)))) 42
     = Some (PDict doc42) \<and>
   map_of (user_emotions (snd (snd (save_data reliable sm0 fs_empty em42 None)))) 42
     = Some (PDict doc42)"
proof -
  have a: "map_of (user_emotions em42) 42 = Some (PDict [(''mood'', PStr ''happy'')])"
    by (simp add: em42_def)
  have b: "can_make reliable fs_empty (profiles_dir sm0)"
    by code_simp
  have c: "composite_document em42 42 [(''mood'', PStr ''happy'')] = doc42"
    by (simp add: composite_document_def em42_def doc42_def)
  from save_user_profile_writes_into_emotions
    [of em42 42 "[(''mood'', PStr ''happy'')]" reliable fs_empty sm0 None] a b
  show ?thesis by (simp only: c)
qed

lemma save_file_success_iff:
  "fst (save_file e fs p v) \<longleftrightarrow>
     snd p \<noteq> [] \<and> serializable v \<and> dir_exists fs (fst p) \<and>
     on_write e (temp_of p) = Written \<and> replace_ok e p"
proof (cases "snd p = [] \<or> \<not> serializable v")
  case True
  then show ?thesis
    by (auto simp: save_file_def save_file_run_def with_suffix_def json_dumps_def Let_def)
next
  case False
  then have ws: "with_suffix (snd p) ''.tmp'' = Inr (stem (snd p) @ ''.tmp'')"
    and jd: "json_dumps v = Inr (Json v)"
    by (simp_all add: with_suffix_def json_dumps_def)
  let ?t = "(fst p, stem (snd p) @ ''.tmp'')"
  have t: "temp_of p = ?t" by (simp add: temp_of_def)
  show ?thesis
  proof (cases "dir_exists fs (fst p) \<and> on_write e ?t = Written")
    case nw: False
    then have "fst (write_text e fs ?t (Json v)) \<noteq> None"
      by (auto simp: write_text_def split: write_outcome.splits)
    then obtain err fs1 where "write_text e fs ?t (Json v) = (Some err, fs1)"
      by (cases "write_text e fs ?t (Json v)") auto
    then have "\<not> fst (save_file e fs p v)"
      by (simp add: save_file_def save_file_run_def ws jd Let_def)
    with nw False t show ?thesis by auto
  next
    case w: True
    let ?fs1 = "fs\<lparr>files := AList.update ?t (Json v) (files fs)\<rparr>"
    have wt: "write_text e fs ?t (Json v) = (None, ?fs1)"
      using w by (simp add: write_text_def)
    have m: "map_of (files ?fs1) ?t = Some (Json v)" by (simp add: AList.update_conv')
    then have "?t \<in> fst ` set (files ?fs1)" by (rule map_of_Some_key)
    then have ex: "file_exists ?fs1 ?t" by (simp add: file_exists_def)
    have rp: "fst (replace e ?fs1 ?t p) = None \<longleftrightarrow> replace_ok e p"
      using m by (simp add: replace_def)
    have "fst (save_file e fs p v) \<longleftrightarrow> fst (replace e ?fs1 ?t p) = None"
      using ex by (cases "replace e ?fs1 ?t p"; cases "fst (replace e ?fs1 ?t p)")
        (simp_all add: save_file_def save_file_run_def ws jd wt Let_def)
    with rp w False t show ?thesis by simp
  qed
qed

subsection \<open>C2: the result of save\_data\<close>

text \<open>
  C2 at user 42 of the scenario, in an environment that refuses every write below the
  users directory and allows the write of the DM settings. The write of the composite
  document \<^verbatim>\<open>42.json\<close> fails, \<^verbatim>\<open>save_file\<close> returns \<open>False\<close>; \<^verbatim>\<open>save_user_profile\<close> prints
  nothing and returns \<open>True\<close> (line 173); \<^verbatim>\<open>save_data\<close> goes on to the DM settings and
  returns \<open>True\<close>, with no profile file on disk. The result is not the conjunction of the
  results of the writes.
\<close>

theorem save_data_true_after_failed_write:
  "\<not> fst (save_file only_data_dir_writable fs_empty (''data/users/profiles'', ''42.json'')
            (PDict doc42)) \<and>
   fst (save_user_profile only_data_dir_writable sm0 fs_empty 42 em42) \<and>
   fst (save_data only_data_dir_writable sm0 fs_empty em42 None) \<and>
   files (fst (snd (save_data only_data_dir_writable sm0 fs_empty em42 None)))
     = [((''data'', ''dm_settings.json''), Json (PDict [(''enabled_users'', PList [])]))]"
  by code_simp
subsection \<open>C9: which family files a save writes\<close>

text \<open>
  File names. A formatted user id consists of digits and at most a leading minus sign and
  determines the id, so a name \<^verbatim>\<open>{user_id}{suffix}\<close> whose suffix starts with \<^verbatim>\<open>_\<close> or \<^verbatim>\<open>.\<close>
  determines both the id and the suffix.
\<close>

declare digits.simps [simp del]


lemma digit_char: "(k::nat) < 10 \<Longrightarrow> is_digit (char_of (48 + k))"
  by (simp add: is_digit_def)

lemma digits_chars: "set (digits n) \<subseteq> {c. is_digit c}"
proof (induction n rule: digits.induct)
  case (1 n)
  show ?case
  proof (cases "n < 10")
    case True
    then show ?thesis using digit_char [of n] by (subst digits.simps) simp
  next
    case False
    have "n mod 10 < 10" by simp
    then have "is_digit (char_of (48 + n mod 10))" by (rule digit_char)
    with False 1 show ?thesis by (subst digits.simps) simp
  qed
qed

lemma digits_nonempty: "digits n \<noteq> []"
  by (subst digits.simps) simp

lemma digits_value_append: "digits_value (s @ [c]) = 10 * digits_value s + (of_char c - 48)"
  by (simp add: digits_value_def)

lemma digits_value_digits: "digits_value (digits n) = n"
proof (induction n rule: digits.induct)
  case (1 n)
  show ?case
  proof (cases "n < 10")
    case True
    then show ?thesis by (subst digits.simps) (simp add: digits_value_def)
  next
    case False
    have "n mod 10 < 10" by simp
    then have "of_char (char_of (48 + n mod 10)) = (48 + n mod 10 :: nat)" by simp
    with False 1 show ?thesis
      by (subst digits.simps) (simp add: digits_value_append)
  qed
qed

lemma digits_inj: "digits a = digits b \<Longrightarrow> a = b"
  by (metis digits_value_digits)

lemma str_int_chars: "set (str_int i) \<subseteq> id_chars"
  using digits_chars by (auto simp: str_int_def id_chars_def)

lemma str_int_nonempty: "str_int i \<noteq> []"
  by (simp add: str_int_def digits_nonempty)

lemma str_int_inj: "str_int a = str_int b \<Longrightarrow> a = b"
proof -
  assume eq: "str_int a = str_int b"
  have nd: "\<not> is_digit (CHR ''-'')" by (simp add: is_digit_def)
  have hd_digit: "is_digit (hd (digits n))" for n
    using digits_chars [of n] digits_nonempty [of n] by (cases "digits n") auto
  show ?thesis
  proof (cases "a < 0")
    case True
    show ?thesis
    proof (cases "b < 0")
      case b: True
      with True eq have "digits (nat (- a)) = digits (nat (- b))" by (simp add: str_int_def)
      then have "nat (- a) = nat (- b)" by (rule digits_inj)
      with True b show ?thesis by simp
    next
      case False
      with True eq have "CHR ''-'' # digits (nat (- a)) = digits (nat b)" by (simp add: str_int_def)
      then have "hd (digits (nat b)) = CHR ''-''" by (metis list.sel(1))
      with hd_digit [of "nat b"] nd show ?thesis by simp
    qed
  next
    case False
    show ?thesis
    proof (cases "b < 0")
      case True
      with False eq have "digits (nat a) = CHR ''-'' # digits (nat (- b))" by (simp add: str_int_def)
      then have "hd (digits (nat a)) = CHR ''-''" by (metis list.sel(1))
      with hd_digit [of "nat a"] nd show ?thesis by simp
    next
      case b: False
      with False eq have "digits (nat a) = digits (nat b)" by (simp add: str_int_def)
      then have "nat a = nat b" by (rule digits_inj)
      with False b show ?thesis by simp
    qed
  qed
qed

lemma append_tail_unique:
  assumes s: "set s \<subseteq> A" and t: "set t \<subseteq> A"
    and x: "X \<noteq> []" "hd X \<notin> A" and y: "Y \<noteq> []" "hd Y \<notin> A"
    and eq: "s @ X = t @ Y"
  shows "s = t \<and> X = Y"
proof -
  have tw: "takeWhile (\<lambda>c. c \<in> A) (u @ Z) = u" if "set u \<subseteq> A" "Z \<noteq> []" "hd Z \<notin> A" for u Z
  proof -
    from that obtain z zs where Z: "Z = z # zs" "z \<notin> A" by (cases Z) auto
    have "takeWhile (\<lambda>c. c \<in> A) (u @ Z) = u @ takeWhile (\<lambda>c. c \<in> A) Z"
      using that(1) by (intro takeWhile_append2) auto
    with Z show ?thesis by simp
  qed
  from tw [OF s x] tw [OF t y] eq have "s = t" by simp
  with eq show ?thesis by simp
qed

lemma user_file_name_unique:
  assumes x: "X \<noteq> []" "hd X \<notin> id_chars" and y: "Y \<noteq> []" "hd Y \<notin> id_chars"
    and eq: "str_int a @ X = str_int b @ Y"
  shows "a = b \<and> X = Y"
  using append_tail_unique [OF str_int_chars str_int_chars x y eq] str_int_inj by blast

text \<open>
  A name that ends in \<^verbatim>\<open>.json\<close> has that suffix, whatever dots come before, so its temporary
  sibling replaces \<^verbatim>\<open>.json\<close> by \<^verbatim>\<open>.tmp\<close>.
\<close>

lemma path_suffix_json: "s \<noteq> [] \<Longrightarrow> path_suffix (s @ ''.json'') = ''.json''"
  by (simp add: path_suffix_def rfind_def Let_def)

lemma stem_json: "s \<noteq> [] \<Longrightarrow> stem (s @ ''.json'') = s"
  by (simp add: stem_def path_suffix_json)

lemma temp_of_json: "s \<noteq> [] \<Longrightarrow> temp_of (d, s @ ''.json'') = (d, s @ ''.tmp'')"
  by (simp add: temp_of_def stem_json)


text \<open>
  One family block: skipped when the guard is false; outside its own two paths it changes
  nothing; it does not raise on a list; and when the write succeeds the file holds the entry.
\<close>

lemma save_if_present_skip:
  "skipped c u \<Longrightarrow> save_if_present e fs p c u = (None, fs)"
  by (simp add: skipped_def save_if_present_def split: option.splits)

lemma save_if_present_keeps:
  assumes "q \<notin> {p, temp_of p} \<or> skipped c u"
  shows "map_of (files (snd (save_if_present e fs p c u))) q = map_of (files fs) q"
proof (cases "skipped c u")
  case True
  then show ?thesis by (simp add: save_if_present_skip)
next
  case False
  with assms have "q \<notin> {p, temp_of p}" by simp
  with save_if_present_frame [of p fs e c u] show ?thesis
    using unchanged_butD by blast
qed

lemma save_if_present_list:
  "list_or_absent c u \<Longrightarrow> fst (save_if_present e fs p c u) = None"
  by (auto simp: list_or_absent_def save_if_present_def
      split: option.splits pyval.splits prod.splits bool.splits)

lemma save_file_success_content:
  assumes "fst (save_file e fs p v)" and "path_suffix (snd p) \<noteq> ''.tmp''"
  shows "map_of (files (snd (save_file e fs p v))) p = Some (Json v)"
  using assms save_file_run_spec [OF assms(2), of e fs v]
  by (simp add: save_file_def Let_def)

lemma save_if_present_writes:
  assumes v: "map_of c u = Some v" "truthy v" "serializable v"
    and p: "snd p \<noteq> []" "path_suffix (snd p) \<noteq> ''.tmp''"
    and env: "dir_exists fs (fst p)" "on_write e (temp_of p) = Written" "replace_ok e p"
  shows "map_of (files (snd (save_if_present e fs p c u))) p = Some (Json v)"
proof -
  have ok: "fst (save_file e fs p v)"
    using v p env by (simp add: save_file_success_iff)
  have "snd (save_if_present e fs p c u) = snd (save_file e fs p v)"
    using v by (simp add: save_if_present_def split: prod.splits bool.splits sum.splits)
  with save_file_success_content [OF ok p(2)] show ?thesis by simp
qed

text \<open>
  \<^verbatim>\<open>save_user_profile\<close> on an emotion mapping, as the chain of its four writes.
\<close>

lemma save_user_profile_chain:
  assumes c: "can_make e fs (profiles_dir sm)"
    and d: "(case map_of (user_emotions em) u of None \<Rightarrow> PDict [] | Some v \<Rightarrow> v) = PDict d"
  shows "\<exists>fs1 r2 fs2 r3 fs3 r4 fs4.
     dirs fs1 = dirs (snd (mkdir e fs (profiles_dir sm))) \<and>
     unchanged_but {(profiles_dir sm, str_int u @ ''.json''),
                    temp_of (profiles_dir sm, str_int u @ ''.json'')} fs fs1 \<and>
     save_if_present e fs1 (profiles_dir sm, str_int u @ ''_memories.json'') (user_memories em) u
       = (r2, fs2) \<and>
     save_if_present e fs2 (profiles_dir sm, str_int u @ ''_events.json'') (user_events em) u
       = (r3, fs3) \<and>
     save_if_present e fs3 (profiles_dir sm, str_int u @ ''_milestones.json'') (user_milestones em) u
       = (r4, fs4) \<and>
     fst (snd (save_user_profile e sm fs u em)) =
       (case r2 of Some err \<Rightarrow> fs2
        | None \<Rightarrow> (case r3 of Some err \<Rightarrow> fs3 | None \<Rightarrow> fs4))"
proof -
  let ?pd = "profiles_dir sm"
  define fs0 where "fs0 = snd (mkdir e fs ?pd)"
  define em1 where "em1 = (if u \<in> set (map fst (user_emotions em))
            then em\<lparr>user_emotions :=
                     AList.update u (PDict (composite_document em u d)) (user_emotions em)\<rparr>
            else em)"
  let ?p1 = "(?pd, str_int u @ ''.json'')"
  let ?p2 = "(?pd, str_int u @ ''_memories.json'')"
  let ?p3 = "(?pd, str_int u @ ''_events.json'')"
  let ?p4 = "(?pd, str_int u @ ''_milestones.json'')"
  define fs1 where "fs1 = snd (save_file e fs0 ?p1 (PDict (composite_document em u d)))"
  obtain r2 fs2 where s2: "save_if_present e fs1 ?p2 (user_memories em1) u = (r2, fs2)"
    by (cases "save_if_present e fs1 ?p2 (user_memories em1) u")
  obtain r3 fs3 where s3: "save_if_present e fs2 ?p3 (user_events em1) u = (r3, fs3)"
    by (cases "save_if_present e fs2 ?p3 (user_events em1) u")
  obtain r4 fs4 where s4: "save_if_present e fs3 ?p4 (user_milestones em1) u = (r4, fs4)"
    by (cases "save_if_present e fs3 ?p4 (user_milestones em1) u")
  have m: "mkdir e fs ?pd = (None, fs0)"
    unfolding fs0_def using c by (rule mkdir_succeeds)
  have eq: "save_user_profile e sm fs u em =
      (case r2 of Some err \<Rightarrow> (False, fs2, em1)
       | None \<Rightarrow> (case r3 of Some err \<Rightarrow> (False, fs3, em1)
                  | None \<Rightarrow> (case r4 of Some err \<Rightarrow> (False, fs4, em1) | None \<Rightarrow> (True, fs4, em1))))"
    unfolding save_user_profile_def Let_def
    apply (simp only: m d prod.case option.case pyval.case)
    apply (simp only: em1_def [symmetric])
    apply (simp only: fs1_def [symmetric])
    apply (simp only: s2 s3 s4 prod.case)
    done
  have cont: "user_memories em1 = user_memories em" "user_events em1 = user_events em"
    "user_milestones em1 = user_milestones em"
    by (simp_all add: em1_def)
  have f0: "unchanged_but {?p1, temp_of ?p1} fs fs0"
    using mkdir_fs [of "{?p1, temp_of ?p1}" fs e ?pd] by (simp add: fs0_def)
  have f1: "unchanged_but {?p1, temp_of ?p1} fs0 fs1" "dirs fs1 = dirs fs0"
    using save_file_frame [of ?p1 fs0 e] by (simp_all add: fs1_def)
  have u1: "unchanged_but {?p1, temp_of ?p1} fs fs1"
    using unchanged_but_step [OF f0 f1(1)] by blast
  have res: "fst (snd (save_user_profile e sm fs u em)) =
       (case r2 of Some err \<Rightarrow> fs2
        | None \<Rightarrow> (case r3 of Some err \<Rightarrow> fs3 | None \<Rightarrow> fs4))"
    by (simp add: eq split: option.splits)
  from u1 f1(2) s2 s3 s4 res show ?thesis
    unfolding cont fs0_def by blast
qed


text \<open>The family files of a user are apart from every other file a save touches.\<close>

lemma family_name_eq:
  assumes X: "X \<in> {''_memories.json'', ''_events.json'', ''_milestones.json''}"
    and Y: "Y \<in> {''.json'', ''_memories.json'', ''_events.json'', ''_milestones.json'',
                ''_conversations.json'', ''_summary.json'', ''_profile.json'',
                ''.tmp'', ''_memories.tmp'', ''_events.tmp'', ''_milestones.tmp'',
                ''_conversations.tmp'', ''_summary.tmp'', ''_profile.tmp''}"
  shows "(str_int u @ X = str_int w @ Y) = (u = w \<and> X = Y)"
proof -
  have x: "X \<noteq> []" "hd X \<notin> id_chars"
    using X by (auto simp: id_chars_def is_digit_def)
  have y: "Y \<noteq> []" "hd Y \<notin> id_chars"
    using Y by (auto simp: id_chars_def is_digit_def)
  show ?thesis using user_file_name_unique [OF x y, of u w] by blast
qed

lemma temp_of_user_files:
  "temp_of (d, str_int w @ ''.json'') = (d, str_int w @ ''.tmp'')"
  "temp_of (d, str_int w @ ''_memories.json'') = (d, str_int w @ ''_memories.tmp'')"
  "temp_of (d, str_int w @ ''_events.json'') = (d, str_int w @ ''_events.tmp'')"
  "temp_of (d, str_int w @ ''_milestones.json'') = (d, str_int w @ ''_milestones.tmp'')"
  "temp_of (d, str_int w @ ''_conversations.json'') = (d, str_int w @ ''_conversations.tmp'')"
  "temp_of (d, str_int w @ ''_summary.json'') = (d, str_int w @ ''_summary.tmp'')"
  "temp_of (d, str_int w @ ''_profile.json'') = (d, str_int w @ ''_profile.tmp'')"
  using temp_of_json [of "str_int w" d] temp_of_json [of "str_int w @ ''_memories''" d]
    temp_of_json [of "str_int w @ ''_events''" d] temp_of_json [of "str_int w @ ''_milestones''" d]
    temp_of_json [of "str_int w @ ''_conversations''" d] temp_of_json [of "str_int w @ ''_summary''" d]
    temp_of_json [of "str_int w @ ''_profile''" d]
  by (simp_all add: str_int_nonempty)

lemma family_suffix:
  "(sfx, c) \<in> set families \<Longrightarrow> sfx \<in> {''_memories.json'', ''_events.json'', ''_milestones.json''}"
  by (auto simp: families_def)

lemma family_path_not_conversation:
  assumes "(sfx, c) \<in> set families"
  shows "(profiles_dir sm, str_int u @ sfx) \<notin> with_temps (conversation_paths sm w)"
  using family_suffix [OF assms]
  by (simp add: with_temps_def conversation_paths_def temp_of_user_files family_name_eq) auto

lemma family_path_not_other_user:
  assumes "(sfx, c) \<in> set families" and "w \<noteq> u"
  shows "(profiles_dir sm, str_int u @ sfx) \<notin> with_temps (profile_paths sm w)"
  using family_suffix [OF assms(1)] assms(2)
  by (simp add: with_temps_def profile_paths_def temp_of_user_files family_name_eq)

lemma family_path_not_temp:
  assumes "(sfx, c) \<in> set families"
  shows "(d, str_int u @ sfx) \<noteq> temp_of p"
proof
  assume "(d, str_int u @ sfx) = temp_of p"
  then have "str_int u @ sfx = stem (snd p) @ ''.tmp''" by (simp add: temp_of_def)
  then have "last (str_int u @ sfx) = last (stem (snd p) @ ''.tmp'')" by simp
  with family_suffix [OF assms] show False by auto
qed


text \<open>
  One call of \<^verbatim>\<open>save_user_profile\<close> keeps a path that none of its writes touches, and
  leaves the entry on disk when the family is ready.
\<close>

lemma save_user_profile_keeps:
  assumes k1: "q \<notin> {(profiles_dir sm, str_int u @ ''.json''),
                     temp_of (profiles_dir sm, str_int u @ ''.json'')}"
    and k2: "q \<notin> {(profiles_dir sm, str_int u @ ''_memories.json''),
                     temp_of (profiles_dir sm, str_int u @ ''_memories.json'')}
             \<or> skipped (user_memories em) u"
    and k3: "q \<notin> {(profiles_dir sm, str_int u @ ''_events.json''),
                     temp_of (profiles_dir sm, str_int u @ ''_events.json'')}
             \<or> skipped (user_events em) u"
    and k4: "q \<notin> {(profiles_dir sm, str_int u @ ''_milestones.json''),
                     temp_of (profiles_dir sm, str_int u @ ''_milestones.json'')}
             \<or> skipped (user_milestones em) u"
  shows "map_of (files (fst (snd (save_user_profile e sm fs u em)))) q = map_of (files fs) q"
proof (cases "can_make e fs (profiles_dir sm) \<and>
    (\<exists>d. (case map_of (user_emotions em) u of None \<Rightarrow> PDict [] | Some v \<Rightarrow> v) = PDict d)")
  case False
  then have "save_user_profile e sm fs u em = (False, snd (mkdir e fs (profiles_dir sm)), em)"
    using save_user_profile_fails [of e fs sm em u] by blast
  moreover have "map_of (files (snd (mkdir e fs (profiles_dir sm)))) q = map_of (files fs) q"
    using mkdir_fs [of "{}" fs e "profiles_dir sm"] unchanged_butD [of "{}" fs _ q] by simp
  ultimately show ?thesis by simp
next
  case True
  then obtain d where c: "can_make e fs (profiles_dir sm)"
    and d: "(case map_of (user_emotions em) u of None \<Rightarrow> PDict [] | Some v \<Rightarrow> v) = PDict d"
    by blast
  from save_user_profile_chain [OF c d] obtain fs1 r2 fs2 r3 fs3 r4 fs4 where
    u1: "unchanged_but {(profiles_dir sm, str_int u @ ''.json''),
                    temp_of (profiles_dir sm, str_int u @ ''.json'')} fs fs1"
    and s2: "save_if_present e fs1 (profiles_dir sm, str_int u @ ''_memories.json'')
               (user_memories em) u = (r2, fs2)"
    and s3: "save_if_present e fs2 (profiles_dir sm, str_int u @ ''_events.json'')
               (user_events em) u = (r3, fs3)"
    and s4: "save_if_present e fs3 (profiles_dir sm, str_int u @ ''_milestones.json'')
               (user_milestones em) u = (r4, fs4)"
    and res: "fst (snd (save_user_profile e sm fs u em)) =
       (case r2 of Some err \<Rightarrow> fs2
        | None \<Rightarrow> (case r3 of Some err \<Rightarrow> fs3 | None \<Rightarrow> fs4))"
    by blast
  have a1: "map_of (files fs1) q = map_of (files fs) q"
    using unchanged_butD [OF u1 k1] .
  have a2: "map_of (files fs2) q = map_of (files fs1) q"
    using save_if_present_keeps [OF k2, of e fs1] s2 by simp
  have a3: "map_of (files fs3) q = map_of (files fs2) q"
    using save_if_present_keeps [OF k3, of e fs2] s3 by simp
  have a4: "map_of (files fs4) q = map_of (files fs3) q"
    using save_if_present_keeps [OF k4, of e fs3] s4 by simp
  show ?thesis using a1 a2 a3 a4 by (simp add: res split: option.splits)
qed

lemma family_skipped_keeps:
  assumes fam: "(sfx, c) \<in> set families" and sk: "skipped (c em) u"
  shows "map_of (files (fst (snd (save_user_profile e sm fs w em)))) (profiles_dir sm, str_int u @ sfx)
           = map_of (files fs) (profiles_dir sm, str_int u @ sfx)"
proof (rule save_user_profile_keeps)
  from family_suffix [OF fam]
  show "(profiles_dir sm, str_int u @ sfx) \<notin>
          {(profiles_dir sm, str_int w @ ''.json''), temp_of (profiles_dir sm, str_int w @ ''.json'')}"
    by (simp add: temp_of_user_files family_name_eq) auto
next
  from fam sk
  show "(profiles_dir sm, str_int u @ sfx) \<notin>
          {(profiles_dir sm, str_int w @ ''_memories.json''),
           temp_of (profiles_dir sm, str_int w @ ''_memories.json'')}
        \<or> skipped (user_memories em) w"
    by (auto simp: families_def temp_of_user_files family_name_eq dest: str_int_inj)
next
  from fam sk
  show "(profiles_dir sm, str_int u @ sfx) \<notin>
          {(profiles_dir sm, str_int w @ ''_events.json''),
           temp_of (profiles_dir sm, str_int w @ ''_events.json'')}
        \<or> skipped (user_events em) w"
    by (auto simp: families_def temp_of_user_files family_name_eq dest: str_int_inj)
next
  from fam sk
  show "(profiles_dir sm, str_int u @ sfx) \<notin>
          {(profiles_dir sm, str_int w @ ''_milestones.json''),
           temp_of (profiles_dir sm, str_int w @ ''_milestones.json'')}
        \<or> skipped (user_milestones em) w"
    by (auto simp: families_def temp_of_user_files family_name_eq dest: str_int_inj)
qed

lemma other_user_keeps:
  assumes fam: "(sfx, c) \<in> set families" and w: "w \<noteq> u"
  shows "map_of (files (fst (snd (save_user_profile e sm fs w em)))) (profiles_dir sm, str_int u @ sfx)
           = map_of (files fs) (profiles_dir sm, str_int u @ sfx)"
  using family_path_not_other_user [OF fam w, of sm]
  by (intro save_user_profile_keeps) (simp_all add: with_temps_def profile_paths_def)

lemma save_user_profile_containers:
  "(sfx, c) \<in> set families \<Longrightarrow> c (snd (snd (save_user_profile e sm fs w em))) = c em"
  using save_user_profile_em_cases [of e sm fs w em] by (auto simp: families_def)

lemma save_user_profile_keeps_dict:
  assumes "map_of (user_emotions em) u = Some (PDict d)"
  shows "\<exists>d'. map_of (user_emotions (snd (snd (save_user_profile e sm fs w em)))) u = Some (PDict d')"
  using save_user_profile_em_cases [of e sm fs w em] assms
  by (auto simp: AList.update_conv')


lemma family_file_name:
  assumes "(sfx, c) \<in> set families"
  shows "str_int u @ sfx \<noteq> []" and "path_suffix (str_int u @ sfx) \<noteq> ''.tmp''"
proof -
  show "str_int u @ sfx \<noteq> []" by (simp add: str_int_nonempty)
  from family_suffix [OF assms]
  have "path_suffix (str_int u @ sfx) = ''.json''"
    using path_suffix_json [of "str_int u @ ''_memories''"]
      path_suffix_json [of "str_int u @ ''_events''"]
      path_suffix_json [of "str_int u @ ''_milestones''"]
    by (auto simp: str_int_nonempty)
  then show "path_suffix (str_int u @ sfx) \<noteq> ''.tmp''" by simp
qed

lemma save_user_profile_writes:
  assumes c: "can_make e fs (profiles_dir sm)"
    and r: "family_ready e sm em u sfx cn v"
  shows "map_of (files (fst (snd (save_user_profile e sm fs u em)))) (profiles_dir sm, str_int u @ sfx)
           = Some (Json v)"
proof -
  let ?pd = "profiles_dir sm"
  let ?q = "(?pd, str_int u @ sfx)"
  from r obtain d where fam: "(sfx, cn) \<in> set families"
    and d0: "map_of (user_emotions em) u = Some (PDict d)"
    and l2: "list_or_absent (user_memories em) u"
    and l3: "list_or_absent (user_events em) u"
    and l4: "list_or_absent (user_milestones em) u"
    and v: "map_of (cn em) u = Some v" "truthy v" "serializable v"
    and env: "on_write e (temp_of ?q) = Written" "replace_ok e ?q"
    by (auto simp: family_ready_def)
  from d0 have d: "(case map_of (user_emotions em) u of None \<Rightarrow> PDict [] | Some v \<Rightarrow> v) = PDict d"
    by simp
  from save_user_profile_chain [OF c d] obtain fs1 r2 fs2 r3 fs3 r4 fs4 where
    d1: "dirs fs1 = dirs (snd (mkdir e fs ?pd))"
    and s2: "save_if_present e fs1 (?pd, str_int u @ ''_memories.json'')
               (user_memories em) u = (r2, fs2)"
    and s3: "save_if_present e fs2 (?pd, str_int u @ ''_events.json'')
               (user_events em) u = (r3, fs3)"
    and s4: "save_if_present e fs3 (?pd, str_int u @ ''_milestones.json'')
               (user_milestones em) u = (r4, fs4)"
    and res: "fst (snd (save_user_profile e sm fs u em)) =
       (case r2 of Some err \<Rightarrow> fs2
        | None \<Rightarrow> (case r3 of Some err \<Rightarrow> fs3 | None \<Rightarrow> fs4))"
    by blast
  have n2: "r2 = None"
    using save_if_present_list [OF l2, of e fs1 "(?pd, str_int u @ ''_memories.json'')"] s2 by simp
  have n3: "r3 = None"
    using save_if_present_list [OF l3, of e fs2 "(?pd, str_int u @ ''_events.json'')"] s3 by simp
  have res4: "fst (snd (save_user_profile e sm fs u em)) = fs4"
    using res n2 n3 by simp
  have e0: "dir_exists (snd (mkdir e fs ?pd)) ?pd"
    using mkdir_fs [of "{}" fs e ?pd] c by simp
  have e1: "dir_exists fs1 ?pd" using e0 d1 by (simp add: dir_exists_def)
  have dd2: "dirs fs2 = dirs fs1"
    using save_if_present_frame [of "(?pd, str_int u @ ''_memories.json'')" fs1 e "user_memories em" u] s2
    by simp
  have dd3: "dirs fs3 = dirs fs2"
    using save_if_present_frame [of "(?pd, str_int u @ ''_events.json'')" fs2 e "user_events em" u] s3
    by simp
  have e2: "dir_exists fs2 ?pd" using e1 dd2 by (simp add: dir_exists_def)
  have e3: "dir_exists fs3 ?pd" using e2 dd3 by (simp add: dir_exists_def)
  have wr: "map_of (files (snd (save_if_present e fs0 ?q (cn em) u))) ?q = Some (Json v)"
    if "dir_exists fs0 ?pd" for fs0
    using save_if_present_writes [OF v, of ?q fs0 e] family_file_name [OF fam, of u] that env
    by simp
  have k3: "?q \<notin> {(?pd, str_int u @ ''_events.json''), temp_of (?pd, str_int u @ ''_events.json'')}"
    if "sfx = ''_memories.json''"
    using that by (simp add: temp_of_user_files)
  have k4: "?q \<notin> {(?pd, str_int u @ ''_milestones.json''),
                    temp_of (?pd, str_int u @ ''_milestones.json'')}"
    if "sfx \<noteq> ''_milestones.json''"
    using that family_suffix [OF fam] by (auto simp: temp_of_user_files)
  from fam consider
      (mem) "sfx = ''_memories.json''" "cn = user_memories"
    | (ev) "sfx = ''_events.json''" "cn = user_events"
    | (mil) "sfx = ''_milestones.json''" "cn = user_milestones"
    by (auto simp: families_def)
  then have "map_of (files fs4) ?q = Some (Json v)"
  proof cases
    case mem
    have "map_of (files fs2) ?q = Some (Json v)"
      using wr [OF e1] s2 mem by simp
    moreover have "map_of (files fs3) ?q = map_of (files fs2) ?q"
      using save_if_present_keeps [of ?q "(?pd, str_int u @ ''_events.json'')" "user_events em" u e fs2]
        k3 [OF mem(1)] s3 by simp
    moreover have "map_of (files fs4) ?q = map_of (files fs3) ?q"
      using save_if_present_keeps [of ?q "(?pd, str_int u @ ''_milestones.json'')"
          "user_milestones em" u e fs3] k4 s4 mem by simp
    ultimately show ?thesis by simp
  next
    case ev
    have "map_of (files fs3) ?q = Some (Json v)"
      using wr [OF e2] s3 ev by simp
    moreover have "map_of (files fs4) ?q = map_of (files fs3) ?q"
      using save_if_present_keeps [of ?q "(?pd, str_int u @ ''_milestones.json'')"
          "user_milestones em" u e fs3] k4 s4 ev by simp
    ultimately show ?thesis by simp
  next
    case mil
    show ?thesis using wr [OF e3] s4 mil by simp
  qed
  then show ?thesis by (simp add: res4)
qed

lemma family_ready_step:
  assumes "family_ready e sm em u sfx c v"
  shows "family_ready e sm (snd (snd (save_user_profile e' sm fs w em))) u sfx c v"
proof -
  let ?em = "snd (snd (save_user_profile e' sm fs w em))"
  from assms obtain d where fam: "(sfx, c) \<in> set families"
    and d: "map_of (user_emotions em) u = Some (PDict d)"
    by (auto simp: family_ready_def)
  have cont: "user_memories ?em = user_memories em" "user_events ?em = user_events em"
    "user_milestones ?em = user_milestones em"
    using save_user_profile_em_cases [of e' sm fs w em] by auto
  have c: "c ?em = c em" using save_user_profile_containers [OF fam] .
  from save_user_profile_keeps_dict [OF d, of e' sm fs w]
  have "\<exists>d'. map_of (user_emotions ?em) u = Some (PDict d')" .
  with assms show ?thesis by (simp add: family_ready_def cont c)
qed

lemma skipped_step:
  assumes "(sfx, c) \<in> set families" and "skipped (c em) u"
  shows "skipped (c (snd (snd (save_user_profile e sm fs w em)))) u"
  using assms save_user_profile_containers [OF assms(1), of e sm fs w em] by simp


text \<open>The loop of \<^verbatim>\<open>save_data\<close>, and the write of the DM settings after it.\<close>

lemma save_data_loop_keeps:
  "(sfx, c) \<in> set families \<Longrightarrow> skipped (c em) u \<Longrightarrow>
   map_of (files (fst (snd (save_data_loop e sm cmo us (s, fs, em))))) (profiles_dir sm, str_int u @ sfx)
     = map_of (files fs) (profiles_dir sm, str_int u @ sfx)"
proof (induction us arbitrary: s fs em)
  case Nil
  then show ?case by simp
next
  case (Cons w rest)
  let ?q = "(profiles_dir sm, str_int u @ sfx)"
  let ?fsA = "fst (snd (save_user_profile e sm fs w em))"
  let ?em1 = "snd (snd (save_user_profile e sm fs w em))"
  from save_data_loop_Cons [of e sm cmo w rest s fs em] obtain s1 fs1 where
    eq: "save_data_loop e sm cmo (w # rest) (s, fs, em) = save_data_loop e sm cmo rest (s1, fs1, ?em1)"
    and ub: "unchanged_but (with_temps (conversation_paths sm w)) ?fsA fs1"
    by blast
  have a: "map_of (files ?fsA) ?q = map_of (files fs) ?q"
    using family_skipped_keeps [OF Cons.prems] .
  have b: "map_of (files fs1) ?q = map_of (files ?fsA) ?q"
    using unchanged_butD [OF ub family_path_not_conversation [OF Cons.prems(1)]] .
  have "map_of (files (fst (snd (save_data_loop e sm cmo rest (s1, fs1, ?em1))))) ?q
          = map_of (files fs1) ?q"
    using Cons.IH [OF Cons.prems(1) skipped_step [OF Cons.prems]] .
  with a b show ?case by (simp only: eq)
qed

lemma save_data_loop_writes:
  "family_ready e sm em u sfx c v \<Longrightarrow> can_make e fs (profiles_dir sm) \<Longrightarrow>
   u \<in> set us \<or> map_of (files fs) (profiles_dir sm, str_int u @ sfx) = Some (Json v) \<Longrightarrow>
   map_of (files (fst (snd (save_data_loop e sm cmo us (s, fs, em))))) (profiles_dir sm, str_int u @ sfx)
     = Some (Json v)"
proof (induction us arbitrary: s fs em)
  case Nil
  then show ?case by simp
next
  case (Cons w rest)
  let ?q = "(profiles_dir sm, str_int u @ sfx)"
  let ?fsA = "fst (snd (save_user_profile e sm fs w em))"
  let ?em1 = "snd (snd (save_user_profile e sm fs w em))"
  from Cons.prems(1) have fam: "(sfx, c) \<in> set families" by (simp add: family_ready_def)
  from save_data_loop_Cons [of e sm cmo w rest s fs em] obtain s1 fs1 where
    eq: "save_data_loop e sm cmo (w # rest) (s, fs, em) = save_data_loop e sm cmo rest (s1, fs1, ?em1)"
    and dd: "dirs fs1 = dirs ?fsA"
    and ub: "unchanged_but (with_temps (conversation_paths sm w)) ?fsA fs1"
    by blast
  have r': "family_ready e sm ?em1 u sfx c v"
    using family_ready_step [OF Cons.prems(1)] .
  have c': "can_make e fs1 (profiles_dir sm)"
    using can_make_mono [OF Cons.prems(2), of fs1] save_user_profile_dirs [of fs e sm w em] dd
    by simp
  have b: "map_of (files fs1) ?q = map_of (files ?fsA) ?q"
    using unchanged_butD [OF ub family_path_not_conversation [OF fam]] .
  have next_state: "u \<in> set rest \<or> map_of (files fs1) ?q = Some (Json v)"
  proof (cases "w = u")
    case True
    have "map_of (files ?fsA) ?q = Some (Json v)"
      using save_user_profile_writes [OF Cons.prems(2) Cons.prems(1)] True by simp
    with b show ?thesis by simp
  next
    case False
    have "map_of (files ?fsA) ?q = map_of (files fs) ?q"
      using other_user_keeps [OF fam False] .
    with b Cons.prems(3) False show ?thesis by auto
  qed
  have "map_of (files (fst (snd (save_data_loop e sm cmo rest (s1, fs1, ?em1))))) ?q = Some (Json v)"
    using Cons.IH [OF r' c' next_state] .
  then show ?case by (simp only: eq)
qed

lemma save_data_dm_frame:
  assumes fam: "(sfx, c) \<in> set families"
    and dm: "dm_settings_file sm \<noteq> (profiles_dir sm, str_int u @ sfx)"
  shows "map_of (files (fst (snd (save_data e sm fs em cmo)))) (profiles_dir sm, str_int u @ sfx)
   = map_of (files (fst (snd (save_data_loop e sm cmo (map fst (user_emotions em)) (True, fs, em)))))
       (profiles_dir sm, str_int u @ sfx)"
proof -
  let ?q = "(profiles_dir sm, str_int u @ sfx)"
  let ?L = "save_data_loop e sm cmo (map fst (user_emotions em)) (True, fs, em)"
  have eq: "fst (snd (save_data e sm fs em cmo)) =
      snd (save_file e (fst (snd ?L)) (dm_settings_file sm)
             (PDict [(''enabled_users'', PList (dm_enabled_users (snd (snd ?L))))]))"
    by (simp add: save_data_def save_dm_settings_def split: prod.splits)
  have "?q \<notin> {dm_settings_file sm, temp_of (dm_settings_file sm)}"
    using dm family_path_not_temp [OF fam, of "profiles_dir sm" u "dm_settings_file sm"] by auto
  with save_file_frame [of "dm_settings_file sm" "fst (snd ?L)" e] show ?thesis
    unfolding eq using unchanged_butD by blast
qed

text \<open>
  C9, amended. Take one of the three families (memories, events, milestones) and a user
  \<open>u\<close>, and let the DM-settings file not be that family's file of \<open>u\<close>. (1) If \<open>u\<close> has no
  entry in the family's container, or an entry that is false (an empty list), then after
  \<^verbatim>\<open>save_data\<close> the path \<^verbatim>\<open>{u}_{family}.json\<close> of the emotional-profiles directory holds exactly
  what it held before: the save writes no such file, with any environment and any
  conversation manager. (2) If \<open>u\<close> has an emotion mapping in \<^verbatim>\<open>user_emotions\<close>, the three
  entries of \<open>u\<close> are lists or absent, the family's entry \<open>v\<close> is non-empty and
  serializable, the profiles directory exists or can be created, and the temporary file
  can be written and renamed, then after \<^verbatim>\<open>save_data\<close> that path holds \<open>v\<close>.
\<close>

theorem save_data_family_files:
  "(sfx, c) \<in> set families \<and> dm_settings_file sm \<noteq> (profiles_dir sm, str_int u @ sfx) \<longrightarrow>
     (skipped (c em) u \<longrightarrow>
        map_of (files (fst (snd (save_data e sm fs em cmo)))) (profiles_dir sm, str_int u @ sfx)
          = map_of (files fs) (profiles_dir sm, str_int u @ sfx)) \<and>
     (family_ready e sm em u sfx c v \<and> can_make e fs (profiles_dir sm) \<longrightarrow>
        map_of (files (fst (snd (save_data e sm fs em cmo)))) (profiles_dir sm, str_int u @ sfx)
          = Some (Json v))"
proof (intro impI conjI)
  assume h: "(sfx, c) \<in> set families \<and> dm_settings_file sm \<noteq> (profiles_dir sm, str_int u @ sfx)"
  then have fam: "(sfx, c) \<in> set families"
    and dm: "dm_settings_file sm \<noteq> (profiles_dir sm, str_int u @ sfx)" by simp_all
  assume sk: "skipped (c em) u"
  show "map_of (files (fst (snd (save_data e sm fs em cmo)))) (profiles_dir sm, str_int u @ sfx)
          = map_of (files fs) (profiles_dir sm, str_int u @ sfx)"
    using save_data_dm_frame [OF fam dm, of e fs em cmo]
      save_data_loop_keeps [OF fam sk, of e sm cmo "map fst (user_emotions em)" True fs]
    by simp
next
  assume h: "(sfx, c) \<in> set families \<and> dm_settings_file sm \<noteq> (profiles_dir sm, str_int u @ sfx)"
  then have fam: "(sfx, c) \<in> set families"
    and dm: "dm_settings_file sm \<noteq> (profiles_dir sm, str_int u @ sfx)" by simp_all
  assume "family_ready e sm em u sfx c v \<and> can_make e fs (profiles_dir sm)"
  then have r: "family_ready e sm em u sfx c v" and cm: "can_make e fs (profiles_dir sm)"
    by simp_all
  from r obtain d where "map_of (user_emotions em) u = Some (PDict d)"
    by (auto simp: family_ready_def)
  then have "u \<in> fst ` set (user_emotions em)" by (rule map_of_Some_key)
  then have "u \<in> set (map fst (user_emotions em)) \<or>
             map_of (files fs) (profiles_dir sm, str_int u @ sfx) = Some (Json v)" by simp
  from save_data_loop_writes [OF r cm this, of cmo True]
    save_data_dm_frame [OF fam dm, of e fs em cmo]
  show "map_of (files (fst (snd (save_data e sm fs em cmo)))) (profiles_dir sm, str_int u @ sfx)
          = Some (Json v)"
    by simp
qed

text \<open>
  The theorem at user 42 with one memory and no events on an empty directory tree:
  \<^verbatim>\<open>42_memories.json\<close> holds the memory, and there is no \<^verbatim>\<open>42_events.json\<close>.
\<close>

theorem save_data_family_files_witness:
  "map_of (files (fst (snd (save_data reliable sm0 fs_empty em42_memory None))))
     (''data/users/profiles'', ''42_memories.json'') = Some (Json (PList [PStr ''first meeting''])) \<and>
   map_of (files (fst (snd (save_data reliable sm0 fs_empty em42_memory None))))
     (''data/users/profiles'', ''42_events.json'') = None"
proof -
  have p: "profiles_dir sm0 = ''data/users/profiles''" by (simp add: sm0_def)
  have f1: "(''_memories.json'', user_memories) \<in> set families"
    and f2: "(''_events.json'', user_events) \<in> set families"
    by (simp_all add: families_def)
  have dm: "dm_settings_file sm0 \<noteq> (profiles_dir sm0, str_int 42 @ sfx)" for sfx
    by (simp add: sm0_def)
  have sk: "skipped (user_events em42_memory) 42"
    by (simp add: skipped_def em42_memory_def em42_def)
  have rd: "family_ready reliable sm0 em42_memory 42 ''_memories.json'' user_memories
              (PList [PStr ''first meeting''])"
    by (simp add: family_ready_def families_def em42_memory_def em42_def list_or_absent_def
        reliable_def)
  have c: "can_make reliable fs_empty (profiles_dir sm0)"
    by code_simp
  have e: "map_of (files fs_empty) q = None" for q by (simp add: fs_empty_def)
  from save_data_family_files
         [of "''_memories.json''" user_memories sm0 42 em42_memory reliable fs_empty None
             "PList [PStr ''first meeting'']"]
       save_data_family_files
         [of "''_events.json''" user_events sm0 42 em42_memory reliable fs_empty None PNone]
       f1 f2 dm sk rd c
  show ?thesis by (simp add: p str_int_42 e)
qed

text \<open>
  C9 as stated fails: \<^verbatim>\<open>save_data\<close> visits the keys of \<^verbatim>\<open>user_emotions\<close> only (line 275).
  User 7 has a non-empty memories list and no emotional state; after the save the only
  file is the DM settings, so \<^verbatim>\<open>7_memories.json\<close> was not written.
\<close>

theorem save_data_skips_user_without_emotions_counterexample:
  "map_of (user_memories em_memory_only) 7 = Some (PList [PStr ''first meeting'']) \<and>
   files (fst (snd (save_data reliable sm0 fs_empty em_memory_only None)))
     = [((''data'', ''dm_settings.json''), Json (PDict [(''enabled_users'', PList [])]))]"
  by code_simp
end
